(* ===== verification/Prelude.thy ===== *)
theory Prelude
  imports Main "HOL-Library.Multiset"
begin

text \<open>
  Shared vocabulary of the development: the names of the model's basic types, the
  JavaScript list primitives the sources use (\<open>findIndex\<close>/\<open>indexOf\<close> returning -1,
  \<open>splice(i, 1)\<close>, \<open>push\<close>, \<open>unshift\<close>), the JavaScript string primitives
  (\<open>trim\<close>, \<open>toLowerCase\<close>, \<open>includes\<close>) on strings of code units below 256, and
  the lemmas on them that the component theories share.
\<close>

named_theorems js_list_simps "characteristic equations of the JavaScript list primitives"
named_theorems js_string_simps "characteristic equations of the JavaScript string primitives"

type_synonym uid = string      \<comment> \<open>user ids, \<open>Date.now().toString()\<close> in auth.js\<close>
type_synonym time = int        \<comment> \<open>milliseconds, \<open>Date.now()\<close>\<close>

subsection \<open>List primitives\<close>

text \<open>
  \<open>xs.findIndex(p)\<close> and \<open>xs.indexOf(x)\<close>: the first index whose element satisfies
  the predicate; the source's \<open>-1\<close> is \<open>None\<close>.
\<close>

fun find_idx :: "('a \<Rightarrow> bool) \<Rightarrow> 'a list \<Rightarrow> nat option" where
  "find_idx P [] = None"
| "find_idx P (x # xs) = (if P x then Some 0 else map_option Suc (find_idx P xs))"

text \<open>\<open>xs.splice(i, 1)\<close> for an index in range.\<close>

definition remove_at :: "nat \<Rightarrow> 'a list \<Rightarrow> 'a list" where
  "remove_at i xs = take i xs @ drop (Suc i) xs"

lemma find_idx_None_iff [js_list_simps]: "find_idx P xs = None \<longleftrightarrow> (\<forall>x\<in>set xs. \<not> P x)"
  by (induction xs) auto

lemma find_idx_SomeD:
  "find_idx P xs = Some i \<Longrightarrow> i < length xs \<and> P (xs ! i) \<and> (\<forall>j<i. \<not> P (xs ! j))"
proof (induction xs arbitrary: i)
  case Nil
  then show ?case by simp
next
  case (Cons x xs)
  show ?case
  proof (cases "P x")
    case True
    with Cons.prems show ?thesis by simp
  next
    case False
    with Cons.prems obtain k where k: "find_idx P xs = Some k" and i: "i = Suc k"
      by auto
    from Cons.IH [OF k] False show ?thesis
      by (auto simp: i less_Suc_eq_0_disj)
  qed
qed

lemma find_idx_Some_iff [js_list_simps]:
  "find_idx P xs = Some i \<longleftrightarrow> i < length xs \<and> P (xs ! i) \<and> (\<forall>j<i. \<not> P (xs ! j))"
proof
  assume "find_idx P xs = Some i"
  then show "i < length xs \<and> P (xs ! i) \<and> (\<forall>j<i. \<not> P (xs ! j))"
    by (rule find_idx_SomeD)
next
  assume r: "i < length xs \<and> P (xs ! i) \<and> (\<forall>j<i. \<not> P (xs ! j))"
  then show "find_idx P xs = Some i"
  proof (induction xs arbitrary: i)
    case Nil
    then show ?case by simp
  next
    case (Cons x xs)
    show ?case
    proof (cases i)
      case 0
      with Cons.prems show ?thesis by simp
    next
      case (Suc k)
      with Cons.prems have "\<not> P x" by auto
      moreover from Cons.prems Suc have "find_idx P xs = Some k"
        by (intro Cons.IH) auto
      ultimately show ?thesis by (simp add: Suc)
    qed
  qed
qed

text \<open>The element \<open>find\<close> returns is the one at \<open>findIndex\<close>.\<close>

lemma find_conv_find_idx:
  "List.find P xs = map_option (\<lambda>i. xs ! i) (find_idx P xs)"
  by (induction xs) (auto simp: option.map_comp comp_def)

lemma find_idx_nth: "find_idx P xs = Some i \<Longrightarrow> P (xs ! i)"
  by (simp add: find_idx_Some_iff)

lemma find_idx_less: "find_idx P xs = Some i \<Longrightarrow> i < length xs"
  by (simp add: find_idx_Some_iff)

lemma find_idx_SomeE:
  assumes "find_idx P xs = Some i"
  obtains "i < length xs" "P (xs ! i)" "xs ! i \<in> set xs"
  using assms by (simp add: find_idx_Some_iff)

lemma find_idx_update_eq:
  "P y = P (xs ! i) \<Longrightarrow> find_idx P (xs[i := y]) = find_idx P xs"
proof (induction xs arbitrary: i)
  case (Cons x xs)
  then show ?case by (cases i) auto
qed simp

lemma find_update_eq:
  assumes "P y = P (xs ! i)" "i < length xs"
  shows "find P (xs[i := y]) = map_option (\<lambda>j. if j = i then y else xs ! j) (find_idx P xs)"
  using assms by (cases "find_idx P xs")
    (simp_all add: find_conv_find_idx find_idx_update_eq nth_list_update find_idx_less)

lemma find_snoc:
  "find P (xs @ [y]) = (case find P xs of None \<Rightarrow> if P y then Some y else None | Some x \<Rightarrow> Some x)"
  by (induction xs) auto

lemma length_remove_at [js_list_simps]:
  "i < length xs \<Longrightarrow> length (remove_at i xs) = length xs - 1"
  by (simp add: remove_at_def)

lemma mset_remove_at [js_list_simps]:
  "i < length xs \<Longrightarrow> mset (remove_at i xs) = mset xs - {#xs ! i#}"
proof -
  assume i: "i < length xs"
  then have "xs = take i xs @ xs ! i # drop (Suc i) xs"
    by (simp add: id_take_nth_drop)
  then have "mset xs = mset (take i xs @ drop (Suc i) xs) + {#xs ! i#}"
    by (metis add.commute add_mset_add_single mset.simps(2) mset_append union_mset_add_mset_right)
  then show ?thesis by (simp add: remove_at_def)
qed

lemma set_remove_at_subset: "set (remove_at i xs) \<subseteq> set xs"
  by (auto simp: remove_at_def dest: in_set_takeD in_set_dropD)

lemma distinct_remove_at: "distinct xs \<Longrightarrow> distinct (remove_at i xs)"
  by (auto simp: remove_at_def set_take_disj_set_drop_if_distinct dest: in_set_takeD in_set_dropD)

lemma remove_at_nth_notin:
  "distinct xs \<Longrightarrow> i < length xs \<Longrightarrow> xs ! i \<notin> set (remove_at i xs)"
  by (simp add: remove_at_def set_take_disj_set_drop_if_distinct
      distinct_conv_nth in_set_conv_nth nth_append)

lemma set_remove_at_distinct:
  assumes "distinct xs" and "i < length xs"
  shows "set (remove_at i xs) = set xs - {xs ! i}"
proof -
  have "set xs = set (take i xs @ xs ! i # drop (Suc i) xs)"
    using assms(2) by (simp flip: id_take_nth_drop)
  then have "set xs = set (remove_at i xs) \<union> {xs ! i}"
    by (auto simp: remove_at_def)
  with remove_at_nth_notin [OF assms] show ?thesis by blast
qed

lemma list_all_remove_at: "list_all P xs \<Longrightarrow> list_all P (remove_at i xs)"
  using set_remove_at_subset by (fastforce simp: list_all_iff)

lemma remove_at_eq_filter:
  "distinct (map f xs) \<Longrightarrow> find_idx (\<lambda>x. f x = k) xs = Some i \<Longrightarrow>
   remove_at i xs = filter (\<lambda>x. f x \<noteq> k) xs"
proof (induction xs arbitrary: i)
  case (Cons x xs)
  show ?case
  proof (cases "f x = k")
    case True
    with Cons.prems have "\<forall>y\<in>set xs. f y \<noteq> k" by (metis distinct.simps(2) image_eqI list.set_map list.simps(9))
    with True Cons.prems show ?thesis
      by (simp add: remove_at_def filter_id_conv)
  next
    case False
    with Cons.prems obtain j where j: "find_idx (\<lambda>x. f x = k) xs = Some j" and i: "i = Suc j"
      by auto
    from Cons.IH [OF _ j] Cons.prems False show ?thesis
      by (simp add: i remove_at_def)
  qed
qed simp

subsection \<open>String primitives\<close>

text \<open>
  A JavaScript string is a sequence of UTF-16 code units; the model's \<open>char\<close> is a
  code unit below 256 (ASCII and Latin-1). Within that range \<open>String.prototype.trim\<close>
  strips TAB, LF, VT, FF, CR, SPACE and NO-BREAK SPACE (0xA0) from both ends, and
  \<open>toLowerCase\<close> maps A-Z and the Latin-1 capitals 0xC0-0xDE except 0xD7 to the
  letter 32 code points above.
\<close>

definition is_js_space :: "char \<Rightarrow> bool" where
  "is_js_space c \<longleftrightarrow> of_char c \<in> {9, 10, 11, 12, 13, 32, 160 :: nat}"

definition js_trim :: "string \<Rightarrow> string" where
  "js_trim s = rev (dropWhile is_js_space (rev (dropWhile is_js_space s)))"

definition js_lower_char :: "char \<Rightarrow> char" where
  "js_lower_char c =
     (let n = of_char c :: nat
      in if (65 \<le> n \<and> n \<le> 90) \<or> (192 \<le> n \<and> n \<le> 222 \<and> n \<noteq> 215)
         then char_of (n + 32) else c)"

definition js_lower :: "string \<Rightarrow> string" where
  "js_lower s = map js_lower_char s"

text \<open>\<open>haystack.includes(needle)\<close>.\<close>

fun js_includes :: "string \<Rightarrow> string \<Rightarrow> bool" where
  "js_includes [] n = (n = [])"
| "js_includes (c # cs) n = (take (length n) (c # cs) = n \<or> js_includes cs n)"

lemma js_includes_iff [js_string_simps]: "js_includes h n \<longleftrightarrow> (\<exists>a b. h = a @ n @ b)"
proof (induction h)
  case Nil
  then show ?case by auto
next
  case (Cons c cs)
  show ?case
  proof
    assume "js_includes (c # cs) n"
    then consider "take (length n) (c # cs) = n" | "js_includes cs n" by auto
    then show "\<exists>a b. c # cs = a @ n @ b"
    proof cases
      case 1
      have "c # cs = [] @ take (length n) (c # cs) @ drop (length n) (c # cs)"
        by simp
      with 1 show ?thesis by metis
    next
      case 2
      with Cons.IH obtain a b where "cs = a @ n @ b" by blast
      then show ?thesis by (metis append_Cons)
    qed
  next
    assume "\<exists>a b. c # cs = a @ n @ b"
    then obtain a b where ab: "c # cs = a @ n @ b" by blast
    show "js_includes (c # cs) n"
    proof (cases a)
      case Nil
      with ab have "take (length n) (c # cs) = n" by simp
      then show ?thesis by simp
    next
      case (Cons a' as)
      with ab have "cs = as @ n @ b" by simp
      with Cons.IH show ?thesis by auto
    qed
  qed
qed

lemma js_includes_Nil [js_string_simps]: "js_includes h []"
  by (cases h) simp_all

lemma dropWhile_idem: "dropWhile P (dropWhile P xs) = dropWhile P xs"
  by (induction xs) auto

lemma hd_dropWhile_not: "dropWhile P xs \<noteq> [] \<Longrightarrow> \<not> P (hd (dropWhile P xs))"
  by (induction xs) auto

lemma dropWhile_hd_not: "xs \<noteq> [] \<Longrightarrow> \<not> P (hd xs) \<Longrightarrow> dropWhile P xs = xs"
  by (cases xs) auto

lemma js_trim_idem [js_string_simps]: "js_trim (js_trim s) = js_trim s"
proof -
  let ?P = is_js_space
  let ?l = "dropWhile ?P s"
  let ?t = "dropWhile ?P (rev ?l)"
  have split: "?l = rev ?t @ rev (takeWhile ?P (rev ?l))"
    by (metis rev_append rev_rev_ident takeWhile_dropWhile_id)
  have front: "dropWhile ?P (rev ?t) = rev ?t"
  proof (cases "rev ?t = []")
    case True
    show ?thesis by (simp only: True dropWhile.simps(1))
  next
    case False
    with split have "?l \<noteq> []" and "hd ?l = hd (rev ?t)"
      by (metis Nil_is_append_conv, metis hd_append2)
    with hd_dropWhile_not [of ?P s] have "\<not> ?P (hd (rev ?t))" by simp
    with False show ?thesis by (rule dropWhile_hd_not)
  qed
  have trim_s: "js_trim s = rev ?t"
    by (simp only: js_trim_def)
  have "js_trim (rev ?t) = rev (dropWhile ?P (rev (dropWhile ?P (rev ?t))))"
    by (simp only: js_trim_def)
  also have "\<dots> = rev (dropWhile ?P ?t)"
    by (simp only: front rev_rev_ident)
  also have "\<dots> = rev ?t"
    by (simp only: dropWhile_idem)
  finally show ?thesis
    by (simp only: trim_s)
qed

end
