(* ===== verification/Store.thy ===== *)
theory Store
  imports Prelude
begin

text \<open>
  The data model and the browser environment the scripts run in. Users, posts and
  comments are the JSON objects that auth.js and posts.js build; \<open>localStorage\<close> is
  a record with one field per key the program uses (\<open>"posts"\<close>, \<open>"currentUser"\<close>,
  \<open>"users"\<close>, \<open>"theme"\<close>), \<open>None\<close> where the key is absent. \<open>save\<close> and
  \<open>load\<close> of utils.js serialise with \<open>JSON.stringify\<close>/\<open>JSON.parse\<close>, which is the
  identity on these plain objects, so a field holds the value itself. The rest of the
  browser state the core touches is the list of \<open>postsUpdated\<close> events dispatched on
  \<open>window\<close> and the messages shown by \<open>alert\<close>.
\<close>

record user =
  user_id :: uid
  name :: string
  email :: string
  password :: string
  user_createdAt :: time
  bio :: string
  profilePic :: string
  followers :: "uid list"
  following :: "uid list"

record comment =
  comment_id :: string
  comment_authorId :: uid
  comment_author :: string
  comment_text :: string
  comment_createdAt :: time

record post =
  post_id :: string
  authorId :: uid
  author :: string
  post_text :: string
  imageUrl :: "string option"
  likes :: nat
  likedBy :: "uid list"
  comments :: "comment list"
  createdAt :: time

record store =
  st_posts :: "post list option"
  st_currentUser :: "user option"
  st_users :: "user list option"
  st_theme :: "string option"

datatype event = PostsUpdated

record sys =
  storage :: store
  events :: "event list"
  alerts :: "string list"

definition empty_store :: store where
  "empty_store = \<lparr>st_posts = None, st_currentUser = None, st_users = None, st_theme = None\<rparr>"

subsection \<open>Store access (utils.js \<open>load\<close>/\<open>save\<close>, posts.js \<open>getPosts\<close>/\<open>setPosts\<close>)\<close>

definition getPosts :: "sys \<Rightarrow> post list" where
  "getPosts s = (case st_posts (storage s) of None \<Rightarrow> [] | Some ps \<Rightarrow> ps)"

definition setPosts :: "post list \<Rightarrow> sys \<Rightarrow> sys" where
  "setPosts ps s = s\<lparr>storage := (storage s)\<lparr>st_posts := Some ps\<rparr>\<rparr>"

definition currentUser :: "sys \<Rightarrow> user option" where
  "currentUser s = st_currentUser (storage s)"

definition getUsers :: "sys \<Rightarrow> user list" where
  "getUsers s = (case st_users (storage s) of None \<Rightarrow> [] | Some us \<Rightarrow> us)"

definition setUsers :: "user list \<Rightarrow> sys \<Rightarrow> sys" where
  "setUsers us s = s\<lparr>storage := (storage s)\<lparr>st_users := Some us\<rparr>\<rparr>"

definition setCurrentUser :: "user option \<Rightarrow> sys \<Rightarrow> sys" where
  "setCurrentUser cu s = s\<lparr>storage := (storage s)\<lparr>st_currentUser := cu\<rparr>\<rparr>"

definition dispatch_postsUpdated :: "sys \<Rightarrow> sys" where
  "dispatch_postsUpdated s = s\<lparr>events := events s @ [PostsUpdated]\<rparr>"

definition alert :: "string \<Rightarrow> sys \<Rightarrow> sys" where
  "alert msg s = s\<lparr>alerts := alerts s @ [msg]\<rparr>"

lemma getPosts_setPosts [simp]: "getPosts (setPosts ps s) = ps"
  by (simp add: getPosts_def setPosts_def)

lemma setPosts_setPosts [simp]: "setPosts qs (setPosts ps s) = setPosts qs s"
  by (simp add: setPosts_def)

lemma effects_frame [simp]:
  "getPosts (alert m s) = getPosts s" "currentUser (alert m s) = currentUser s"
  "getPosts (dispatch_postsUpdated s) = getPosts s"
  "currentUser (dispatch_postsUpdated s) = currentUser s"
  "currentUser (setPosts ps s) = currentUser s"
  "events (setPosts ps s) = events s" "alerts (setPosts ps s) = alerts s"
  "events (alert m s) = events s" "alerts (dispatch_postsUpdated s) = alerts s"
  "storage (alert m s) = storage s" "storage (dispatch_postsUpdated s) = storage s"
  by (simp_all add: getPosts_def currentUser_def alert_def dispatch_postsUpdated_def setPosts_def)

lemma session_frame [simp]:
  "getUsers (setUsers us s) = us" "currentUser (setUsers us s) = currentUser s"
  "getPosts (setUsers us s) = getPosts s" "alerts (setUsers us s) = alerts s"
  "events (setUsers us s) = events s"
  "currentUser (setCurrentUser cu s) = cu" "getUsers (setCurrentUser cu s) = getUsers s"
  "getPosts (setCurrentUser cu s) = getPosts s" "alerts (setCurrentUser cu s) = alerts s"
  "events (setCurrentUser cu s) = events s"
  "getUsers (setPosts ps s) = getUsers s" "getUsers (alert m s) = getUsers s"
  "getUsers (dispatch_postsUpdated s) = getUsers s"
  by (simp_all add: getUsers_def currentUser_def getPosts_def setUsers_def setCurrentUser_def
      setPosts_def alert_def dispatch_postsUpdated_def)

lemma events_dispatch [simp]: "events (dispatch_postsUpdated s) = events s @ [PostsUpdated]"
  by (simp add: dispatch_postsUpdated_def)

lemma alerts_alert [simp]: "alerts (alert m s) = alerts s @ [m]"
  by (simp add: alert_def)

end
