(* ===== verification/Utils.thy ===== *)
theory Utils
  imports Store "HOL-Library.Word"
begin

text \<open>
  The pure helpers of utils.js that the post repository, the feed and auth.js call:
  \<open>isValidUrl\<close>, \<open>extractHashtags\<close>, \<open>isValidEmail\<close> and \<open>hashPassword\<close>,
  and the decimal printing of numbers. The browser's URL parser (\<open>new URL(u)\<close>
  not throwing) is a parameter of type \<open>url_parser\<close>: the program only calls it,
  and every theorem holds for any parser. \<open>hashPassword\<close> is modelled on integers
  with JavaScript's ToInt32 written out, and proved equal to a polynomial hash on
  32-bit words.
\<close>

type_synonym url_parser = "string \<Rightarrow> bool"

definition isValidUrl :: "url_parser \<Rightarrow> string \<Rightarrow> bool" where
  "isValidUrl parses url \<longleftrightarrow> url = [] \<or> parses url"

subsection \<open>Hashtags: \<open>text.match(/#\w+/g)\<close>\<close>

text \<open>
  \<open>\w\<close> without the \<open>u\<close> flag is \<open>[A-Za-z0-9_]\<close>. A global match scans left to
  right: at a \<open>#\<close> followed by a word character it takes the longest run of word
  characters and resumes after it; elsewhere it moves one position on. \<open>slice(1)\<close>
  drops the \<open>#\<close>, so the scanner returns the runs themselves.
\<close>

definition is_word_char :: "char \<Rightarrow> bool" where
  "is_word_char c \<longleftrightarrow>
     (let n = of_char c :: nat
      in (48 \<le> n \<and> n \<le> 57) \<or> (65 \<le> n \<and> n \<le> 90) \<or> (97 \<le> n \<and> n \<le> 122) \<or> n = 95)"

function scan_tags :: "string \<Rightarrow> string list" where
  "scan_tags [] = []"
| "scan_tags (c # cs) =
     (if c = CHR ''#'' \<and> cs \<noteq> [] \<and> is_word_char (hd cs)
      then takeWhile is_word_char cs # scan_tags (dropWhile is_word_char cs)
      else scan_tags cs)"
  by pat_completeness auto
termination
  by (relation "measure length") (auto simp: le_imp_less_Suc length_dropWhile_le)

definition extractHashtags :: "string \<Rightarrow> string list" where
  "extractHashtags text = (if text = [] then [] else scan_tags text)"

subsection \<open>Password hashing: \<open>hashPassword\<close>\<close>

text \<open>
  \<open>hash << 5\<close> converts \<open>hash\<close> to a signed 32-bit integer and shifts it within 32 bits;
  \<open>- hash + char\<close> is exact double arithmetic on small integers; \<open>hash & hash\<close>
  converts the result back to a signed 32-bit integer. \<open>to_int32\<close> is ToInt32.
  \<open>Math.abs(hash).toString(16)\<close> prints the absolute value in lower-case hex without
  leading zeros (\<open>to_hex\<close>); \<open>parse_hex\<close> reads such a string back.
  \<open>js_int_string\<close> is \<open>toString()\<close> on an integral number (decimal, with a minus
  sign when negative), as in \<open>Date.now().toString()\<close> and template literals.
\<close>

definition to_int32 :: "int \<Rightarrow> int" where
  "to_int32 x = sint (word_of_int x :: 32 word)"

definition hash_step :: "int \<Rightarrow> char \<Rightarrow> int" where
  "hash_step h c = to_int32 (to_int32 (to_int32 h * 32) - h + int (of_char c))"

definition hex_digit :: "nat \<Rightarrow> char" where
  "hex_digit d = (if d < 10 then char_of (48 + d) else char_of (87 + d))"

fun to_hex :: "nat \<Rightarrow> string" where
  "to_hex n = (if n < 16 then [hex_digit n] else to_hex (n div 16) @ [hex_digit (n mod 16)])"

declare to_hex.simps [simp del]

fun to_dec :: "nat \<Rightarrow> string" where
  "to_dec n = (if n < 10 then [char_of (48 + n)] else to_dec (n div 10) @ [char_of (48 + n mod 10)])"

declare to_dec.simps [simp del]

fun to_base36 :: "nat \<Rightarrow> string" where
  "to_base36 n = (if n < 36 then [hex_digit n] else to_base36 (n div 36) @ [hex_digit (n mod 36)])"

declare to_base36.simps [simp del]

text \<open>\<open>generateId()\<close>: \<open>Date.now().toString(36)\<close> followed by the digits of
  \<open>Math.random().toString(36)\<close> after its leading "0." (the argument \<open>frac\<close>).\<close>

definition generateId :: "time \<Rightarrow> string \<Rightarrow> string" where
  "generateId now frac = to_base36 (nat now) @ frac"

definition js_int_string :: "int \<Rightarrow> string" where
  "js_int_string i = (if i < 0 then CHR ''-'' # to_dec (nat (- i)) else to_dec (nat i))"

definition hashPassword :: "string \<Rightarrow> string" where
  "hashPassword pw = to_hex (nat \<bar>foldl hash_step 0 pw\<bar>)"

definition word_hash :: "string \<Rightarrow> 32 word" where
  "word_hash p = foldl (\<lambda>w c. w * 31 + of_nat (of_char c)) 0 p"

definition hex_val :: "char \<Rightarrow> nat" where
  "hex_val c = (let n = of_char c in if n \<le> 57 then n - 48 else n - 87)"

definition parse_hex :: "string \<Rightarrow> nat" where
  "parse_hex s = foldl (\<lambda>acc c. acc * 16 + hex_val c) 0 s"

subsection \<open>E-mail validation: \<open>isValidEmail\<close>\<close>

text \<open>
  The pattern \<open>/^[^\s@]+@[^\s@]+\.[^\s@]+$/\<close> read as the set of strings it matches:
  the string splits as \<open>a @ b . e\<close> with three non-empty segments of characters that
  are neither \<open>@\<close> nor white space (\<open>\s\<close>, the code units of \<open>is_js_space\<close>).
  \<open>cuts\<close> lists every way to cut a string at one character. \<open>email_scan\<close> is a
  one-pass reading of the same language.
\<close>

fun cuts :: "string \<Rightarrow> (string \<times> char \<times> string) list" where
  "cuts [] = []"
| "cuts (c # s) = ([], c, s) # [(c # a, d, r). (a, d, r) \<leftarrow> cuts s]"

definition email_seg :: "string \<Rightarrow> bool" where
  "email_seg w \<longleftrightarrow> w \<noteq> [] \<and> list_all (\<lambda>c. \<not> is_js_space c \<and> c \<noteq> CHR ''@'') w"

definition isValidEmail :: "string \<Rightarrow> bool" where
  "isValidEmail addr \<longleftrightarrow>
     list_ex (\<lambda>(a, c, r). c = CHR ''@'' \<and> email_seg a \<and>
                list_ex (\<lambda>(b, d, e). d = CHR ''.'' \<and> email_seg b \<and> email_seg e) (cuts r))
       (cuts addr)"

definition email_scan :: "string \<Rightarrow> bool" where
  "email_scan s \<longleftrightarrow>
     (let a = takeWhile (\<lambda>c. c \<noteq> CHR ''@'') s; r = drop (Suc (length a)) s
      in length a < length s \<and> email_seg a \<and> email_seg r \<and> CHR ''.'' \<in> set (butlast (tl r)))"

subsection \<open>Hashtag properties\<close>


lemma scan_tags_append_sep:
  assumes c: "\<not> is_word_char c" "c \<noteq> CHR ''#''"
  shows "scan_tags (a @ c # b) = scan_tags a @ scan_tags b"
proof (induction a rule: length_induct)
  case (1 a)
  show ?case
  proof (cases a)
    case Nil
    with c show ?thesis by simp
  next
    case (Cons x xs)
    show ?thesis
    proof (cases "x = CHR ''#'' \<and> xs \<noteq> [] \<and> is_word_char (hd xs)")
      case True
      show ?thesis
      proof (cases "\<forall>y\<in>set xs. is_word_char y")
        case all: True
        with True c Cons show ?thesis
          by (simp add: takeWhile_append2 dropWhile_append2 takeWhile_eq_all_conv [THEN iffD2]
              dropWhile_eq_Nil_conv [THEN iffD2])
      next
        case False
        then obtain y where y: "y \<in> set xs" "\<not> is_word_char y" by blast
        have tw: "takeWhile is_word_char (xs @ c # b) = takeWhile is_word_char xs"
          using y by simp
        have dw: "dropWhile is_word_char (xs @ c # b) = dropWhile is_word_char xs @ c # b"
          using y by simp
        have g: "x = CHR ''#'' \<and> xs @ c # b \<noteq> [] \<and> is_word_char (hd (xs @ c # b))"
          using True by simp
        have "length (dropWhile is_word_char xs) < length a"
          using Cons by (simp add: le_imp_less_Suc length_dropWhile_le)
        with "1.IH" have IH: "scan_tags (dropWhile is_word_char xs @ c # b) =
            scan_tags (dropWhile is_word_char xs) @ scan_tags b" by blast
        have "scan_tags (a @ c # b) =
            takeWhile is_word_char xs # scan_tags (dropWhile is_word_char xs @ c # b)"
          using Cons g tw dw True
          by (simp del: scan_tags.simps add: scan_tags.simps(2) [of "CHR ''#''" "xs @ c # b"])
        also have "\<dots> = scan_tags a @ scan_tags b"
          using Cons True IH by simp
        finally show ?thesis .
      qed
    next
      case False
      have "scan_tags (xs @ c # b) = scan_tags xs @ scan_tags b"
        using "1.IH" Cons by simp
      with False Cons c show ?thesis
        by (cases xs) auto
    qed
  qed
qed

lemma tag_at_Cons:
  "(\<exists>a b. c # cs = a @ CHR ''#'' # t @ b \<and> P t b) \<longleftrightarrow>
   (c = CHR ''#'' \<and> (\<exists>b. cs = t @ b \<and> P t b)) \<or> (\<exists>a b. cs = a @ CHR ''#'' # t @ b \<and> P t b)"
  by (auto simp: Cons_eq_append_conv)

lemma tag_at_no_hash:
  "CHR ''#'' \<notin> set w \<Longrightarrow>
   (\<exists>a b. w @ r = a @ CHR ''#'' # t @ b \<and> P t b) \<longleftrightarrow> (\<exists>a b. r = a @ CHR ''#'' # t @ b \<and> P t b)"
  by (induction w) (auto simp: tag_at_Cons)

lemma maximal_run_iff:
  "(\<exists>b. cs = t @ b \<and> t \<noteq> [] \<and> list_all is_word_char t \<and> takeWhile is_word_char b = []) \<longleftrightarrow>
   (t = takeWhile is_word_char cs \<and> t \<noteq> [])"
proof
  assume "\<exists>b. cs = t @ b \<and> t \<noteq> [] \<and> list_all is_word_char t \<and> takeWhile is_word_char b = []"
  then show "t = takeWhile is_word_char cs \<and> t \<noteq> []"
    by (auto simp: takeWhile_append2 list_all_iff)
next
  assume t: "t = takeWhile is_word_char cs \<and> t \<noteq> []"
  have "takeWhile is_word_char (dropWhile is_word_char cs) = []"
    by (induction cs) auto
  moreover have "cs = t @ dropWhile is_word_char cs" using t by simp
  ultimately show "\<exists>b. cs = t @ b \<and> t \<noteq> [] \<and> list_all is_word_char t \<and> takeWhile is_word_char b = []"
    using t by (intro exI [of _ "dropWhile is_word_char cs"]) (auto simp: list_all_iff dest: set_takeWhileD)
qed

lemma hash_not_word: "\<not> is_word_char CHR ''#''"
  by (simp add: is_word_char_def)

lemma scan_tags_iff:
  "t \<in> set (scan_tags s) \<longleftrightarrow>
   (\<exists>a b. s = a @ CHR ''#'' # t @ b \<and> t \<noteq> [] \<and> list_all is_word_char t \<and> takeWhile is_word_char b = [])"
  (is "_ \<longleftrightarrow> ?Q s")
proof (induction s rule: scan_tags.induct)
  case 1
  then show ?case by simp
next
  case (2 c cs)
  let ?R = "\<exists>b. cs = t @ b \<and> t \<noteq> [] \<and> list_all is_word_char t \<and> takeWhile is_word_char b = []"
  have cons: "?Q (c # cs) \<longleftrightarrow> (c = CHR ''#'' \<and> ?R) \<or> ?Q cs"
    by (rule tag_at_Cons)
  show ?case
  proof (cases "c = CHR ''#'' \<and> cs \<noteq> [] \<and> is_word_char (hd cs)")
    case True
    have nh: "CHR ''#'' \<notin> set (takeWhile is_word_char cs)"
      using hash_not_word by (auto dest: set_takeWhileD)
    have "?Q cs \<longleftrightarrow> ?Q (dropWhile is_word_char cs)"
      using tag_at_no_hash [OF nh, of "dropWhile is_word_char cs" t] by simp
    moreover have "takeWhile is_word_char cs \<noteq> []"
      using True by (cases cs) auto
    ultimately show ?thesis
      using True cons 2 maximal_run_iff [of cs t] by auto
  next
    case False
    have "\<not> (c = CHR ''#'' \<and> ?R)"
      using False by (cases t) auto
    with False cons 2 show ?thesis by auto
  qed
qed

text \<open>C18: The tags extractHashtags returns are exactly the maximal runs of word characters
  [A-Za-z0-9_] that directly follow a hash sign: t is returned iff the text is
  a ++ "#" ++ t ++ b with t a non-empty word-character run and b not starting with a word
  character.\<close>

theorem extractHashtags_tags:
  "t \<in> set (extractHashtags s) \<longleftrightarrow>
   (\<exists>a b. s = a @ CHR ''#'' # t @ b \<and> t \<noteq> [] \<and> list_all is_word_char t \<and> takeWhile is_word_char b = [])"
  by (cases "s = []") (simp_all add: extractHashtags_def scan_tags_iff)

text \<open>Extraction is compositional across a separator that is neither a word character nor
  a hash sign.\<close>

lemma extractHashtags_append:
  "\<not> is_word_char c \<Longrightarrow> c \<noteq> CHR ''#'' \<Longrightarrow>
   extractHashtags (a @ c # b) = extractHashtags a @ extractHashtags b"
  by (simp add: extractHashtags_def scan_tags_append_sep)

subsection \<open>Password hash properties\<close>

lemma word_of_int32 [simp]: "(word_of_int (to_int32 x) :: 32 word) = word_of_int x"
  by (simp add: to_int32_def)

lemma hash_step_word:
  "(word_of_int (hash_step h c) :: 32 word) = word_of_int h * 31 + of_nat (of_char c)"
proof -
  have "(word_of_int (hash_step h c) :: 32 word) =
      word_of_int (to_int32 (to_int32 h * 32) - h + int (of_char c))"
    by (simp only: hash_step_def word_of_int32)
  also have "\<dots> = word_of_int (to_int32 h * 32) - word_of_int h + word_of_int (int (of_char c))"
    by simp
  also have "word_of_int (to_int32 h * 32) = (word_of_int h :: 32 word) * 32"
    by (metis of_int_mult of_int_numeral word_of_int32)
  finally show ?thesis by simp
qed

lemma foldl_hash_word:
  "(word_of_int (foldl hash_step h p) :: 32 word) =
   foldl (\<lambda>w c. w * 31 + of_nat (of_char c)) (word_of_int h) p"
  by (induction p arbitrary: h) (simp_all add: hash_step_word)

lemma foldl_hash_int32:
  "p \<noteq> [] \<Longrightarrow> foldl hash_step h p = sint (word_of_int (foldl hash_step h p) :: 32 word)"
  by (induction p arbitrary: h rule: rev_induct) (simp_all add: hash_step_def to_int32_def)

lemma foldl_hash_sint: "foldl hash_step 0 p = sint (word_hash p)"
proof (cases "p = []")
  case True then show ?thesis by (simp add: word_hash_def)
next
  case False
  then show ?thesis
    using foldl_hash_int32 [OF False, of 0] foldl_hash_word [of 0 p] by (simp add: word_hash_def)
qed

lemma hex_val_digit: "d < 16 \<Longrightarrow> hex_val (hex_digit d) = d"
  by (simp add: hex_val_def hex_digit_def of_char_of)

lemma parse_hex_snoc: "parse_hex (s @ [c]) = parse_hex s * 16 + hex_val c"
  by (simp add: parse_hex_def)

lemma length_to_hex: "n < 16 ^ k \<Longrightarrow> 0 < k \<Longrightarrow> length (to_hex n) \<le> k"
proof (induction n arbitrary: k rule: to_hex.induct)
  case (1 n)
  show ?case
  proof (cases "n < 16")
    case True
    with "1.prems" show ?thesis by (simp add: to_hex.simps [of n])
  next
    case False
    then obtain k' where k: "k = Suc k'" using "1.prems" by (cases k) auto
    have "0 < k'"
      using False "1.prems" k by (cases k') auto
    moreover have "n div 16 < 16 ^ k'"
      using "1.prems" k by (simp add: less_mult_imp_div_less mult.commute)
    ultimately have "length (to_hex (n div 16)) \<le> k'"
      using "1.IH" False by blast
    with False k show ?thesis by (simp add: to_hex.simps [of n])
  qed
qed

lemma abs_hash_bound: "nat \<bar>foldl hash_step 0 p\<bar> \<le> 2 ^ 31"
proof -
  have "- (2 ^ 31) \<le> sint (word_hash p)" "sint (word_hash p) < 2 ^ 31"
    using sint_ge [of "word_hash p"] sint_lt [of "word_hash p"] by simp_all
  then have "\<bar>foldl hash_step 0 p\<bar> \<le> 2 ^ 31"
    by (simp add: foldl_hash_sint)
  then show ?thesis by (simp add: nat_le_iff)
qed

lemmas hash_eval = hashPassword_def hash_step_def to_int32_def to_hex.simps hex_digit_def
  char_of_def bit_0

text \<open>C23: The JavaScript loop of hashPassword, with ToInt32 after every shift and every
  \<open>hash & hash\<close>, computes the signed reading of the polynomial hash
  \<open>sum c_i * 31^(n-1-i)\<close> on 32-bit words; the printed hash is the hex of its absolute value.\<close>

theorem hashPassword_word: "hashPassword p = to_hex (nat \<bar>sint (word_hash p)\<bar>)"
  by (simp add: hashPassword_def foldl_hash_sint)

text \<open>Reading the printed hex digits back gives the number.\<close>

lemma parse_to_hex: "parse_hex (to_hex n) = n"
proof (induction n rule: to_hex.induct)
  case (1 n)
  show ?case
  proof (cases "n < 16")
    case True
    then show ?thesis by (simp add: to_hex.simps [of n] parse_hex_def hex_val_digit)
  next
    case False
    then show ?thesis
      using "1.IH" by (simp add: to_hex.simps [of n] parse_hex_snoc hex_val_digit)
  qed
qed

lemma to_hex_inj: "to_hex m = to_hex n \<longleftrightarrow> m = n"
  by (metis parse_to_hex)

lemma hash_step_sint: "hash_step h c = sint (word_of_int (hash_step h c) :: 32 word)"
  by (simp add: hash_step_def to_int32_def)

lemma hash_step_Aa_BB:
  "hash_step (hash_step h CHR ''A'') CHR ''a'' = hash_step (hash_step h CHR ''B'') CHR ''B''"
proof -
  have "(word_of_int (hash_step (hash_step h CHR ''A'') CHR ''a'') :: 32 word) =
        word_of_int (hash_step (hash_step h CHR ''B'') CHR ''B'')"
    by (simp add: hash_step_word algebra_simps)
  then show ?thesis by (metis hash_step_sint)
qed

text \<open>C24: Two passwords get the same stored hash string, which is all login compares,
  exactly when the absolute values of their signed 32-bit hashes agree: \<open>toString(16)\<close>
  loses nothing, and \<open>Math.abs\<close> merges a hash with its negation.\<close>

theorem hashPassword_eq_iff:
  "hashPassword p = hashPassword q \<longleftrightarrow> \<bar>sint (word_hash p)\<bar> = \<bar>sint (word_hash q)\<bar>"
  by (auto simp: hashPassword_def foldl_hash_sint to_hex_inj nat_eq_iff2)

text \<open>C25: Every stored password hash is a non-empty string of at most 8 hex digits:
  the absolute value of a signed 32-bit integer is at most \<open>2^31\<close>.\<close>

theorem hashPassword_length: "0 < length (hashPassword p) \<and> length (hashPassword p) \<le> 8"
proof
  show "0 < length (hashPassword p)"
    by (simp add: hashPassword_def to_hex.simps [of "nat \<bar>foldl hash_step 0 p\<bar>"])
  have "nat \<bar>foldl hash_step 0 p\<bar> < 16 ^ 8"
    using abs_hash_bound [of p] by simp
  then show "length (hashPassword p) \<le> 8"
    unfolding hashPassword_def by (rule length_to_hex) simp
qed

text \<open>C26: hashPassword collides systematically: replacing the two characters "Aa" by
  "BB" anywhere in a password leaves its hash unchanged (65 * 31 + 97 = 66 * 31 + 66), so,
  e.g., AaAaAa and BBBBBB log in to each other's accounts.\<close>

theorem hashPassword_collision: "hashPassword (p @ ''Aa'' @ q) = hashPassword (p @ ''BB'' @ q)"
  by (simp add: hashPassword_def hash_step_Aa_BB)

subsection \<open>E-mail validation properties\<close>

lemma set_cuts [simp]: "(a, c, r) \<in> set (cuts s) \<longleftrightarrow> s = a @ c # r"
  by (induction s arbitrary: a) (force simp: Cons_eq_append_conv)+

lemma list_ex_cuts: "list_ex (\<lambda>(a, c, r). P a c r) (cuts s) \<longleftrightarrow> (\<exists>a c r. s = a @ c # r \<and> P a c r)"
  by (force simp: list_ex_iff)

lemma in_butlast_tl: "x \<in> set (butlast (tl r)) \<longleftrightarrow> (\<exists>b e. r = b @ x # e \<and> b \<noteq> [] \<and> e \<noteq> [])"
proof
  assume "x \<in> set (butlast (tl r))"
  then obtain u v where uv: "butlast (tl r) = u @ x # v" by (meson split_list)
  then have r: "r \<noteq> []" "tl r \<noteq> []" by auto
  then have "r = hd r # butlast (tl r) @ [last (tl r)]" by simp
  with uv have "r = (hd r # u) @ x # (v @ [last (tl r)])" by simp
  then show "\<exists>b e. r = b @ x # e \<and> b \<noteq> [] \<and> e \<noteq> []" by blast
next
  assume "\<exists>b e. r = b @ x # e \<and> b \<noteq> [] \<and> e \<noteq> []"
  then obtain b e where "r = b @ x # e" "b \<noteq> []" "e \<noteq> []" by blast
  then show "x \<in> set (butlast (tl r))"
    by (cases b) (auto simp: butlast_append)
qed

lemma email_seg_append:
  "email_seg (b @ d # e) \<longleftrightarrow> \<not> is_js_space d \<and> d \<noteq> CHR ''@'' \<and> list_all (\<lambda>c. \<not> is_js_space c \<and> c \<noteq> CHR ''@'') b \<and>
      list_all (\<lambda>c. \<not> is_js_space c \<and> c \<noteq> CHR ''@'') e"
  by (auto simp: email_seg_def)

lemma at_split_unique:
  assumes "s = a @ CHR ''@'' # r" "CHR ''@'' \<notin> set a"
  shows "takeWhile (\<lambda>c. c \<noteq> CHR ''@'') s = a" "drop (Suc (length a)) s = r"
proof -
  have "\<forall>x\<in>set a. x \<noteq> CHR ''@''" using assms(2) by blast
  then show "takeWhile (\<lambda>c. c \<noteq> CHR ''@'') s = a"
    using assms(1) by (simp add: takeWhile_tail takeWhile_eq_all_conv [THEN iffD2])
  then show "drop (Suc (length a)) s = r" using assms(1) by simp
qed

text \<open>C27: The regular expression \<open>/^[^\s@]+@[^\s@]+\.[^\s@]+$/\<close> accepts exactly the
  strings with a non-empty local part free of \<open>@\<close> and whitespace, then the first
  \<open>@\<close>, then a non-empty rest free of \<open>@\<close> and whitespace that has a dot neither
  first nor last: the backtracking match equals a one-pass check.\<close>

theorem isValidEmail_scan: "isValidEmail s \<longleftrightarrow> email_scan s"
proof
  assume "isValidEmail s"
  then obtain a r b e where s: "s = a @ CHR ''@'' # r" and r: "r = b @ CHR ''.'' # e"
    and seg: "email_seg a" "email_seg b" "email_seg e"
    by (auto simp: isValidEmail_def list_ex_cuts)
  have "CHR ''@'' \<notin> set a" using seg(1) by (auto simp: email_seg_def list_all_iff)
  then have tw: "takeWhile (\<lambda>c. c \<noteq> CHR ''@'') s = a" "drop (Suc (length a)) s = r"
    using at_split_unique [OF s] by simp_all
  have "email_seg r" using seg r by (auto simp: email_seg_def list_all_iff is_js_space_def)
  moreover have "CHR ''.'' \<in> set (butlast (tl r))"
    unfolding in_butlast_tl using seg r by (auto simp: email_seg_def)
  ultimately show "email_scan s"
    using seg tw s by (simp add: email_scan_def Let_def)
next
  assume sc: "email_scan s"
  define a where "a = takeWhile (\<lambda>c. c \<noteq> CHR ''@'') s"
  define r where "r = drop (Suc (length a)) s"
  have len: "length a < length s" and seg: "email_seg a" "email_seg r"
    and dot: "CHR ''.'' \<in> set (butlast (tl r))"
    using sc by (simp_all add: email_scan_def Let_def a_def r_def)
  have sa: "s = a @ dropWhile (\<lambda>c. c \<noteq> CHR ''@'') s" by (simp add: a_def)
  obtain x xs where dw: "dropWhile (\<lambda>c. c \<noteq> CHR ''@'') s = x # xs"
    using len by (metis a_def takeWhile_dropWhile_id append_Nil2 less_irrefl neq_Nil_conv)
  then have "x = CHR ''@''" using hd_dropWhile [of "\<lambda>c. c \<noteq> CHR ''@''" s] by simp
  with sa dw have "s = a @ CHR ''@'' # r" by (simp add: r_def)
  moreover obtain b e where "r = b @ CHR ''.'' # e" "b \<noteq> []" "e \<noteq> []"
    using dot by (auto simp: in_butlast_tl)
  ultimately show "isValidEmail s"
    using seg by (auto simp: isValidEmail_def list_ex_cuts email_seg_def)
qed

lemma hashPassword_secret: "hashPassword ''secret'' = ''3604b150''"
  by (simp add: hash_eval)

lemma isValidEmail_examples:
  "isValidEmail ''ann@example.com''" "isValidEmail ''ann@b..com''"
  "\<not> isValidEmail ''ann@.com''" "\<not> isValidEmail ''ann@@b.com''" "\<not> isValidEmail ''a nn@b.com''"
  by (simp_all add: isValidEmail_def email_seg_def is_js_space_def)

end
