(* ===== verification/Posts.thy ===== *)
theory Posts
  imports Utils
begin

text \<open>
  The post repository of src/src/javascript/posts.js: \<open>createPost\<close>,
  \<open>deletePost\<close>, \<open>editPost\<close>, \<open>toggleLike\<close>, \<open>addComment\<close>,
  \<open>deleteComment\<close> (each a read-modify-write of the whole \<open>"posts"\<close> array followed by
  a \<open>postsUpdated\<close> dispatch), and the pure reads \<open>searchPosts\<close> and
  \<open>sortPosts\<close>. Every early \<open>return\<close> of the source is an \<open>Inl\<close> result; the ones
  that call \<open>alert\<close> also append its message. Ids and timestamps
  (\<open>generateId()\<close>, \<open>Date.now()\<close>) are inputs of the operation.
\<close>

datatype err =
    Unauthenticated     \<comment> \<open>no \<open>currentUser\<close> in storage\<close>
  | EmptyContent        \<comment> \<open>post text empty after \<open>trim\<close>\<close>
  | InvalidImageUrl     \<comment> \<open>non-empty image URL that \<open>isValidUrl\<close> rejects\<close>
  | PostNotFound
  | NotAuthor           \<comment> \<open>the session user is not the author\<close>
  | EmptyComment        \<comment> \<open>comment text empty after \<open>trim\<close> (silent)\<close>
  | CommentNotFound     \<comment> \<open>(silent)\<close>

type_synonym 'a outcome = "(err + 'a) \<times> sys"

definition fail_alert :: "err \<Rightarrow> string \<Rightarrow> sys \<Rightarrow> 'a outcome" where
  "fail_alert e msg s = (Inl e, alert msg s)"

definition fail_silent :: "err \<Rightarrow> sys \<Rightarrow> 'a outcome" where
  "fail_silent e s = (Inl e, s)"

text \<open>\<open>setPosts(posts); window.dispatchEvent(new Event("postsUpdated")); return r\<close>\<close>

definition commit :: "post list \<Rightarrow> 'a \<Rightarrow> sys \<Rightarrow> 'a outcome" where
  "commit ps r s = (Inr r, dispatch_postsUpdated (setPosts ps s))"

text \<open>\<open>text.trim()\<close> guard and \<open>imageUrl && imageUrl.trim() ? imageUrl.trim() : null\<close>.\<close>

definition blank :: "string \<Rightarrow> bool" where
  "blank t \<longleftrightarrow> t = [] \<or> js_trim t = []"

definition stored_image :: "string \<Rightarrow> string option" where
  "stored_image u = (if u \<noteq> [] \<and> js_trim u \<noteq> [] then Some (js_trim u) else None)"

subsection \<open>Operations\<close>

definition createPost ::
  "url_parser \<Rightarrow> string \<Rightarrow> time \<Rightarrow> string \<Rightarrow> string \<Rightarrow> sys \<Rightarrow> post outcome" where
  "createPost parses fresh now text url s =
     (case currentUser s of
        None \<Rightarrow> fail_alert Unauthenticated ''Please login to create a post'' s
      | Some cu \<Rightarrow>
          if blank text then fail_alert EmptyContent ''Post content cannot be empty'' s
          else if url \<noteq> [] \<and> \<not> isValidUrl parses url
          then fail_alert InvalidImageUrl ''Invalid image URL'' s
          else
            (let posts = getPosts s;
                 newPost = \<lparr>post_id = fresh, authorId = user_id cu, author = name cu,
                   post_text = js_trim text, imageUrl = stored_image url, likes = 0,
                   likedBy = [], comments = [], createdAt = now\<rparr>
             in commit (newPost # posts) newPost s))"

definition deletePost :: "string \<Rightarrow> sys \<Rightarrow> unit outcome" where
  "deletePost postId s =
     (case currentUser s of
        None \<Rightarrow> fail_alert Unauthenticated ''Please login'' s
      | Some cu \<Rightarrow>
          (let posts = getPosts s in
           case find_idx (\<lambda>p. post_id p = postId) posts of
             None \<Rightarrow> fail_alert PostNotFound ''Post not found'' s
           | Some i \<Rightarrow>
               if authorId (posts ! i) \<noteq> user_id cu
               then fail_alert NotAuthor ''You can only delete your own posts'' s
               else commit (remove_at i posts) () s))"

definition editPost ::
  "url_parser \<Rightarrow> string \<Rightarrow> string \<Rightarrow> string \<Rightarrow> sys \<Rightarrow> post outcome" where
  "editPost parses postId newText newUrl s =
     (case currentUser s of
        None \<Rightarrow> fail_alert Unauthenticated ''Please login to edit a post'' s
      | Some cu \<Rightarrow>
          if blank newText then fail_alert EmptyContent ''Post content cannot be empty'' s
          else if newUrl \<noteq> [] \<and> \<not> isValidUrl parses newUrl
          then fail_alert InvalidImageUrl ''Invalid image URL'' s
          else
            (let posts = getPosts s in
             case find_idx (\<lambda>p. post_id p = postId) posts of
               None \<Rightarrow> fail_alert PostNotFound ''Post not found'' s
             | Some i \<Rightarrow>
                 if authorId (posts ! i) \<noteq> user_id cu
                 then fail_alert NotAuthor ''You can only edit your own posts'' s
                 else
                   (let p = (posts ! i)\<lparr>post_text := js_trim newText,
                                        imageUrl := stored_image newUrl\<rparr>
                    in commit (posts[i := p]) p s)))"

text \<open>
  \<open>likeIndex = post.likedBy.indexOf(id)\<close>; \<open>push\<close> when absent, \<open>splice\<close> at the
  first occurrence otherwise; then \<open>likes = likedBy.length\<close>.
\<close>

definition toggle_uid :: "uid \<Rightarrow> uid list \<Rightarrow> uid list" where
  "toggle_uid u xs =
     (case find_idx (\<lambda>x. x = u) xs of None \<Rightarrow> xs @ [u] | Some j \<Rightarrow> remove_at j xs)"

definition like_toggled :: "uid \<Rightarrow> post \<Rightarrow> post" where
  "like_toggled u p =
     (let lb = toggle_uid u (likedBy p) in p\<lparr>likedBy := lb, likes := length lb\<rparr>)"

definition toggleLike :: "string \<Rightarrow> sys \<Rightarrow> unit outcome" where
  "toggleLike postId s =
     (case currentUser s of
        None \<Rightarrow> fail_alert Unauthenticated ''Please login to like posts'' s
      | Some cu \<Rightarrow>
          (let posts = getPosts s in
           case find_idx (\<lambda>p. post_id p = postId) posts of
             None \<Rightarrow> fail_alert PostNotFound ''Post not found'' s
           | Some i \<Rightarrow> commit (posts[i := like_toggled (user_id cu) (posts ! i)]) () s))"

definition addComment ::
  "string \<Rightarrow> time \<Rightarrow> string \<Rightarrow> string \<Rightarrow> sys \<Rightarrow> comment outcome" where
  "addComment fresh now postId text s =
     (case currentUser s of
        None \<Rightarrow> fail_alert Unauthenticated ''Please login to comment'' s
      | Some cu \<Rightarrow>
          if blank text then fail_silent EmptyComment s
          else
            (let posts = getPosts s in
             case find_idx (\<lambda>p. post_id p = postId) posts of
               None \<Rightarrow> fail_silent PostNotFound s
             | Some i \<Rightarrow>
                 (let c = \<lparr>comment_id = fresh, comment_authorId = user_id cu,
                           comment_author = name cu, comment_text = js_trim text,
                           comment_createdAt = now\<rparr>;
                      p = posts ! i
                  in commit (posts[i := p\<lparr>comments := comments p @ [c]\<rparr>]) c s)))"

definition deleteComment :: "string \<Rightarrow> string \<Rightarrow> sys \<Rightarrow> unit outcome" where
  "deleteComment postId commentId s =
     (case currentUser s of
        None \<Rightarrow> fail_alert Unauthenticated ''Please login'' s
      | Some cu \<Rightarrow>
          (let posts = getPosts s in
           case find_idx (\<lambda>p. post_id p = postId) posts of
             None \<Rightarrow> fail_silent PostNotFound s
           | Some i \<Rightarrow>
               (let p = posts ! i in
                case find_idx (\<lambda>c. comment_id c = commentId) (comments p) of
                  None \<Rightarrow> fail_silent CommentNotFound s
                | Some k \<Rightarrow>
                    if comment_authorId (comments p ! k) \<noteq> user_id cu
                    then fail_alert NotAuthor ''You can only delete your own comments'' s
                    else commit (posts[i := p\<lparr>comments := remove_at k (comments p)\<rparr>]) () s)))"

subsection \<open>Reads: \<open>searchPosts\<close> and \<open>sortPosts\<close>\<close>

definition searchPosts :: "string \<Rightarrow> sys \<Rightarrow> post list" where
  "searchPosts query s =
     (let posts = getPosts s in
      if js_trim query = [] then posts
      else
        (let q = js_lower query
         in filter (\<lambda>p. js_includes (js_lower (post_text p)) q \<or>
                        js_includes (js_lower (author p)) q) posts))"

text \<open>
  \<open>Array.prototype.sort(cmp)\<close>: since ES2019 the sort is stable, so for a consistent
  comparator its result is the one of any stable sort; the model is a top-down merge
  sort that keeps the left element unless \<open>cmp left right > 0\<close>.
\<close>

fun js_merge :: "('a \<Rightarrow> 'a \<Rightarrow> int) \<Rightarrow> 'a list \<Rightarrow> 'a list \<Rightarrow> 'a list" where
  "js_merge cmp [] ys = ys"
| "js_merge cmp xs [] = xs"
| "js_merge cmp (x # xs) (y # ys) =
     (if cmp x y \<le> 0 then x # js_merge cmp xs (y # ys) else y # js_merge cmp (x # xs) ys)"

fun js_sort :: "('a \<Rightarrow> 'a \<Rightarrow> int) \<Rightarrow> 'a list \<Rightarrow> 'a list" where
  "js_sort cmp xs =
     (let n = length xs in
      if n \<le> 1 then xs
      else js_merge cmp (js_sort cmp (take (n div 2) xs)) (js_sort cmp (drop (n div 2) xs)))"

declare js_sort.simps [simp del]

definition mostLiked_cmp :: "post \<Rightarrow> post \<Rightarrow> int" where
  "mostLiked_cmp a b = int (likes b) - int (likes a)"

definition sortPosts :: "post list \<Rightarrow> string \<Rightarrow> post list" where
  "sortPosts posts sortBy =
     (if sortBy = ''oldest'' then rev posts
      else if sortBy = ''mostLiked'' then js_sort mostLiked_cmp posts
      else posts)"

subsection \<open>Like toggling\<close>


lemma find_idx_eq_remove1:
  "find_idx (\<lambda>x. x = u) xs = Some j \<Longrightarrow> remove_at j xs = remove1 u xs"
proof (induction xs arbitrary: j)
  case Nil
  then show ?case by simp
next
  case (Cons x xs)
  show ?case
  proof (cases "x = u")
    case True
    with Cons.prems show ?thesis by (simp add: remove_at_def)
  next
    case False
    with Cons.prems obtain k where k: "find_idx (\<lambda>x. x = u) xs = Some k" and j: "j = Suc k"
      by auto
    from Cons.IH [OF k] False show ?thesis
      by (simp add: j remove_at_def)
  qed
qed

lemma toggle_uid_eq:
  "toggle_uid u xs = (if u \<in> set xs then remove1 u xs else xs @ [u])"
proof (cases "find_idx (\<lambda>x. x = u) xs")
  case None
  then have "u \<notin> set xs" by (auto simp: find_idx_None_iff)
  with None show ?thesis by (simp add: toggle_uid_def)
next
  case (Some j)
  then have "u \<in> set xs"
    by (auto elim: find_idx_SomeE)
  with Some show ?thesis
    by (simp add: toggle_uid_def find_idx_eq_remove1)
qed

lemma distinct_toggle_uid: "distinct xs \<Longrightarrow> distinct (toggle_uid u xs)"
  by (simp add: toggle_uid_eq)

lemma set_toggle_uid:
  "distinct xs \<Longrightarrow> set (toggle_uid u xs) = (if u \<in> set xs then set xs - {u} else insert u (set xs))"
  by (auto simp: toggle_uid_eq)

lemma toggle_uid_twice_unliked:
  "u \<notin> set xs \<Longrightarrow> toggle_uid u (toggle_uid u xs) = xs"
  by (simp add: toggle_uid_eq remove1_append)

lemma toggle_uid_twice_liked:
  "distinct xs \<Longrightarrow> u \<in> set xs \<Longrightarrow> toggle_uid u (toggle_uid u xs) = remove1 u xs @ [u]"
  by (simp add: toggle_uid_eq)

lemma length_toggle_uid:
  "distinct xs \<Longrightarrow> length (toggle_uid u xs) = (if u \<in> set xs then length xs - 1 else Suc (length xs))"
  by (simp add: toggle_uid_eq length_remove1)

subsection \<open>The merge sort is the library's stable sort\<close>

lemma mset_js_merge: "mset (js_merge c xs ys) = mset xs + mset ys"
  by (induction c xs ys rule: js_merge.induct) auto

lemma set_js_merge: "set (js_merge c xs ys) = set xs \<union> set ys"
  by (metis mset_js_merge set_mset_mset set_mset_union)

lemma mset_js_sort: "mset (js_sort c xs) = mset xs"
proof (induction c xs rule: js_sort.induct)
  case (1 c xs)
  let ?n = "length xs"
  show ?case
  proof (cases "?n \<le> 1")
    case True
    then show ?thesis by (simp add: js_sort.simps [of c xs])
  next
    case False
    then have "mset (js_sort c xs) =
        mset (js_sort c (take (?n div 2) xs)) + mset (js_sort c (drop (?n div 2) xs))"
      by (simp add: js_sort.simps [of c xs] mset_js_merge Let_def)
    also have "\<dots> = mset (take (?n div 2) xs) + mset (drop (?n div 2) xs)"
      using False by (simp add: "1.IH")
    also have "\<dots> = mset xs"
      by (simp flip: mset_append)
    finally show ?thesis .
  qed
qed

abbreviation key_cmp :: "('a \<Rightarrow> int) \<Rightarrow> 'a \<Rightarrow> 'a \<Rightarrow> int" where
  "key_cmp key \<equiv> \<lambda>a b. key a - key b"

lemma sorted_js_merge:
  "sorted (map key xs) \<Longrightarrow> sorted (map key ys) \<Longrightarrow> sorted (map key (js_merge (key_cmp key) xs ys))"
  by (induction "key_cmp key" xs ys rule: js_merge.induct) (auto simp: set_js_merge)

lemma filter_js_merge:
  "sorted (map key xs) \<Longrightarrow> sorted (map key ys) \<Longrightarrow>
   filter (\<lambda>z. v = key z) (js_merge (key_cmp key) xs ys) =
   filter (\<lambda>z. v = key z) xs @ filter (\<lambda>z. v = key z) ys"
proof (induction "key_cmp key" xs ys rule: js_merge.induct)
  case (3 x xs y ys)
  show ?case
  proof (cases "key x \<le> key y")
    case True
    with 3 show ?thesis by auto
  next
    case False
    have "filter (\<lambda>z. key y = key z) (x # xs) = []"
      using False "3.prems"(1) by (fastforce simp: filter_empty_conv)
    with False 3 show ?thesis by auto
  qed
qed simp_all

lemma sorted_js_sort: "sorted (map key (js_sort (key_cmp key) xs))"
proof (induction "key_cmp key" xs rule: js_sort.induct)
  case (1 xs)
  then show ?case
    by (cases "length xs \<le> 1")
      (simp_all add: js_sort.simps [of "key_cmp key" xs] sorted_js_merge sorted01 Let_def)
qed

lemma filter_js_sort:
  "filter (\<lambda>z. v = key z) (js_sort (key_cmp key) xs) = filter (\<lambda>z. v = key z) xs"
proof (induction "key_cmp key" xs rule: js_sort.induct)
  case (1 xs)
  let ?n = "length xs"
  show ?case
  proof (cases "?n \<le> 1")
    case True
    then show ?thesis by (simp add: js_sort.simps [of "key_cmp key" xs])
  next
    case False
    then show ?thesis
      using "1" by (simp add: js_sort.simps [of "key_cmp key" xs] filter_js_merge sorted_js_sort
          Let_def flip: filter_append)
  qed
qed

theorem js_sort_eq_sort_key: "js_sort (key_cmp key) xs = sort_key key xs"
  by (rule properties_for_sort_key [symmetric])
    (simp_all add: mset_js_sort filter_js_sort sorted_js_sort)



lemma list_all_update: "list_all P xs \<Longrightarrow> P x \<Longrightarrow> list_all P (xs[i := x])"
  by (auto simp: list_all_iff dest: set_update_subset_insert [THEN subsetD])

subsection \<open>Well-formedness of the stored posts\<close>

definition comment_wf :: "comment \<Rightarrow> bool" where
  "comment_wf c \<longleftrightarrow> comment_text c \<noteq> [] \<and> js_trim (comment_text c) = comment_text c"

definition post_wf :: "post \<Rightarrow> bool" where
  "post_wf p \<longleftrightarrow>
     likes p = length (likedBy p) \<and> distinct (likedBy p) \<and>
     post_text p \<noteq> [] \<and> js_trim (post_text p) = post_text p \<and>
     pred_option (\<lambda>u. u \<noteq> [] \<and> js_trim u = u) (imageUrl p) \<and>
     list_all comment_wf (comments p)"

definition posts_wf :: "sys \<Rightarrow> bool" where
  "posts_wf s \<longleftrightarrow> list_all post_wf (getPosts s)"

definition ids_ok :: "sys \<Rightarrow> bool" where
  "ids_ok s \<longleftrightarrow>
     distinct (map post_id (getPosts s)) \<and>
     list_all (\<lambda>p. distinct (map comment_id (comments p))) (getPosts s)"

lemma not_blank_trim: "\<not> blank t \<Longrightarrow> js_trim t \<noteq> [] \<and> js_trim (js_trim t) = js_trim t"
  by (simp add: blank_def js_trim_idem)

lemma stored_image_ok: "pred_option (\<lambda>u. u \<noteq> [] \<and> js_trim u = u) (stored_image url)"
  by (simp add: stored_image_def js_trim_idem)

lemma post_wf_like_toggled: "post_wf p \<Longrightarrow> post_wf (like_toggled u p)"
  by (simp add: post_wf_def like_toggled_def distinct_toggle_uid Let_def)

lemma post_wf_edited:
  "post_wf p \<Longrightarrow> \<not> blank t \<Longrightarrow>
   post_wf (p\<lparr>post_text := js_trim t, imageUrl := stored_image url\<rparr>)"
  by (simp add: post_wf_def not_blank_trim stored_image_ok)

lemma comment_wf_new:
  "\<not> blank t \<Longrightarrow> comment_wf \<lparr>comment_id = i, comment_authorId = a, comment_author = n,
     comment_text = js_trim t, comment_createdAt = c\<rparr>"
  by (simp add: comment_wf_def not_blank_trim)

lemma post_wf_new:
  "\<not> blank t \<Longrightarrow> post_wf \<lparr>post_id = i, authorId = a, author = n, post_text = js_trim t,
     imageUrl = stored_image url, likes = 0, likedBy = [], comments = [], createdAt = c\<rparr>"
  by (simp add: post_wf_def not_blank_trim stored_image_ok)

lemmas wf_intros = post_wf_like_toggled post_wf_edited comment_wf_new post_wf_new
  list_all_update list_all_remove_at

subsection \<open>Operations as one datatype\<close>

datatype action =
    CreatePost string time string string
  | DeletePost string
  | EditPost string string string
  | ToggleLike string
  | AddComment string time string string
  | DeleteComment string string

definition forget :: "'a outcome \<Rightarrow> unit outcome" where
  "forget r = (map_sum id (\<lambda>_. ()) (fst r), snd r)"

fun run :: "url_parser \<Rightarrow> action \<Rightarrow> sys \<Rightarrow> unit outcome" where
  "run P (CreatePost f n t u) s = forget (createPost P f n t u s)"
| "run P (DeletePost pid) s = deletePost pid s"
| "run P (EditPost pid t u) s = forget (editPost P pid t u s)"
| "run P (ToggleLike pid) s = toggleLike pid s"
| "run P (AddComment f n pid t) s = forget (addComment f n pid t s)"
| "run P (DeleteComment pid cid) s = deleteComment pid cid s"

text \<open>The outcome shapes: a failure leaves storage and events alone; a success is one
  write of the posts followed by one dispatch.\<close>

definition contract :: "sys \<Rightarrow> 'a outcome \<Rightarrow> bool" where
  "contract s r \<longleftrightarrow>
     (case fst r of
        Inl _ \<Rightarrow> storage (snd r) = storage s \<and> events (snd r) = events s
      | Inr _ \<Rightarrow> (\<exists>ps. snd r = dispatch_postsUpdated (setPosts ps s)))"

lemma contract_fail_alert: "contract s (fail_alert e m s)"
  by (simp add: contract_def fail_alert_def)

lemma contract_fail_silent: "contract s (fail_silent e s)"
  by (simp add: contract_def fail_silent_def)

lemma contract_commit: "contract s (commit ps r s)"
  by (auto simp: contract_def commit_def)

lemma contract_forget: "contract s r \<Longrightarrow> contract s (forget r)"
  by (auto simp: contract_def forget_def split: sum.splits)

lemmas contract_intros = contract_fail_alert contract_fail_silent contract_commit

lemma contract_run: "contract s (run P a s)"
proof (cases a)
  case (CreatePost f n t u)
  then show ?thesis
    by (auto simp: createPost_def Let_def contract_intros intro!: contract_forget
        split: option.splits)
next
  case (DeletePost pid)
  then show ?thesis
    by (auto simp: deletePost_def Let_def contract_intros split: option.splits)
next
  case (EditPost pid t u)
  then show ?thesis
    by (auto simp: editPost_def Let_def contract_intros intro!: contract_forget
        split: option.splits)
next
  case (ToggleLike pid)
  then show ?thesis
    by (auto simp: toggleLike_def Let_def contract_intros split: option.splits)
next
  case (AddComment f n pid t)
  then show ?thesis
    by (auto simp: addComment_def Let_def contract_intros intro!: contract_forget
        split: option.splits)
next
  case (DeleteComment pid cid)
  then show ?thesis
    by (auto simp: deleteComment_def Let_def contract_intros split: option.splits)
qed

text \<open>C4: Every repository operation that fails (an early return, alerted or silent) leaves localStorage and the dispatched events unchanged.\<close>

theorem run_failure_frame:
  "fst (run P a s) = Inl e \<Longrightarrow>
   storage (snd (run P a s)) = storage s \<and> events (snd (run P a s)) = events s"
  using contract_run [of s P a] by (simp add: contract_def)

text \<open>C5: Every repository operation that succeeds dispatches exactly one postsUpdated event, shows no alert, and leaves the session user, the users list and the theme untouched.\<close>

theorem run_success_broadcast:
  "fst (run P a s) = Inr r \<Longrightarrow>
   events (snd (run P a s)) = events s @ [PostsUpdated] \<and>
   alerts (snd (run P a s)) = alerts s \<and>
   currentUser (snd (run P a s)) = currentUser s \<and>
   st_users (storage (snd (run P a s))) = st_users (storage s) \<and>
   st_theme (storage (snd (run P a s))) = st_theme (storage s)"
  using contract_run [of s P a]
  by (auto simp: contract_def setPosts_def dispatch_postsUpdated_def currentUser_def)



lemma list_all_nth_idx: "list_all P xs \<Longrightarrow> find_idx Q xs = Some i \<Longrightarrow> P (xs ! i)"
  by (auto simp: list_all_length dest: find_idx_less)

lemma snd_commit [simp]: "snd (commit ps r s) = dispatch_postsUpdated (setPosts ps s)"
  by (simp add: commit_def)

lemma snd_fail [simp]: "snd (fail_alert e m s) = alert m s" "snd (fail_silent e s) = s"
  by (simp_all add: fail_alert_def fail_silent_def)

lemma posts_wf_alert [simp]: "posts_wf (alert m s) = posts_wf s"
  by (simp add: posts_wf_def)

lemma posts_wf_commit [simp]: "posts_wf (dispatch_postsUpdated (setPosts ps s)) = list_all post_wf ps"
  by (simp add: posts_wf_def)

lemma snd_forget [simp]: "snd (forget r) = snd r"
  by (simp add: forget_def)

lemma run_posts_wf:
  assumes wf: "posts_wf s"
  shows "posts_wf (snd (run P a s))"
proof (cases a)
  case (CreatePost f n t u)
  then show ?thesis
    using wf by (auto simp: createPost_def Let_def posts_wf_def wf_intros split: option.splits)
next
  case (DeletePost pid)
  then show ?thesis
    using wf by (auto simp: deletePost_def Let_def posts_wf_def wf_intros split: option.splits)
next
  case (EditPost pid t u)
  then show ?thesis
    using wf by (auto simp: editPost_def Let_def posts_wf_def intro!: wf_intros
        elim: list_all_nth_idx split: option.splits)
next
  case (ToggleLike pid)
  then show ?thesis
    using wf by (auto simp: toggleLike_def Let_def posts_wf_def intro!: wf_intros
        elim: list_all_nth_idx split: option.splits)
next
  case (AddComment f n pid t)
  then show ?thesis
    using wf by (auto simp: addComment_def Let_def posts_wf_def post_wf_def intro!: wf_intros
        dest: list_all_nth_idx split: option.splits)
next
  case (DeleteComment pid cid)
  then show ?thesis
    using wf by (auto simp: deleteComment_def Let_def posts_wf_def post_wf_def intro!: wf_intros
        dest: list_all_nth_idx split: option.splits)
qed



lemma map_remove_at: "map f (remove_at i xs) = remove_at i (map f xs)"
  by (simp add: remove_at_def take_map drop_map)

lemma map_update_same:
  "i < length xs \<Longrightarrow> f x = f (xs ! i) \<Longrightarrow> map f (xs[i := x]) = map f xs"
  by (metis list_update_id map_update nth_map)

fun fresh_for :: "action \<Rightarrow> sys \<Rightarrow> bool" where
  "fresh_for (CreatePost f n t u) s = (f \<notin> set (map post_id (getPosts s)))"
| "fresh_for (AddComment f n pid t) s =
     list_all (\<lambda>p. f \<notin> set (map comment_id (comments p))) (getPosts s)"
| "fresh_for a s = True"

lemma ids_ok_alert [simp]: "ids_ok (alert m s) = ids_ok s"
  by (simp add: ids_ok_def)

lemma ids_ok_commit [simp]:
  "ids_ok (dispatch_postsUpdated (setPosts ps s)) \<longleftrightarrow>
   distinct (map post_id ps) \<and> list_all (\<lambda>p. distinct (map comment_id (comments p))) ps"
  by (simp add: ids_ok_def)

lemma run_ids_ok:
  assumes ok: "ids_ok s" and fresh: "fresh_for a s"
  shows "ids_ok (snd (run P a s))"
proof (cases a)
  case (CreatePost f n t u)
  with ok fresh show ?thesis
    by (auto simp: createPost_def Let_def ids_ok_def split: option.splits)
next
  case (DeletePost pid)
  with ok show ?thesis
    by (auto simp: deletePost_def Let_def ids_ok_def map_remove_at distinct_remove_at
        list_all_remove_at split: option.splits)
next
  case (EditPost pid t u)
  with ok show ?thesis
    by (auto simp: editPost_def Let_def ids_ok_def map_update_same find_idx_less
        intro!: list_all_update elim: list_all_nth_idx split: option.splits)
next
  case (ToggleLike pid)
  with ok show ?thesis
    by (auto simp: toggleLike_def Let_def ids_ok_def map_update_same find_idx_less like_toggled_def
        intro!: list_all_update elim: list_all_nth_idx split: option.splits)
next
  case (AddComment f n pid t)
  show ?thesis
  proof (cases "\<exists>cu i. currentUser s = Some cu \<and> \<not> blank t \<and>
                 find_idx (\<lambda>p. post_id p = pid) (getPosts s) = Some i")
    case True
    then obtain cu i where cu: "currentUser s = Some cu" and t: "\<not> blank t"
      and i: "find_idx (\<lambda>p. post_id p = pid) (getPosts s) = Some i" by blast
    let ?p = "getPosts s ! i"
    have d: "distinct (map comment_id (comments ?p))"
      using ok i list_all_nth_idx by (fastforce simp: ids_ok_def)
    have f: "f \<notin> set (map comment_id (comments ?p))"
      using fresh AddComment i list_all_nth_idx by fastforce
    from ok d f show ?thesis
      by (simp add: AddComment addComment_def cu t i Let_def ids_ok_def
          map_update_same [OF find_idx_less [OF i]] list_all_update)
  next
    case False
    with ok show ?thesis
      by (auto simp: AddComment addComment_def Let_def split: option.splits)
  qed
next
  case (DeleteComment pid cid)
  with ok show ?thesis
    by (auto simp: deleteComment_def Let_def ids_ok_def map_update_same find_idx_less
        map_remove_at distinct_remove_at
        intro!: list_all_update dest: list_all_nth_idx split: option.splits)
qed

text \<open>Reachable states: any state with no stored posts, closed under the repository's
  operations (with fresh ids from \<open>generateId\<close>) and under login/logout, which only
  write the \<open>"currentUser"\<close> key.\<close>

inductive reachable :: "url_parser \<Rightarrow> sys \<Rightarrow> bool" for P where
  init: "getPosts s = [] \<Longrightarrow> reachable P s"
| step: "reachable P s \<Longrightarrow> fresh_for a s \<Longrightarrow> reachable P (snd (run P a s))"
| session: "reachable P s \<Longrightarrow> reachable P (s\<lparr>storage := (storage s)\<lparr>st_currentUser := u\<rparr>\<rparr>)"

text \<open>C1: In every state reachable from an empty post collection by the six repository operations (with fresh ids from generateId) and by login/logout, every stored post has likes equal to the length of likedBy, no duplicate likes, a trimmed non-empty text, a trimmed non-empty image URL or none, trimmed non-empty comment texts, and post ids and per-post comment ids are unique.\<close>

theorem reachable_invariant: "reachable P s \<Longrightarrow> posts_wf s \<and> ids_ok s"
proof (induction rule: reachable.induct)
  case (init s)
  then show ?case by (simp add: posts_wf_def ids_ok_def)
next
  case (step s a)
  then show ?case by (simp add: run_posts_wf run_ids_ok)
next
  case (session s u)
  then show ?case by (simp add: posts_wf_def ids_ok_def getPosts_def)
qed

subsection \<open>Repository properties\<close>


lemma find_idx_update_same:
  "find_idx P xs = Some i \<Longrightarrow> P x \<Longrightarrow> find_idx P (xs[i := x]) = Some i"
  by (simp add: find_idx_Some_iff nth_list_update)

lemma like_toggled_twice_unliked:
  "likes p = length (likedBy p) \<Longrightarrow> u \<notin> set (likedBy p) \<Longrightarrow>
   like_toggled u (like_toggled u p) = p"
  by (simp add: like_toggled_def Let_def toggle_uid_twice_unliked)

lemma toggleLike_found:
  "currentUser s = Some cu \<Longrightarrow> find_idx (\<lambda>p. post_id p = pid) (getPosts s) = Some i \<Longrightarrow>
   toggleLike pid s =
     (Inr (), dispatch_postsUpdated
        (setPosts ((getPosts s)[i := like_toggled (user_id cu) (getPosts s ! i)]) s))"
  by (simp add: toggleLike_def commit_def Let_def)

lemma post_id_like_toggled [simp]: "post_id (like_toggled u p) = post_id p"
  by (simp add: like_toggled_def Let_def)

text \<open>C2: For a user who has not liked a post, toggleLike twice restores the stored posts exactly and dispatches postsUpdated twice.\<close>

theorem toggleLike_twice_unliked:
  assumes wf: "posts_wf s" and cu: "currentUser s = Some cu"
    and i: "find_idx (\<lambda>p. post_id p = pid) (getPosts s) = Some i"
    and unliked: "user_id cu \<notin> set (likedBy (getPosts s ! i))"
  shows "getPosts (snd (toggleLike pid (snd (toggleLike pid s)))) = getPosts s \<and>
         events (snd (toggleLike pid (snd (toggleLike pid s)))) = events s @ [PostsUpdated, PostsUpdated]"
proof -
  let ?ps = "getPosts s" and ?u = "user_id cu"
  let ?s1 = "dispatch_postsUpdated (setPosts (?ps[i := like_toggled ?u (?ps ! i)]) s)"
  have len: "i < length ?ps" using i by (rule find_idx_less)
  have wfp: "post_wf (?ps ! i)" using wf i by (simp add: posts_wf_def list_all_nth_idx)
  have first: "toggleLike pid s = (Inr (), ?s1)"
    using cu i by (rule toggleLike_found)
  have i1: "find_idx (\<lambda>p. post_id p = pid) (getPosts ?s1) = Some i"
    using i find_idx_nth [OF i] by (simp add: find_idx_update_same)
  have "toggleLike pid ?s1 =
     (Inr (), dispatch_postsUpdated (setPosts ((getPosts ?s1)[i := like_toggled ?u (getPosts ?s1 ! i)]) ?s1))"
    using cu i1 by (intro toggleLike_found) simp_all
  moreover have "(getPosts ?s1)[i := like_toggled ?u (getPosts ?s1 ! i)] = ?ps"
    using len wfp unliked by (simp add: like_toggled_twice_unliked post_wf_def)
  ultimately show ?thesis
    by (simp add: first)
qed



lemma setPosts_dispatch: "setPosts ps (dispatch_postsUpdated s) = dispatch_postsUpdated (setPosts ps s)"
  by (simp add: setPosts_def dispatch_postsUpdated_def)

lemma toggleLike_twice:
  assumes cu: "currentUser s = Some cu"
    and i: "find_idx (\<lambda>p. post_id p = pid) (getPosts s) = Some i"
  shows "snd (toggleLike pid (snd (toggleLike pid s))) =
    dispatch_postsUpdated (dispatch_postsUpdated (setPosts
      ((getPosts s)[i := like_toggled (user_id cu) (like_toggled (user_id cu) (getPosts s ! i))]) s))"
proof -
  let ?ps = "getPosts s" and ?u = "user_id cu"
  let ?s1 = "dispatch_postsUpdated (setPosts (?ps[i := like_toggled ?u (?ps ! i)]) s)"
  have len: "i < length ?ps" using i by (rule find_idx_less)
  have i1: "find_idx (\<lambda>p. post_id p = pid) (getPosts ?s1) = Some i"
    using i find_idx_nth [OF i] by (simp add: find_idx_update_same)
  have "toggleLike pid ?s1 =
     (Inr (), dispatch_postsUpdated (setPosts ((getPosts ?s1)[i := like_toggled ?u (getPosts ?s1 ! i)]) ?s1))"
    using cu i1 by (intro toggleLike_found) simp_all
  then have "snd (toggleLike pid ?s1) =
      dispatch_postsUpdated (setPosts ((?ps[i := like_toggled ?u (?ps ! i)])[i :=
        like_toggled ?u ((?ps[i := like_toggled ?u (?ps ! i)]) ! i)]) ?s1)"
    by simp
  also have "\<dots> = dispatch_postsUpdated (dispatch_postsUpdated (setPosts
      (?ps[i := like_toggled ?u (like_toggled ?u (?ps ! i))]) s))"
    using len by (simp add: setPosts_dispatch)
  finally show ?thesis
    by (simp add: toggleLike_found [OF cu i])
qed

lemma like_toggled_twice_liked:
  "post_wf p \<Longrightarrow> u \<in> set (likedBy p) \<Longrightarrow>
   like_toggled u (like_toggled u p) = p\<lparr>likedBy := remove1 u (likedBy p) @ [u]\<rparr>"
proof -
  assume wf: "post_wf p" and u: "u \<in> set (likedBy p)"
  then have "length (remove1 u (likedBy p) @ [u]) = likes p"
    using length_pos_if_in_set [OF u] by (simp add: length_remove1 post_wf_def)
  with wf u show ?thesis
    by (simp add: like_toggled_def Let_def toggle_uid_twice_liked post_wf_def)
qed

lemma mostLiked_cmp_key: "mostLiked_cmp = key_cmp (\<lambda>p. - int (likes p))"
  by (simp add: mostLiked_cmp_def fun_eq_iff)

lemma sortPosts_mostLiked_eq: "sortPosts ps ''mostLiked'' = sort_key (\<lambda>p. - int (likes p)) ps"
  unfolding sortPosts_def mostLiked_cmp_key js_sort_eq_sort_key by simp

text \<open>C3: For a user who has already liked a post, toggleLike twice keeps the like count and the set of likers but moves the user to the end of likedBy: the list is not restored.\<close>

theorem toggleLike_twice_liked:
  assumes wf: "posts_wf s" and cu: "currentUser s = Some cu"
    and i: "find_idx (\<lambda>p. post_id p = pid) (getPosts s) = Some i"
    and liked: "user_id cu \<in> set (likedBy (getPosts s ! i))"
  shows "getPosts (snd (toggleLike pid (snd (toggleLike pid s)))) =
         (getPosts s)[i := (getPosts s ! i)\<lparr>likedBy := remove1 (user_id cu) (likedBy (getPosts s ! i)) @ [user_id cu]\<rparr>]"
proof -
  have "post_wf (getPosts s ! i)" using wf i by (simp add: posts_wf_def list_all_nth_idx)
  with liked toggleLike_twice [OF cu i] show ?thesis
    by (simp add: like_toggled_twice_liked)
qed

text \<open>C6: deletePost of an existing post by someone who is not its author fails with NotAuthor, alerts "You can only delete your own posts" and changes nothing else.\<close>

theorem deletePost_not_author:
  "currentUser s = Some cu \<Longrightarrow> find_idx (\<lambda>p. post_id p = pid) (getPosts s) = Some i \<Longrightarrow>
   authorId (getPosts s ! i) \<noteq> user_id cu \<Longrightarrow>
   deletePost pid s = (Inl NotAuthor, alert ''You can only delete your own posts'' s)"
  by (simp add: deletePost_def fail_alert_def)

text \<open>C7: createPost by a logged-in user with non-blank text and a valid (or empty) image URL prepends exactly one new post with the trimmed text, the session user as author, zero likes, no likers, no comments, and dispatches postsUpdated.\<close>

theorem createPost_success:
  assumes "currentUser s = Some cu" and "\<not> blank text" and "isValidUrl P url"
  shows "\<exists>p. createPost P f n text url s = (Inr p, dispatch_postsUpdated (setPosts (p # getPosts s) s)) \<and>
    post_id p = f \<and> authorId p = user_id cu \<and> author p = name cu \<and> post_text p = js_trim text \<and>
    imageUrl p = stored_image url \<and> likes p = 0 \<and> likedBy p = [] \<and> comments p = [] \<and>
    createdAt p = n"
  using assms by (simp add: createPost_def commit_def Let_def)

text \<open>C8: addComment with whitespace-only text by a logged-in user returns the EmptyComment failure with the state completely unchanged: no alert, no write, no event.\<close>

theorem addComment_blank_silent:
  "currentUser s = Some cu \<Longrightarrow> blank text \<Longrightarrow> addComment f n pid text s = (Inl EmptyComment, s)"
  by (simp add: addComment_def fail_silent_def)

text \<open>C9: deleteComment of a comment id that the found post does not hold is a silent no-op: CommentNotFound with the state unchanged.\<close>

theorem deleteComment_missing_silent:
  "currentUser s = Some cu \<Longrightarrow> find_idx (\<lambda>p. post_id p = pid) (getPosts s) = Some i \<Longrightarrow>
   cid \<notin> set (map comment_id (comments (getPosts s ! i))) \<Longrightarrow>
   deleteComment pid cid s = (Inl CommentNotFound, s)"
proof -
  assume "currentUser s = Some cu" "find_idx (\<lambda>p. post_id p = pid) (getPosts s) = Some i"
    "cid \<notin> set (map comment_id (comments (getPosts s ! i)))"
  moreover from this(3) have "find_idx (\<lambda>c. comment_id c = cid) (comments (getPosts s ! i)) = None"
    by (auto simp: find_idx_None_iff)
  ultimately show ?thesis
    by (simp add: deleteComment_def fail_silent_def)
qed

text \<open>C10: sortPosts with "mostLiked" is a permutation of its input, orders posts by non-increasing likes, and keeps posts with equal likes in their input order (stability).\<close>

theorem sortPosts_mostLiked_stable:
  "mset (sortPosts ps ''mostLiked'') = mset ps \<and>
   sorted_wrt (\<lambda>a b. likes b \<le> likes a) (sortPosts ps ''mostLiked'') \<and>
   filter (\<lambda>p. likes p = k) (sortPosts ps ''mostLiked'') = filter (\<lambda>p. likes p = k) ps"
proof (intro conjI)
  show "mset (sortPosts ps ''mostLiked'') = mset ps"
    by (simp add: sortPosts_mostLiked_eq)
  have "sorted (map (\<lambda>p. - int (likes p)) (sort_key (\<lambda>p. - int (likes p)) ps))"
    by (rule sorted_sort_key)
  then show "sorted_wrt (\<lambda>a b. likes b \<le> likes a) (sortPosts ps ''mostLiked'')"
    by (simp add: sortPosts_mostLiked_eq sorted_map)
  have "filter (\<lambda>p. - int (likes p) = - int k) (sort_key (\<lambda>p. - int (likes p)) ps) =
        filter (\<lambda>p. - int (likes p) = - int k) ps"
    by (rule sort_key_stable)
  then show "filter (\<lambda>p. likes p = k) (sortPosts ps ''mostLiked'') = filter (\<lambda>p. likes p = k) ps"
    by (simp add: sortPosts_mostLiked_eq)
qed

text \<open>C11: A post is in the result of searchPosts q exactly when it is stored and q is blank, or the lower-cased query occurs in the lower-cased text or author name.\<close>

theorem searchPosts_member:
  "p \<in> set (searchPosts q s) \<longleftrightarrow>
   p \<in> set (getPosts s) \<and>
   (js_trim q = [] \<or> (\<exists>a b. js_lower (post_text p) = a @ js_lower q @ b) \<or>
                     (\<exists>a b. js_lower (author p) = a @ js_lower q @ b))"
  by (auto simp: searchPosts_def Let_def js_includes_iff)

subsection \<open>Witnesses on a concrete state\<close>


definition demo_user :: user where
  "demo_user = \<lparr>user_id = ''u1'', name = ''Ann'', email = ''ann@mail.io'', password = ''1a'',
     user_createdAt = 0, bio = [], profilePic = [], followers = [], following = []\<rparr>"

definition demo_post1 :: post where
  "demo_post1 = \<lparr>post_id = ''p1'', authorId = ''u2'', author = ''Bob'', post_text = ''hello #test'',
     imageUrl = None, likes = 0, likedBy = [], comments = [], createdAt = 2\<rparr>"

definition demo_post2 :: post where
  "demo_post2 = \<lparr>post_id = ''p2'', authorId = ''u1'', author = ''Ann'', post_text = ''mine'',
     imageUrl = None, likes = 2, likedBy = [''u1'', ''u2''], comments = [], createdAt = 1\<rparr>"

definition demo_sys :: sys where
  "demo_sys = \<lparr>storage = \<lparr>st_posts = Some [demo_post1, demo_post2],
     st_currentUser = Some demo_user, st_users = None, st_theme = None\<rparr>,
     events = [], alerts = []\<rparr>"

lemmas demo_defs = demo_user_def demo_post1_def demo_post2_def

lemma demo_getPosts [simp]: "getPosts demo_sys = [demo_post1, demo_post2]"
  by (simp add: getPosts_def demo_sys_def)

lemma demo_currentUser [simp]: "currentUser demo_sys = Some demo_user"
  by (simp add: currentUser_def demo_sys_def)

lemma demo_events [simp]: "events demo_sys = []" "alerts demo_sys = []"
  by (simp_all add: demo_sys_def)

definition demo_empty :: sys where
  "demo_empty = \<lparr>storage = \<lparr>st_posts = None, st_currentUser = Some demo_user, st_users = None,
     st_theme = None\<rparr>, events = [], alerts = []\<rparr>"

lemma demo_posts_wf: "posts_wf demo_sys"
  by (simp add: posts_wf_def post_wf_def demo_post1_def demo_post2_def js_trim_def is_js_space_def)

theorem toggleLike_twice_unliked_witness:
  "getPosts (snd (toggleLike ''p1'' (snd (toggleLike ''p1'' demo_sys)))) = getPosts demo_sys \<and>
   events (snd (toggleLike ''p1'' (snd (toggleLike ''p1'' demo_sys)))) = [PostsUpdated, PostsUpdated]"
  using toggleLike_twice_unliked [OF demo_posts_wf demo_currentUser, of "''p1''" 0]
  by (simp add: demo_defs)

theorem toggleLike_twice_liked_witness:
  "getPosts (snd (toggleLike ''p2'' (snd (toggleLike ''p2'' demo_sys)))) =
   [demo_post1, demo_post2\<lparr>likedBy := [''u2'', ''u1'']\<rparr>]"
  using toggleLike_twice_liked [OF demo_posts_wf demo_currentUser, of "''p2''" 1]
  by (simp add: demo_defs)

theorem deletePost_not_author_witness:
  "deletePost ''p1'' demo_sys = (Inl NotAuthor, alert ''You can only delete your own posts'' demo_sys)"
  using deletePost_not_author [OF demo_currentUser, of "''p1''" 0]
  by (simp add: demo_defs)

theorem createPost_success_witness:
  "\<exists>p. createPost (\<lambda>_. True) ''p3'' 5 '' hi '' [] demo_sys =
     (Inr p, dispatch_postsUpdated (setPosts (p # getPosts demo_sys) demo_sys)) \<and>
   post_text p = ''hi'' \<and> likes p = 0"
  using createPost_success [OF demo_currentUser, of "'' hi ''" "\<lambda>_. True" "[]" "''p3''" 5]
  by (auto simp: blank_def js_trim_def is_js_space_def isValidUrl_def)

theorem addComment_blank_silent_witness:
  "addComment ''c1'' 5 ''p1'' ''   '' demo_sys = (Inl EmptyComment, demo_sys)"
  using addComment_blank_silent [OF demo_currentUser, of "''   ''" "''c1''" 5 "''p1''"]
  by (simp add: blank_def js_trim_def is_js_space_def)

theorem deleteComment_missing_silent_witness:
  "deleteComment ''p1'' ''c9'' demo_sys = (Inl CommentNotFound, demo_sys)"
  using deleteComment_missing_silent [OF demo_currentUser, of "''p1''" 0 "''c9''"]
  by (simp add: demo_defs)

theorem run_failure_frame_witness:
  "storage (snd (run (\<lambda>_. True) (DeletePost ''p1'') demo_sys)) = storage demo_sys \<and>
   events (snd (run (\<lambda>_. True) (DeletePost ''p1'') demo_sys)) = events demo_sys"
  using run_failure_frame [of "\<lambda>_. True" "DeletePost ''p1''" demo_sys NotAuthor]
  by (simp add: deletePost_def fail_alert_def demo_defs)

theorem run_success_broadcast_witness:
  "events (snd (run (\<lambda>_. True) (ToggleLike ''p1'') demo_sys)) = [PostsUpdated] \<and>
   alerts (snd (run (\<lambda>_. True) (ToggleLike ''p1'') demo_sys)) = [] \<and>
   currentUser (snd (run (\<lambda>_. True) (ToggleLike ''p1'') demo_sys)) = Some demo_user \<and>
   st_users (storage (snd (run (\<lambda>_. True) (ToggleLike ''p1'') demo_sys))) = None \<and>
   st_theme (storage (snd (run (\<lambda>_. True) (ToggleLike ''p1'') demo_sys))) = None"
  using run_success_broadcast [of "\<lambda>_. True" "ToggleLike ''p1''" demo_sys "()"]
  by (simp add: toggleLike_found [OF demo_currentUser, of "''p1''" 0] demo_defs)
     (simp add: demo_sys_def)

theorem reachable_invariant_witness:
  "posts_wf (snd (run (\<lambda>_. True) (CreatePost ''p9'' 3 ''hi'' []) demo_empty)) \<and>
   ids_ok (snd (run (\<lambda>_. True) (CreatePost ''p9'' 3 ''hi'' []) demo_empty))"
proof -
  have e: "getPosts demo_empty = []" by (simp add: demo_empty_def getPosts_def)
  have "reachable (\<lambda>_. True) (snd (run (\<lambda>_. True) (CreatePost ''p9'' 3 ''hi'' []) demo_empty))"
    by (rule reachable.step [OF reachable.init [OF e]]) (simp add: e)
  then show ?thesis by (rule reachable_invariant)
qed

subsection \<open>Editing\<close>


text \<open>C21: editPost by the author with non-blank text and a valid or empty URL replaces only the text (trimmed) and the image URL of the found post, keeping its id, author, likes, likers, comments and creation time, then dispatches postsUpdated.\<close>

theorem editPost_success:
  assumes "currentUser s = Some cu" and "\<not> blank t" and "isValidUrl P u"
    and "find_idx (\<lambda>p. post_id p = pid) (getPosts s) = Some i"
    and "authorId (getPosts s ! i) = user_id cu"
  shows "\<exists>p'. editPost P pid t u s = (Inr p', dispatch_postsUpdated (setPosts ((getPosts s)[i := p']) s)) \<and>
    post_id p' = post_id (getPosts s ! i) \<and> authorId p' = authorId (getPosts s ! i) \<and>
    author p' = author (getPosts s ! i) \<and> likes p' = likes (getPosts s ! i) \<and>
    likedBy p' = likedBy (getPosts s ! i) \<and> comments p' = comments (getPosts s ! i) \<and>
    createdAt p' = createdAt (getPosts s ! i) \<and> post_text p' = js_trim t \<and> imageUrl p' = stored_image u"
  using assms by (simp add: editPost_def commit_def Let_def)

theorem editPost_success_witness:
  "\<exists>p'. editPost (\<lambda>_. True) ''p2'' '' edited '' [] demo_sys =
     (Inr p', dispatch_postsUpdated (setPosts ([demo_post1, demo_post2][1 := p']) demo_sys)) \<and>
   likes p' = 2 \<and> post_text p' = ''edited''"
  using editPost_success [OF demo_currentUser, of "'' edited ''" "\<lambda>_. True" "[]" "''p2''" 1]
  by (auto simp: demo_defs blank_def js_trim_def is_js_space_def isValidUrl_def)

end
