(* ===== verification/Feed.thy ===== *)
theory Feed
  imports Posts
begin

text \<open>
  The feed of src/src/javascript/feed.js: the views it computes from the stored posts
  (the follow filter of \<open>initFeed\<close> and its \<open>postsUpdated\<close> listener, the search of
  \<open>initSearch\<close>/\<open>initSorting\<close>, the hashtag view of \<open>filterPostsByHashtag\<close>) and
  the part of the page's DOM state that changes what later events do: the list last
  rendered, the number of click and keypress listeners on \<open>#feedContainer\<close> (one more
  per non-empty \<open>renderFeed\<close>, since \<open>attachPostEventListeners\<close> never removes the
  earlier ones), the number of \<open>postsUpdated\<close> listeners on \<open>window\<close> (one per
  \<open>initFeed\<close> call), the values of \<open>#sortSelect\<close> and \<open>#searchInput\<close>, the open
  edit forms (post id, text and image URL in the form's fields) and the posts whose
  comment section is shown. Rendering replaces the container's children, so it closes
  every edit form and hides every comment section.
  A click runs every listener present when the event was dispatched, in order; listeners
  added while it runs are not run for it (DOM dispatch clones the listener list).
\<close>

record page =
  pg_sys :: sys
  shown :: "post list"
  clickHandlers :: nat
  keyHandlers :: nat
  updListeners :: nat
  sortSelect :: string
  searchInput :: string
  editForms :: "(string \<times> string \<times> string) list"
  openComments :: "string list"

definition fresh_page :: "sys \<Rightarrow> page" where
  "fresh_page s = \<lparr>pg_sys = s, shown = [], clickHandlers = 0, keyHandlers = 0,
     updListeners = 0, sortSelect = [], searchInput = [], editForms = [], openComments = []\<rparr>"

text \<open>\<open>document.getElementById("sortSelect")?.value || "latest"\<close>\<close>

definition sort_choice :: "page \<Rightarrow> string" where
  "sort_choice pg = (if sortSelect pg = [] then ''latest'' else sortSelect pg)"

subsection \<open>Views\<close>

text \<open>
  \<open>if (currentUser?.following && currentUser.following.length > 0)
     feedPosts = posts.filter(p => following.includes(p.authorId) || p.authorId === currentUser.id)\<close>
\<close>

definition follow_filter :: "user option \<Rightarrow> post list \<Rightarrow> post list" where
  "follow_filter cu posts =
     (case cu of
        None \<Rightarrow> posts
      | Some u \<Rightarrow>
          if following u \<noteq> []
          then filter (\<lambda>p. authorId p \<in> set (following u) \<or> authorId p = user_id u) posts
          else posts)"

definition feedPosts :: "sys \<Rightarrow> post list" where
  "feedPosts s = follow_filter (currentUser s) (getPosts s)"

definition hashtagPosts :: "string \<Rightarrow> sys \<Rightarrow> post list" where
  "hashtagPosts tag s = filter (\<lambda>p. tag \<in> set (extractHashtags (post_text p))) (getPosts s)"

subsection \<open>Rendering and listeners\<close>

definition renderFeed :: "post list \<Rightarrow> page \<Rightarrow> page" where
  "renderFeed posts pg =
     (if posts = [] then pg\<lparr>shown := [], editForms := [], openComments := []\<rparr>
      else pg\<lparr>shown := posts, editForms := [], openComments := [],
              clickHandlers := Suc (clickHandlers pg), keyHandlers := Suc (keyHandlers pg)\<rparr>)"

text \<open>The \<open>postsUpdated\<close> listener registered by \<open>initFeed\<close>.\<close>

definition on_postsUpdated :: "page \<Rightarrow> page" where
  "on_postsUpdated pg = renderFeed (sortPosts (feedPosts (pg_sys pg)) (sort_choice pg)) pg"

definition initFeed :: "page \<Rightarrow> page" where
  "initFeed pg =
     (let pg' = renderFeed (sortPosts (feedPosts (pg_sys pg)) ''latest'') pg
      in pg'\<lparr>updListeners := Suc (updListeners pg')\<rparr>)"

definition filterPostsByHashtag :: "string \<Rightarrow> page \<Rightarrow> page" where
  "filterPostsByHashtag tag pg = renderFeed (sortPosts (hashtagPosts tag (pg_sys pg)) ''latest'') pg"

definition initHashtagFilter :: "string option \<Rightarrow> page \<Rightarrow> page" where
  "initHashtagFilter hashtag pg =
     (case hashtag of None \<Rightarrow> initFeed pg | Some tag \<Rightarrow> filterPostsByHashtag tag pg)"

text \<open>
  \<open>initFeedPage\<close>: \<open>initFeed(); initSearch(); initSorting(); initHashtagFilter()\<close>.
  \<open>initSearch\<close> and \<open>initSorting\<close> only register input listeners (\<open>on_search\<close>,
  \<open>on_sort\<close> below); the \<open>?hashtag=\<close> query parameter is the option argument.
\<close>

definition initFeedPage :: "string option \<Rightarrow> page \<Rightarrow> page" where
  "initFeedPage hashtag pg = initHashtagFilter hashtag (initFeed pg)"

definition on_search :: "string \<Rightarrow> page \<Rightarrow> page" where
  "on_search q pg =
     renderFeed (sortPosts (searchPosts q (pg_sys pg)) (sort_choice pg)) (pg\<lparr>searchInput := q\<rparr>)"

definition on_sort :: "string \<Rightarrow> page \<Rightarrow> page" where
  "on_sort v pg =
     renderFeed (sortPosts (searchPosts (searchInput pg) (pg_sys pg)) v) (pg\<lparr>sortSelect := v\<rparr>)"

subsection \<open>Running repository calls from the page\<close>

text \<open>
  Each \<open>postsUpdated\<close> a call dispatches runs every registered listener synchronously;
  the call writes storage before it dispatches and returns right after, so delivering
  the listeners when the call returns gives the same page.
\<close>

fun deliver :: "nat \<Rightarrow> page \<Rightarrow> page" where
  "deliver 0 pg = pg"
| "deliver (Suc n) pg = deliver n (on_postsUpdated pg)"

definition apply_op :: "(sys \<Rightarrow> 'a outcome) \<Rightarrow> page \<Rightarrow> page" where
  "apply_op f pg =
     (let s = pg_sys pg; s' = snd (f s);
          n = length (events s') - length (events s)
      in deliver (n * updListeners pg) (pg\<lparr>pg_sys := s'\<rparr>))"

text \<open>
  A click runs the \<open>clickHandlers pg\<close> copies of the container's handler, the
  \<open>i\<close>-th copy as \<open>h i\<close>.
\<close>

fun run_clicks :: "nat \<Rightarrow> nat \<Rightarrow> (nat \<Rightarrow> sys \<Rightarrow> 'a outcome) \<Rightarrow> page \<Rightarrow> page" where
  "run_clicks i 0 h pg = pg"
| "run_clicks i (Suc n) h pg = run_clicks (Suc i) n h (apply_op (h i) pg)"

definition click :: "(nat \<Rightarrow> sys \<Rightarrow> 'a outcome) \<Rightarrow> page \<Rightarrow> page" where
  "click h pg = run_clicks 0 (clickHandlers pg) h pg"

text \<open>The handler's branches for \<open>data-action="like"\<close> and \<open>"delete"\<close>
  (\<open>confirm\<close> is asked by every copy; its answers are an input).\<close>

definition like_click :: "string \<Rightarrow> nat \<Rightarrow> sys \<Rightarrow> unit outcome" where
  "like_click pid i s = toggleLike pid s"

definition delete_click :: "(nat \<Rightarrow> bool) \<Rightarrow> string \<Rightarrow> nat \<Rightarrow> sys \<Rightarrow> unit outcome" where
  "delete_click confirmed pid i s = (if confirmed i then deletePost pid s else (Inr (), s))"

text \<open>\<open>"comment-submit"\<close>: every copy reads the comment input of the post, calls
  \<open>addComment\<close> and clears it; the first copy reads the typed text, the later ones the
  cleared (or freshly rendered) empty input.\<close>

definition comment_click ::
  "(nat \<Rightarrow> string) \<Rightarrow> time \<Rightarrow> string \<Rightarrow> string \<Rightarrow> nat \<Rightarrow> sys \<Rightarrow> comment outcome" where
  "comment_click fresh now pid typed i s =
     addComment (fresh i) now pid (if i = 0 then typed else []) s"

subsection \<open>Rendering frame lemmas\<close>


lemma renderFeed_frame [simp]:
  "pg_sys (renderFeed ps pg) = pg_sys pg" "sortSelect (renderFeed ps pg) = sortSelect pg"
  "updListeners (renderFeed ps pg) = updListeners pg" "shown (renderFeed ps pg) = ps"
  "searchInput (renderFeed ps pg) = searchInput pg"
  by (simp_all add: renderFeed_def)

lemma clickHandlers_renderFeed [simp]:
  "clickHandlers (renderFeed ps pg) = (if ps = [] then clickHandlers pg else Suc (clickHandlers pg))"
  by (simp add: renderFeed_def)

lemma sort_choice_renderFeed [simp]: "sort_choice (renderFeed ps pg) = sort_choice pg"
  by (simp add: sort_choice_def)

lemma on_postsUpdated_frame [simp]:
  "pg_sys (on_postsUpdated pg) = pg_sys pg" "sort_choice (on_postsUpdated pg) = sort_choice pg"
  "updListeners (on_postsUpdated pg) = updListeners pg"
  by (simp_all add: on_postsUpdated_def)

lemma deliver_frame [simp]:
  "pg_sys (deliver n pg) = pg_sys pg" "sort_choice (deliver n pg) = sort_choice pg"
  "updListeners (deliver n pg) = updListeners pg"
  by (induction n arbitrary: pg) simp_all

lemma shown_deliver:
  "shown (deliver (Suc n) pg) = sortPosts (feedPosts (pg_sys pg)) (sort_choice pg)"
proof (induction n arbitrary: pg)
  case 0
  then show ?case by (simp add: on_postsUpdated_def)
next
  case (Suc n)
  then show ?case using Suc.IH [of "on_postsUpdated pg"] by simp
qed

lemma pg_sys_apply_op [simp]: "pg_sys (apply_op f pg) = snd (f (pg_sys pg))"
  by (simp add: apply_op_def Let_def sort_choice_def)

lemma updListeners_apply_op [simp]: "updListeners (apply_op f pg) = updListeners pg"
  by (simp add: apply_op_def Let_def)

lemma pg_sys_run_clicks:
  "pg_sys (run_clicks i n (\<lambda>_. f) pg) = ((\<lambda>s. snd (f s)) ^^ n) (pg_sys pg)"
  by (induction n arbitrary: i pg) (simp_all add: funpow_Suc_right funpow_0 del: funpow.simps)

lemma set_sortPosts [simp]: "set (sortPosts ps b) = set ps"
proof -
  have "set (js_sort mostLiked_cmp ps) = set ps"
    by (metis mset_js_sort set_mset_mset)
  then show ?thesis by (simp add: sortPosts_def)
qed

lemma sortPosts_Nil_iff [simp]: "sortPosts ps b = [] \<longleftrightarrow> ps = []"
  by (metis set_empty set_sortPosts)

subsection \<open>Like clicks\<close>

lemma toggleLike_state:
  "currentUser s = Some cu \<Longrightarrow> find_idx (\<lambda>p. post_id p = pid) (getPosts s) = Some i \<Longrightarrow>
   getPosts (snd (toggleLike pid s)) = (getPosts s)[i := like_toggled (user_id cu) (getPosts s ! i)] \<and>
   currentUser (snd (toggleLike pid s)) = currentUser s"
  by (simp add: toggleLike_found)

lemma toggle_pow_even:
  assumes wf: "posts_wf s" and cu: "currentUser s = Some cu"
    and i: "find_idx (\<lambda>p. post_id p = pid) (getPosts s) = Some i"
    and unliked: "user_id cu \<notin> set (likedBy (getPosts s ! i))"
    and t: "getPosts t = getPosts s" "currentUser t = currentUser s"
  shows "getPosts (((\<lambda>s. snd (toggleLike pid s)) ^^ (2 * m)) t) = getPosts s \<and>
         currentUser (((\<lambda>s. snd (toggleLike pid s)) ^^ (2 * m)) t) = currentUser s"
  using t
proof (induction m arbitrary: t)
  case 0
  then show ?case by simp
next
  case (Suc m)
  let ?T = "\<lambda>s. snd (toggleLike pid s)"
  have len: "i < length (getPosts s)" using i by (rule find_idx_less)
  have wfp: "post_wf (getPosts s ! i)" using wf i by (simp add: posts_wf_def list_all_nth_idx)
  have cu_t: "currentUser t = Some cu" and i_t: "find_idx (\<lambda>p. post_id p = pid) (getPosts t) = Some i"
    using Suc.prems cu i by simp_all
  have "getPosts (?T (?T t)) = getPosts s \<and> currentUser (?T (?T t)) = currentUser s"
    using toggleLike_twice [OF cu_t i_t] Suc.prems len wfp unliked
    by (simp add: like_toggled_twice_unliked post_wf_def)
  moreover have "(?T ^^ (2 * Suc m)) t = (?T ^^ (2 * m)) (?T (?T t))"
    by (simp add: funpow_Suc_right del: funpow.simps)
  ultimately show ?case
    using Suc.IH by simp
qed

subsection \<open>Feed properties\<close>


lemma like_click_const: "like_click pid = (\<lambda>_. toggleLike pid)"
  by (simp add: fun_eq_iff like_click_def)

lemma like_clicks_posts:
  assumes wf: "posts_wf (pg_sys pg)" and cu: "currentUser (pg_sys pg) = Some cu"
    and i: "find_idx (\<lambda>p. post_id p = pid) (getPosts (pg_sys pg)) = Some i"
    and unliked: "user_id cu \<notin> set (likedBy (getPosts (pg_sys pg) ! i))"
  shows "getPosts (pg_sys (run_clicks j n (like_click pid) pg)) =
     (if even n then getPosts (pg_sys pg)
      else (getPosts (pg_sys pg))[i := like_toggled (user_id cu) (getPosts (pg_sys pg) ! i)])"
proof -
  let ?s = "pg_sys pg" and ?T = "\<lambda>s. snd (toggleLike pid s)"
  have sys: "pg_sys (run_clicks j n (like_click pid) pg) = (?T ^^ n) ?s"
    by (simp add: like_click_const pg_sys_run_clicks)
  obtain m where n: "n = 2 * m \<or> n = Suc (2 * m)"
    by (metis oddE evenE add.commute plus_1_eq_Suc)
  have ev: "getPosts ((?T ^^ (2 * m)) ?s) = getPosts ?s \<and> currentUser ((?T ^^ (2 * m)) ?s) = currentUser ?s"
    using toggle_pow_even [OF wf cu i unliked] by simp
  show ?thesis
  proof (cases "n = 2 * m")
    case True
    with sys ev show ?thesis by simp
  next
    case False
    with n have n': "n = Suc (2 * m)" by simp
    have "getPosts (?T ((?T ^^ (2 * m)) ?s)) =
        (getPosts ?s)[i := like_toggled (user_id cu) (getPosts ?s ! i)]"
      using toggleLike_state [of "(?T ^^ (2 * m)) ?s" cu pid i] ev cu i by simp
    with sys n' show ?thesis by simp
  qed
qed

lemma initFeedPage_None:
  "feedPosts s \<noteq> [] \<Longrightarrow> clickHandlers (initFeedPage None (fresh_page s)) = 2 \<and>
   updListeners (initFeedPage None (fresh_page s)) = 2 \<and> pg_sys (initFeedPage None (fresh_page s)) = s"
  by (simp add: initFeedPage_def initHashtagFilter_def initFeed_def fresh_page_def Let_def)

lemma initFeedPage_Some:
  "updListeners (initFeedPage (Some tag) (fresh_page s)) = 1 \<and>
   pg_sys (initFeedPage (Some tag) (fresh_page s)) = s \<and>
   sortSelect (initFeedPage (Some tag) (fresh_page s)) = []"
  by (simp add: initFeedPage_def initHashtagFilter_def initFeed_def fresh_page_def Let_def
      filterPostsByHashtag_def renderFeed_def)

text \<open>C12: One click on a like button runs toggleLike once per click listener attached to the feed container; for a user who has not liked the post the stored posts are unchanged when that number is even and toggled once when it is odd.\<close>

theorem like_click_parity:
  assumes "posts_wf (pg_sys pg)" and "currentUser (pg_sys pg) = Some cu"
    and "find_idx (\<lambda>p. post_id p = pid) (getPosts (pg_sys pg)) = Some i"
    and "user_id cu \<notin> set (likedBy (getPosts (pg_sys pg) ! i))"
  shows "getPosts (pg_sys (click (like_click pid) pg)) =
     (if even (clickHandlers pg) then getPosts (pg_sys pg)
      else (getPosts (pg_sys pg))[i := like_toggled (user_id cu) (getPosts (pg_sys pg) ! i)])"
  unfolding click_def using assms by (rule like_clicks_posts)

lemma comment_click_later:
  "currentUser s = Some cu \<Longrightarrow> 0 < k \<Longrightarrow> comment_click fresh now pid typed k s = (Inl EmptyComment, s)"
  by (simp add: comment_click_def addComment_def fail_silent_def blank_def)

lemma run_clicks_silent:
  assumes "\<And>k. 0 < k \<Longrightarrow> h k (pg_sys pg) = (Inl e, pg_sys pg)"
  shows "pg_sys (run_clicks (Suc j) n h pg) = pg_sys pg"
  using assms
proof (induction n arbitrary: j pg)
  case 0
  then show ?case by simp
next
  case (Suc n)
  have "pg_sys (apply_op (h (Suc j)) pg) = pg_sys pg"
    using Suc.prems by simp
  then show ?case
    using Suc.IH [of "apply_op (h (Suc j)) pg"] Suc.prems by simp
qed

text \<open>C13: One click on a comment Post button with at least one attached listener adds exactly one comment with the typed text: the first listener clears the input, so the later ones call addComment with an empty text, which returns silently.\<close>

theorem comment_click_once:
  assumes cu: "currentUser (pg_sys pg) = Some cu"
    and i: "find_idx (\<lambda>p. post_id p = pid) (getPosts (pg_sys pg)) = Some i"
    and typed: "\<not> blank typed" and k: "0 < clickHandlers pg"
  shows "getPosts (pg_sys (click (comment_click fresh now pid typed) pg)) =
    (let ps = getPosts (pg_sys pg); p = ps ! i
     in ps[i := p\<lparr>comments := comments p @ [\<lparr>comment_id = fresh 0, comment_authorId = user_id cu,
        comment_author = name cu, comment_text = js_trim typed, comment_createdAt = now\<rparr>]\<rparr>])"
proof -
  obtain n where n: "clickHandlers pg = Suc n" using k by (cases "clickHandlers pg") simp_all
  let ?h = "comment_click fresh now pid typed"
  let ?pg1 = "apply_op (?h 0) pg"
  have first: "getPosts (pg_sys ?pg1) =
    (let ps = getPosts (pg_sys pg); p = ps ! i
     in ps[i := p\<lparr>comments := comments p @ [\<lparr>comment_id = fresh 0, comment_authorId = user_id cu,
        comment_author = name cu, comment_text = js_trim typed, comment_createdAt = now\<rparr>]\<rparr>])"
    using cu i typed by (simp add: comment_click_def addComment_def commit_def Let_def)
  have cu1: "currentUser (pg_sys ?pg1) = Some cu"
    using cu i typed by (simp add: comment_click_def addComment_def commit_def Let_def)
  have "pg_sys (run_clicks (Suc 0) n ?h ?pg1) = pg_sys ?pg1"
    using cu1 by (intro run_clicks_silent [where e = EmptyComment]) (simp add: comment_click_later)
  with first show ?thesis
    by (simp add: click_def n)
qed

text \<open>C14: On a page opened with a hashtag filter, a successful toggleLike makes the postsUpdated listener registered by initFeed re-render the follow-filtered feed sorted as latest, replacing the hashtag view.\<close>

theorem hashtag_view_replaced:
  assumes cu: "currentUser s = Some cu"
    and i: "find_idx (\<lambda>p. post_id p = pid) (getPosts s) = Some i"
  shows "shown (apply_op (toggleLike pid) (initFeedPage (Some tag) (fresh_page s))) =
         sortPosts (feedPosts (snd (toggleLike pid s))) ''latest''"
proof -
  let ?pg = "initFeedPage (Some tag) (fresh_page s)"
  have ev: "length (events (snd (toggleLike pid s))) - length (events s) = 1"
    by (simp add: toggleLike_found [OF cu i])
  have "apply_op (toggleLike pid) ?pg = deliver (Suc 0) (?pg\<lparr>pg_sys := snd (toggleLike pid s)\<rparr>)"
    using initFeedPage_Some [of tag s] ev by (simp add: apply_op_def Let_def)
  then show ?thesis
    using shown_deliver [of 0 "?pg\<lparr>pg_sys := snd (toggleLike pid s)\<rparr>"] initFeedPage_Some [of tag s]
    by (simp add: sort_choice_def)
qed

text \<open>C15: A post by an author the session user neither follows nor is is hidden by the follow-filtered feed but shown by a blank search query: search does not apply the follow filter.\<close>

theorem search_ignores_follow:
  assumes "currentUser (pg_sys pg) = Some u" and "following u \<noteq> []"
    and "p \<in> set (getPosts (pg_sys pg))"
    and "authorId p \<notin> set (following u)" and "authorId p \<noteq> user_id u"
  shows "p \<notin> set (shown (on_postsUpdated pg)) \<and> p \<in> set (shown (on_search [] pg))"
  using assms
  by (simp add: on_postsUpdated_def feedPosts_def follow_filter_def on_search_def searchPosts_def
      js_trim_def)

text \<open>C16: The feed of a logged-in user holds exactly the stored posts whose author the user follows or is, and all stored posts when the user follows nobody.\<close>

theorem feedPosts_follow:
  "currentUser s = Some u \<Longrightarrow>
   set (feedPosts s) =
     (if following u = [] then set (getPosts s)
      else {p \<in> set (getPosts s). authorId p \<in> set (following u) \<or> authorId p = user_id u})"
  by (auto simp: feedPosts_def follow_filter_def)

subsection \<open>Witnesses\<close>


definition demo_follower :: user where
  "demo_follower = demo_user\<lparr>following := [''u3'']\<rparr>"

definition demo_follow_sys :: sys where
  "demo_follow_sys = demo_sys\<lparr>storage := (storage demo_sys)\<lparr>st_currentUser := Some demo_follower\<rparr>\<rparr>"

lemma demo_follow_sys_simps [simp]:
  "currentUser demo_follow_sys = Some demo_follower" "getPosts demo_follow_sys = [demo_post1, demo_post2]"
  by (simp_all add: demo_follow_sys_def currentUser_def getPosts_def demo_sys_def)

theorem like_click_parity_witness:
  "getPosts (pg_sys (click (like_click ''p1'') ((fresh_page demo_sys)\<lparr>clickHandlers := 3\<rparr>))) =
   [like_toggled ''u1'' demo_post1, demo_post2]"
  using like_click_parity [of "(fresh_page demo_sys)\<lparr>clickHandlers := 3\<rparr>" demo_user "''p1''" 0]
    demo_posts_wf
  by (simp add: fresh_page_def demo_defs)

theorem comment_click_once_witness:
  "getPosts (pg_sys (click (comment_click (\<lambda>_. ''c1'') 7 ''p1'' ''nice'') ((fresh_page demo_sys)\<lparr>clickHandlers := 2\<rparr>))) =
   [demo_post1\<lparr>comments := [\<lparr>comment_id = ''c1'', comment_authorId = ''u1'', comment_author = ''Ann'',
      comment_text = ''nice'', comment_createdAt = 7\<rparr>]\<rparr>, demo_post2]"
  using comment_click_once [of "(fresh_page demo_sys)\<lparr>clickHandlers := 2\<rparr>" demo_user "''p1''" 0
      "''nice''" "\<lambda>_. ''c1''" 7]
  by (simp add: fresh_page_def demo_defs blank_def js_trim_def is_js_space_def)

theorem hashtag_view_replaced_witness:
  "shown (apply_op (toggleLike ''p1'') (initFeedPage (Some ''test'') (fresh_page demo_sys))) =
   [like_toggled ''u1'' demo_post1, demo_post2]"
  using hashtag_view_replaced [OF demo_currentUser, of "''p1''" 0 "''test''"]
  by (simp add: demo_defs toggleLike_found feedPosts_def follow_filter_def sortPosts_def)

theorem search_ignores_follow_witness:
  "demo_post1 \<notin> set (shown (on_postsUpdated (fresh_page demo_follow_sys))) \<and>
   demo_post1 \<in> set (shown (on_search [] (fresh_page demo_follow_sys)))"
  using search_ignores_follow [of "fresh_page demo_follow_sys" demo_follower demo_post1]
  by (simp add: fresh_page_def demo_follower_def demo_defs)

lemma demo_post_fields:
  "authorId demo_post1 = ''u2''" "authorId demo_post2 = ''u1''" "demo_post1 \<noteq> demo_post2"
  by (simp_all add: demo_post1_def demo_post2_def)

theorem feedPosts_follow_witness:
  "set (feedPosts demo_follow_sys) = {demo_post2}"
proof -
  have "set (feedPosts demo_follow_sys) =
      {p \<in> set [demo_post1, demo_post2]. authorId p \<in> set [''u3''] \<or> authorId p = ''u1''}"
    using feedPosts_follow [of demo_follow_sys demo_follower]
    by (simp add: demo_follower_def demo_user_def)
  also have "\<dots> = {demo_post2}"
    using demo_post_fields by auto
  finally show ?thesis .
qed

subsection \<open>Delete clicks\<close>
lemma deletePost_absent:
  "currentUser s = Some cu \<Longrightarrow> pid \<notin> set (map post_id (getPosts s)) \<Longrightarrow>
   deletePost pid s = (Inl PostNotFound, alert ''Post not found'' s)"
proof -
  assume "currentUser s = Some cu" "pid \<notin> set (map post_id (getPosts s))"
  moreover from this(2) have "find_idx (\<lambda>p. post_id p = pid) (getPosts s) = None"
    by (auto simp: find_idx_None_iff)
  ultimately show ?thesis by (simp add: deletePost_def fail_alert_def)
qed

lemma run_delete_clicks_absent:
  assumes "currentUser (pg_sys pg) = Some cu" and "pid \<notin> set (map post_id (getPosts (pg_sys pg)))"
  shows "pg_sys (run_clicks j n (delete_click (\<lambda>_. True) pid) pg) =
         ((alert ''Post not found'') ^^ n) (pg_sys pg)"
  using assms
proof (induction n arbitrary: j pg)
  case 0
  then show ?case by simp
next
  case (Suc n)
  let ?pg1 = "apply_op (delete_click (\<lambda>_. True) pid j) pg"
  have s1: "pg_sys ?pg1 = alert ''Post not found'' (pg_sys pg)"
    using Suc.prems by (simp add: delete_click_def deletePost_absent)
  have "pg_sys (run_clicks (Suc j) n (delete_click (\<lambda>_. True) pid) ?pg1) =
      ((alert ''Post not found'') ^^ n) (pg_sys ?pg1)"
    using Suc.prems s1 by (intro Suc.IH) simp_all
  with s1 show ?case by (simp add: funpow_Suc_right del: funpow.simps)
qed

lemma alert_pow:
  "getPosts ((alert m ^^ n) s) = getPosts s \<and> alerts ((alert m ^^ n) s) = alerts s @ replicate n m"
  by (induction n) (simp_all add: replicate_append_same)

text \<open>C22: A confirmed delete click by the author with n+1 attached click listeners removes the post once, and each of the n later listeners calls deletePost again and alerts "Post not found".\<close>

theorem delete_click_repeats:
  assumes cu: "currentUser (pg_sys pg) = Some cu"
    and ids: "ids_ok (pg_sys pg)"
    and i: "find_idx (\<lambda>p. post_id p = pid) (getPosts (pg_sys pg)) = Some i"
    and own: "authorId (getPosts (pg_sys pg) ! i) = user_id cu"
    and k: "clickHandlers pg = Suc n"
  shows "getPosts (pg_sys (click (delete_click (\<lambda>_. True) pid) pg)) = remove_at i (getPosts (pg_sys pg)) \<and>
         alerts (pg_sys (click (delete_click (\<lambda>_. True) pid) pg)) =
           alerts (pg_sys pg) @ replicate n ''Post not found''"
proof -
  let ?ps = "getPosts (pg_sys pg)"
  let ?pg1 = "apply_op (delete_click (\<lambda>_. True) pid 0) pg"
  have s1: "pg_sys ?pg1 = dispatch_postsUpdated (setPosts (remove_at i ?ps) (pg_sys pg))"
    using cu i own by (simp add: delete_click_def deletePost_def commit_def)
  have len: "i < length ?ps" using i by (rule find_idx_less)
  have "pid = post_id (?ps ! i)" using find_idx_nth [OF i] by simp
  moreover have "distinct (map post_id ?ps)" using ids by (simp add: ids_ok_def)
  ultimately have absent: "pid \<notin> set (map post_id (remove_at i ?ps))"
    using len by (simp add: map_remove_at remove_at_nth_notin [of "map post_id ?ps" i, simplified])
  have "pg_sys (run_clicks (Suc 0) n (delete_click (\<lambda>_. True) pid) ?pg1) =
      ((alert ''Post not found'') ^^ n) (pg_sys ?pg1)"
    using cu absent s1 by (intro run_delete_clicks_absent) simp_all
  with s1 alert_pow show ?thesis
    by (simp add: click_def k)
qed

theorem delete_click_repeats_witness:
  "getPosts (pg_sys (click (delete_click (\<lambda>_. True) ''p2'') (initFeedPage None (fresh_page demo_sys)))) =
     [demo_post1] \<and>
   alerts (pg_sys (click (delete_click (\<lambda>_. True) ''p2'') (initFeedPage None (fresh_page demo_sys)))) =
     [''Post not found'']"
proof -
  have ne: "feedPosts demo_sys \<noteq> []" by (simp add: feedPosts_def follow_filter_def demo_defs)
  have ids: "ids_ok demo_sys" by (simp add: ids_ok_def demo_defs)
  show ?thesis
    using delete_click_repeats [of "initFeedPage None (fresh_page demo_sys)" demo_user "''p2''" 1 1]
      initFeedPage_None [OF ne] ids
    by (simp add: demo_defs remove_at_def)
qed

end
