(* ===== verification/Feed_Edit.thy ===== *)
theory Feed_Edit
  imports Feed
begin

text \<open>
  The remaining branches of the feed container's listeners (feed.js
  \<open>attachPostEventListeners\<close>): \<open>edit\<close> opens an edit form under the post card,
  \<open>edit-save\<close> reads the form's fields and calls \<open>editPost\<close>, \<open>edit-cancel\<close>
  re-renders the feed, \<open>toggle-comments\<close> toggles the comment section's \<open>hidden\<close>
  class, \<open>delete-comment\<close> confirms and calls \<open>deleteComment\<close>, and the keypress
  listener submits a comment on Enter. These handlers act on the page, so a click runs
  \<open>clickHandlers\<close> copies of a page transformer (\<open>page_click\<close>), each copy seeing the
  DOM the previous ones left: a copy that triggers \<open>postsUpdated\<close> re-renders the
  feed and so removes the edit form the next copy reads.
\<close>

fun run_page_clicks :: "nat \<Rightarrow> nat \<Rightarrow> (nat \<Rightarrow> page \<Rightarrow> page) \<Rightarrow> page \<Rightarrow> page" where
  "run_page_clicks i 0 h pg = pg"
| "run_page_clicks i (Suc n) h pg = run_page_clicks (Suc i) n h (h i pg)"

definition page_click :: "(nat \<Rightarrow> page \<Rightarrow> page) \<Rightarrow> page \<Rightarrow> page" where
  "page_click h pg = run_page_clicks 0 (clickHandlers pg) h pg"

definition page_keypress :: "(nat \<Rightarrow> page \<Rightarrow> page) \<Rightarrow> page \<Rightarrow> page" where
  "page_keypress h pg = run_page_clicks 0 (keyHandlers pg) h pg"

text \<open>\<open>document.getElementById(`post-${postId}`)\<close>: the card exists when the post is shown.\<close>

definition card_shown :: "string \<Rightarrow> page \<Rightarrow> bool" where
  "card_shown pid pg \<longleftrightarrow> list_ex (\<lambda>p. post_id p = pid) (shown pg)"

definition edit_form :: "string \<Rightarrow> page \<Rightarrow> (string \<times> string \<times> string) option" where
  "edit_form pid pg = find (\<lambda>f. fst f = pid) (editForms pg)"

definition edit_click :: "string \<Rightarrow> nat \<Rightarrow> page \<Rightarrow> page" where
  "edit_click pid i pg =
     (if \<not> card_shown pid pg then pg
      else if edit_form pid pg \<noteq> None then pg
      else case find (\<lambda>p. post_id p = pid) (getPosts (pg_sys pg)) of
        None \<Rightarrow> pg
      | Some p \<Rightarrow>
          pg\<lparr>editForms := editForms pg @
               [(pid, post_text p, case imageUrl p of None \<Rightarrow> [] | Some u \<Rightarrow> u)]\<rparr>)"

definition edit_save_click :: "url_parser \<Rightarrow> string \<Rightarrow> nat \<Rightarrow> page \<Rightarrow> page" where
  "edit_save_click parses pid i pg =
     (if \<not> card_shown pid pg then pg
      else
        let newText = (case edit_form pid pg of None \<Rightarrow> [] | Some (_, t, _) \<Rightarrow> t);
            newImage = (case edit_form pid pg of None \<Rightarrow> [] | Some (_, _, u) \<Rightarrow> u)
        in apply_op (editPost parses pid newText newImage) pg)"

definition edit_cancel_click :: "nat \<Rightarrow> page \<Rightarrow> page" where
  "edit_cancel_click i pg = renderFeed (sortPosts (feedPosts (pg_sys pg)) (sort_choice pg)) pg"

definition toggle_comments_click :: "string \<Rightarrow> nat \<Rightarrow> page \<Rightarrow> page" where
  "toggle_comments_click pid i pg =
     (if card_shown pid pg
      then pg\<lparr>openComments :=
             (if pid \<in> set (openComments pg) then removeAll pid (openComments pg)
              else openComments pg @ [pid])\<rparr>
      else pg)"

definition delete_comment_click :: "(nat \<Rightarrow> bool) \<Rightarrow> string \<Rightarrow> string \<Rightarrow> nat \<Rightarrow> page \<Rightarrow> page" where
  "delete_comment_click confirmed pid cid i pg =
     (if confirmed i then apply_op (deleteComment pid cid) pg else pg)"

text \<open>The keypress listener: Enter in a comment input submits it and clears it; later
  copies see the cleared input.\<close>

definition enter_key :: "(nat \<Rightarrow> string) \<Rightarrow> time \<Rightarrow> string \<Rightarrow> string \<Rightarrow> nat \<Rightarrow> page \<Rightarrow> page" where
  "enter_key fresh now pid typed i pg =
     apply_op (addComment (fresh i) now pid (if i = 0 then typed else [])) pg"

text \<open>The user typing into an open edit form (not program code).\<close>

definition type_edit :: "string \<Rightarrow> string \<Rightarrow> string \<Rightarrow> page \<Rightarrow> page" where
  "type_edit pid t u pg =
     pg\<lparr>editForms := map (\<lambda>f. if fst f = pid then (pid, t, u) else f) (editForms pg)\<rparr>"

definition edit_session :: "url_parser \<Rightarrow> string \<Rightarrow> string \<Rightarrow> string \<Rightarrow> page \<Rightarrow> page" where
  "edit_session parses pid t u pg =
     page_click (edit_save_click parses pid) (type_edit pid t u (page_click (edit_click pid) pg))"

text \<open>\<open>initPostCreation\<close> (posts.js): the composer's text input and the optional image
  input (\<open>None\<close> when the page has no \<open>#postImage\<close>); a click on \<open>#postBtn\<close> calls
  \<open>createPost\<close> and clears the inputs only when it returned a post.\<close>

record composer =
  postInput :: string
  postImage :: "string option"

definition post_btn_click ::
  "url_parser \<Rightarrow> string \<Rightarrow> time \<Rightarrow> sys \<times> composer \<Rightarrow> sys \<times> composer" where
  "post_btn_click parses fresh now st =
     (let (s, c) = st;
          r = createPost parses fresh now (postInput c) (case postImage c of None \<Rightarrow> [] | Some v \<Rightarrow> v) s
      in (snd r, case fst r of
                   Inr _ \<Rightarrow> c\<lparr>postInput := [], postImage := map_option (\<lambda>_. []) (postImage c)\<rparr>
                 | Inl _ \<Rightarrow> c))"

subsection \<open>Page handler lemmas\<close>

lemma post_btn_click_inputs:
  "snd (post_btn_click P fresh now (s, c)) =
   (if isl (fst (createPost P fresh now (postInput c) (case postImage c of None \<Rightarrow> [] | Some v \<Rightarrow> v) s))
    then c else c\<lparr>postInput := [], postImage := map_option (\<lambda>_. []) (postImage c)\<rparr>)"
  by (simp add: post_btn_click_def Let_def split: sum.split)

lemma page_click_two: "clickHandlers pg = 2 \<Longrightarrow> page_click h pg = h 1 (h 0 pg)"
  by (simp add: page_click_def numeral_2_eq_2)

lemma renderFeed_dom [simp]:
  "editForms (renderFeed ps pg) = []" "openComments (renderFeed ps pg) = []"
  by (simp_all add: renderFeed_def)

lemma editForms_deliver: "editForms (deliver (Suc n) pg) = []"
proof (induction n arbitrary: pg)
  case 0
  then show ?case by (simp add: on_postsUpdated_def)
next
  case (Suc n)
  then show ?case by (metis deliver.simps(2))
qed

lemma initFeedPage_None_dom:
  "editForms (initFeedPage None (fresh_page s)) = [] \<and>
   shown (initFeedPage None (fresh_page s)) = sortPosts (feedPosts s) ''latest''"
  by (simp add: initFeedPage_def initHashtagFilter_def initFeed_def fresh_page_def Let_def)

lemma apply_op_quiet:
  "events (snd (f (pg_sys pg))) = events (pg_sys pg) \<Longrightarrow> apply_op f pg = pg\<lparr>pg_sys := snd (f (pg_sys pg))\<rparr>"
  by (simp add: apply_op_def Let_def)

lemma apply_op_broadcast:
  "events (snd (f (pg_sys pg))) = events (pg_sys pg) @ [PostsUpdated] \<Longrightarrow>
   apply_op f pg = deliver (updListeners pg) (pg\<lparr>pg_sys := snd (f (pg_sys pg))\<rparr>)"
  by (simp add: apply_op_def Let_def)

lemma own_post_shown:
  assumes "currentUser s = Some cu" "p \<in> set (getPosts s)" "authorId p = user_id cu"
  shows "p \<in> set (sortPosts (feedPosts s) b)"
  using assms by (simp add: feedPosts_def follow_filter_def)

lemma card_shown_member: "p \<in> set (shown pg) \<Longrightarrow> card_shown (post_id p) pg"
  by (auto simp: card_shown_def list_ex_iff)

lemma edit_clicks_open:
  assumes two: "clickHandlers pg = 2" and card: "card_shown pid pg" and nf: "editForms pg = []"
    and p: "find (\<lambda>p. post_id p = pid) (getPosts (pg_sys pg)) = Some p"
  shows "page_click (edit_click pid) pg =
         pg\<lparr>editForms := [(pid, post_text p, case imageUrl p of None \<Rightarrow> [] | Some u \<Rightarrow> u)]\<rparr>"
  using card nf p by (simp add: page_click_two [OF two] edit_click_def edit_form_def card_shown_def)

lemma edit_save_empty_form:
  assumes card: "card_shown pid pg" and nf: "editForms pg = []" and cu: "currentUser (pg_sys pg) = Some cu"
  shows "edit_save_click P pid i pg =
         pg\<lparr>pg_sys := alert ''Post content cannot be empty'' (pg_sys pg)\<rparr>"
proof -
  have "editPost P pid [] [] (pg_sys pg) =
      (Inl EmptyContent, alert ''Post content cannot be empty'' (pg_sys pg))"
    using cu by (simp add: editPost_def fail_alert_def blank_def)
  then show ?thesis
    using card nf by (simp add: edit_save_click_def edit_form_def apply_op_quiet)
qed

text \<open>With the two container listeners present after load, a click on "comments" toggles
  the section twice: it stays hidden (or shown) whatever the user clicks.\<close>

lemma toggle_comments_after_load:
  assumes "clickHandlers pg = 2" "card_shown pid pg"
  shows "pid \<in> set (openComments (page_click (toggle_comments_click pid) pg)) \<longleftrightarrow>
         pid \<in> set (openComments pg)"
  using assms by (simp add: page_click_two toggle_comments_click_def card_shown_def)

text \<open>C40: On the feed page as loaded without a hashtag filter (two container click
  listeners), an author who opens the edit form of their post, types a non-blank text and
  a valid or empty image URL and clicks Save gets the edit stored, and then the alert
  "Post content cannot be empty": the first listener's save re-renders the feed and
  removes the form, and the second listener reads the missing textarea as empty text.\<close>

theorem edit_save_after_load:
  assumes cu: "currentUser s = Some cu"
    and i: "find_idx (\<lambda>p. post_id p = pid) (getPosts s) = Some i"
    and own: "authorId (getPosts s ! i) = user_id cu"
    and t: "\<not> blank t" and u: "isValidUrl P u"
  shows "getPosts (pg_sys (edit_session P pid t u (initFeedPage None (fresh_page s)))) =
           (getPosts s)[i := (getPosts s ! i)\<lparr>post_text := js_trim t, imageUrl := stored_image u\<rparr>] \<and>
         alerts (pg_sys (edit_session P pid t u (initFeedPage None (fresh_page s)))) =
           alerts s @ [''Post content cannot be empty'']"
proof -
  let ?p = "getPosts s ! i"
  let ?p' = "?p\<lparr>post_text := js_trim t, imageUrl := stored_image u\<rparr>"
  let ?ps' = "(getPosts s)[i := ?p']"
  let ?pg0 = "initFeedPage None (fresh_page s)"
  let ?img = "case imageUrl ?p of None \<Rightarrow> [] | Some v \<Rightarrow> v"
  have il: "i < length (getPosts s)" and pid: "post_id ?p = pid"
    using find_idx_SomeD [OF i] by simp_all
  have mem: "?p \<in> set (getPosts s)" using il by simp
  have shown0: "?p \<in> set (shown ?pg0)"
    using initFeedPage_None_dom [of s] own_post_shown [OF cu mem own] by simp
  then have "?p \<in> set (feedPosts s)" using initFeedPage_None_dom [of s] by simp
  then have nonempty: "feedPosts s \<noteq> []" by (cases "feedPosts s") simp_all
  note pg0 = initFeedPage_None [OF nonempty] initFeedPage_None_dom [of s]
  have card0: "card_shown pid ?pg0" using card_shown_member [OF shown0] pid by simp
  have fp: "find (\<lambda>p. post_id p = pid) (getPosts s) = Some ?p"
    using i by (simp add: find_conv_find_idx)
  define pg2 where "pg2 = ?pg0\<lparr>editForms := [(pid, t, u)]\<rparr>"
  have open2: "type_edit pid t u (page_click (edit_click pid) ?pg0) = pg2"
    using edit_clicks_open [of ?pg0 pid ?p] pg0 card0 fp by (simp add: type_edit_def pg2_def)
  have ep: "editPost P pid t u s = commit ?ps' ?p' s"
    using cu i own t u by (simp add: editPost_def Let_def)
  define pg3 where "pg3 = deliver 2 (pg2\<lparr>pg_sys := dispatch_postsUpdated (setPosts ?ps' s)\<rparr>)"
  have first: "edit_save_click P pid 0 pg2 = pg3"
    using card0 pg0 ep
    by (simp add: pg2_def pg3_def edit_save_click_def edit_form_def card_shown_def commit_def apply_op_broadcast)
  have sys3: "pg_sys pg3 = dispatch_postsUpdated (setPosts ?ps' s)" by (simp add: pg3_def)
  have forms3: "editForms pg3 = []" unfolding pg3_def numeral_2_eq_2 by (rule editForms_deliver)
  have "?p' \<in> set (getPosts (pg_sys pg3))" using il sys3 by (simp add: set_update_memI)
  then have "?p' \<in> set (shown pg3)"
    using own_post_shown [of "pg_sys pg3" cu ?p'] cu own sys3 shown_deliver [of 1]
    by (simp add: pg3_def numeral_2_eq_2)
  then have card3: "card_shown pid pg3" using card_shown_member pid by fastforce
  have two: "clickHandlers pg2 = 2" using pg0 by (simp add: pg2_def)
  have "edit_session P pid t u ?pg0 = edit_save_click P pid 1 pg3"
    unfolding edit_session_def open2 page_click_two [OF two] first ..
  also have "\<dots> = pg3\<lparr>pg_sys := alert ''Post content cannot be empty'' (pg_sys pg3)\<rparr>"
    using card3 forms3 cu sys3 by (intro edit_save_empty_form) simp_all
  finally show ?thesis using sys3 by (simp add: alert_def setPosts_def getPosts_def dispatch_postsUpdated_def)
qed

theorem edit_save_after_load_witness:
  "alerts (pg_sys (edit_session (\<lambda>_. True) ''p2'' ''edited'' [] (initFeedPage None (fresh_page demo_sys)))) =
   [''Post content cannot be empty''] \<and>
   getPosts (pg_sys (edit_session (\<lambda>_. True) ''p2'' ''edited'' [] (initFeedPage None (fresh_page demo_sys)))) =
   [demo_post1, demo_post2\<lparr>post_text := ''edited'', imageUrl := None\<rparr>]"
  using edit_save_after_load [OF demo_currentUser, of "''p2''" 1 "''edited''" "\<lambda>_. True" "[]"]
  by (simp add: demo_defs blank_def js_trim_def is_js_space_def isValidUrl_def stored_image_def)

end
