(* ===== verification/Profile.thy ===== *)
theory Profile
  imports Utils
begin

text \<open>
  The theme switch and the user-profile helpers of utils.js. The page's root element is
  the record \<open>doc\<close>: whether it carries the \<open>dark\<close> class, the toggle button's
  \<open>aria-pressed\<close> attribute (\<open>None\<close> before \<open>initTheme\<close> sets it) and the number of
  click listeners on the button. \<open>updateUserProfile\<close> takes the \<open>updates\<close> object as
  a function \<open>user \<Rightarrow> user\<close>: \<open>Object.assign(user, updates)\<close> and
  \<open>{...currentUser, ...updates}\<close> both overwrite the fields \<open>updates\<close> carries.
\<close>

record doc =
  root_dark :: bool
  aria_pressed :: "bool option"
  theme_listeners :: nat

definition fresh_doc :: doc where
  "fresh_doc = \<lparr>root_dark = False, aria_pressed = None, theme_listeners = 0\<rparr>"

subsection \<open>Theme (\<open>getTheme\<close>, \<open>saveTheme\<close>, \<open>applyTheme\<close>, \<open>toggleTheme\<close>, \<open>initTheme\<close>)\<close>

definition getTheme :: "sys \<Rightarrow> string" where
  "getTheme s = (case st_theme (storage s) of None \<Rightarrow> ''light'' | Some t \<Rightarrow> if t = [] then ''light'' else t)"

definition saveTheme :: "string \<Rightarrow> sys \<Rightarrow> sys" where
  "saveTheme theme s = s\<lparr>storage := (storage s)\<lparr>st_theme := Some theme\<rparr>\<rparr>"

definition applyTheme :: "string \<Rightarrow> doc \<Rightarrow> doc" where
  "applyTheme theme d = d\<lparr>root_dark := (theme = ''dark'')\<rparr>"

definition toggleTheme :: "sys \<times> doc \<Rightarrow> string \<times> sys \<times> doc" where
  "toggleTheme st =
     (let (s, d) = st; current = getTheme s;
          next = (if current = ''dark'' then ''light'' else ''dark'')
      in (next, saveTheme next s, applyTheme next d))"

definition theme_handler :: "sys \<times> doc \<Rightarrow> sys \<times> doc" where
  "theme_handler st =
     (let (newTheme, s, d) = toggleTheme st in (s, d\<lparr>aria_pressed := Some (newTheme = ''dark'')\<rparr>))"

definition initTheme :: "bool \<Rightarrow> sys \<times> doc \<Rightarrow> sys \<times> doc" where
  "initTheme has_button st =
     (let (s, d) = st; theme = getTheme s; d1 = applyTheme theme d
      in (s, if has_button
             then d1\<lparr>aria_pressed := Some (theme = ''dark''), theme_listeners := Suc (theme_listeners d1)\<rparr>
             else d1))"

definition theme_click :: "sys \<times> doc \<Rightarrow> sys \<times> doc" where
  "theme_click st = (theme_handler ^^ theme_listeners (snd st)) st"

subsection \<open>Users (\<open>getUserById\<close>, \<open>updateUserProfile\<close>)\<close>

definition getUserById :: "uid \<Rightarrow> sys \<Rightarrow> user option" where
  "getUserById userId s = find (\<lambda>u. user_id u = userId) (getUsers s)"

definition updateUserProfile :: "uid \<Rightarrow> (user \<Rightarrow> user) \<Rightarrow> sys \<Rightarrow> sys" where
  "updateUserProfile userId updates s =
     (let users = getUsers s in
      case find_idx (\<lambda>u. user_id u = userId) users of
        None \<Rightarrow> s
      | Some i \<Rightarrow>
          let s1 = setUsers (users[i := updates (users ! i)]) s in
          (case currentUser s1 of
             Some cu \<Rightarrow> if user_id cu = userId then setCurrentUser (Some (updates cu)) s1 else s1
           | None \<Rightarrow> s1))"

definition session_synced :: "sys \<Rightarrow> bool" where
  "session_synced s = (case currentUser s of None \<Rightarrow> True | Some cu \<Rightarrow> getUserById (user_id cu) s = Some cu)"

definition keeps_ids :: "(user \<Rightarrow> user) \<Rightarrow> bool" where
  "keeps_ids updates \<longleftrightarrow> (\<forall>u. user_id (updates u) = user_id u)"

definition theme_ok :: "sys \<times> doc \<Rightarrow> bool" where
  "theme_ok st \<longleftrightarrow>
     (let (s, d) = st; dark = (getTheme s = ''dark'')
      in root_dark d = dark \<and> aria_pressed d \<in> {None, Some dark})"

inductive theme_reach :: "sys \<times> doc \<Rightarrow> bool" where
  init: "theme_reach (initTheme b (s, fresh_doc))"
| click: "theme_reach st \<Longrightarrow> theme_reach (theme_click st)"
| other: "theme_reach (s, d) \<Longrightarrow> st_theme (storage s') = st_theme (storage s) \<Longrightarrow> theme_reach (s', d)"

subsection \<open>Theme properties\<close>

lemma getTheme_saveTheme [simp]: "theme \<noteq> [] \<Longrightarrow> getTheme (saveTheme theme s) = theme"
  by (simp add: getTheme_def saveTheme_def)

lemma theme_handler_ok: "theme_ok st \<Longrightarrow> theme_ok (theme_handler st)"
  by (cases st) (simp add: theme_handler_def toggleTheme_def theme_ok_def applyTheme_def Let_def)

lemma theme_handler_pow_ok: "theme_ok st \<Longrightarrow> theme_ok ((theme_handler ^^ n) st)"
  by (induction n) (simp_all add: theme_handler_ok)

lemma theme_handler_listeners: "theme_listeners (snd (theme_handler st)) = theme_listeners (snd st)"
  by (cases st) (simp add: theme_handler_def toggleTheme_def applyTheme_def Let_def)

lemma getTheme_toggleTheme: "getTheme (fst (snd (toggleTheme st))) = (if getTheme (fst st) = ''dark'' then ''light'' else ''dark'')"
  by (cases st) (simp add: toggleTheme_def Let_def)

text \<open>C28: In every state the page can reach (the theme initialised, the toggle button
  clicked, other storage writes), the root element has the dark class exactly when the
  stored theme is dark, and the button's aria-pressed, once set, says the same.\<close>

theorem theme_reach_ok: "theme_reach st \<Longrightarrow> theme_ok st"
proof (induction rule: theme_reach.induct)
  case (init b s)
  then show ?case by (simp add: initTheme_def theme_ok_def applyTheme_def fresh_doc_def Let_def)
next
  case (click st)
  then show ?case by (simp add: theme_click_def theme_handler_pow_ok)
next
  case (other s d s')
  then show ?case by (simp add: theme_ok_def getTheme_def)
qed

text \<open>C29: Toggling twice restores a light or dark theme and normalises any other stored
  value to light.\<close>

theorem toggleTheme_twice:
  "getTheme (fst (snd (toggleTheme (snd (toggleTheme st))))) =
   (if getTheme (fst st) = ''dark'' then ''dark'' else ''light'')"
  by (simp add: getTheme_toggleTheme)

subsection \<open>Profile properties\<close>

lemma getUserById_updateUserProfile:
  assumes "keeps_ids updates"
  shows "getUserById v (updateUserProfile userId updates s) =
         (if v = userId then map_option updates (getUserById v s) else getUserById v s)"
proof (cases "find_idx (\<lambda>u. user_id u = userId) (getUsers s)")
  case None
  then show ?thesis by (simp add: updateUserProfile_def getUserById_def find_conv_find_idx)
next
  case (Some i)
  have keep: "\<forall>x. (user_id (updates x) = v) = (user_id x = v)"
    using assms by (simp add: keeps_ids_def)
  have s1: "getUserById v (updateUserProfile userId updates s) =
      find (\<lambda>u. user_id u = v) ((getUsers s)[i := updates (getUsers s ! i)])"
    using Some by (simp add: updateUserProfile_def getUserById_def Let_def split: option.split)
  have upd: "find (\<lambda>u. user_id u = v) ((getUsers s)[i := updates (getUsers s ! i)]) =
      map_option (\<lambda>j. if j = i then updates (getUsers s ! i) else getUsers s ! j)
        (find_idx (\<lambda>u. user_id u = v) (getUsers s))"
    using keep find_idx_less [OF Some] by (intro find_update_eq) auto
  show ?thesis
  proof (cases "v = userId")
    case True
    with Some show ?thesis unfolding s1 upd by (simp add: getUserById_def find_conv_find_idx)
  next
    case False
    have "find_idx (\<lambda>u. user_id u = v) (getUsers s) \<noteq> Some i"
      using False find_idx_nth [OF Some] find_idx_nth [of "\<lambda>u. user_id u = v"] by fastforce
    then show ?thesis
      using False unfolding s1 upd by (cases "find_idx (\<lambda>u. user_id u = v) (getUsers s)")
        (simp_all add: getUserById_def find_conv_find_idx)
  qed
qed

lemma currentUser_updateUserProfile:
  "currentUser (updateUserProfile userId updates s) =
   (case currentUser s of
      Some cu \<Rightarrow> if user_id cu = userId \<and> getUserById userId s \<noteq> None then Some (updates cu) else Some cu
    | None \<Rightarrow> None)"
  by (auto simp: updateUserProfile_def getUserById_def find_conv_find_idx Let_def
      split: option.split)

lemma updateUserProfile_synced:
  assumes ids: "keeps_ids updates" and synced: "session_synced s"
  shows "session_synced (updateUserProfile userId updates s)"
proof (cases "currentUser s")
  case None
  then show ?thesis by (simp add: session_synced_def currentUser_updateUserProfile)
next
  case (Some cu)
  then have cu: "getUserById (user_id cu) s = Some cu"
    using synced by (simp add: session_synced_def)
  have "user_id (updates cu) = user_id cu"
    using ids by (simp add: keeps_ids_def)
  then show ?thesis
    using Some cu by (auto simp: session_synced_def currentUser_updateUserProfile
        getUserById_updateUserProfile [OF ids])
qed

subsection \<open>Witnesses\<close>

definition demo_ann :: user where
  "demo_ann = \<lparr>user_id = ''u1'', name = ''Ann'', email = ''ann@example.com'', password = ''3604b150'',
     user_createdAt = 0, bio = [], profilePic = [], followers = [], following = []\<rparr>"

definition demo_profile_sys :: sys where
  "demo_profile_sys = \<lparr>storage = empty_store\<lparr>st_users := Some [demo_ann], st_currentUser := Some demo_ann,
     st_theme := Some ''dark''\<rparr>, events = [], alerts = []\<rparr>"

definition set_bio :: "user \<Rightarrow> user" where
  "set_bio u = u\<lparr>bio := ''hello''\<rparr>"

lemma demo_profile_sys_simps [simp]:
  "getUsers demo_profile_sys = [demo_ann]" "currentUser demo_profile_sys = Some demo_ann"
  "getTheme demo_profile_sys = ''dark''"
  by (simp_all add: demo_profile_sys_def getUsers_def currentUser_def getTheme_def empty_store_def)

lemma keeps_ids_set_bio: "keeps_ids set_bio"
  by (simp add: keeps_ids_def set_bio_def)

theorem theme_reach_ok_witness:
  "theme_ok (theme_click (initTheme True (demo_profile_sys, fresh_doc))) \<and>
   root_dark (snd (theme_click (initTheme True (demo_profile_sys, fresh_doc)))) = False"
proof -
  have r: "theme_reach (theme_click (initTheme True (demo_profile_sys, fresh_doc)))"
    by (intro theme_reach.click theme_reach.init)
  have "root_dark (snd (theme_click (initTheme True (demo_profile_sys, fresh_doc)))) = False"
    by (simp add: theme_click_def initTheme_def theme_handler_def toggleTheme_def applyTheme_def
        fresh_doc_def Let_def)
  then show ?thesis using theme_reach_ok [OF r] by simp
qed

end
