(* ===== verification/Auth.thy ===== *)
theory Auth
  imports Profile
begin

text \<open>
  The form handlers of auth.js. Each submit handler reads its form fields (given as
  arguments, untrimmed), runs the validation chain of the source in order, and either
  alerts and returns (\<open>Inl\<close> with the reason) or writes storage and navigates
  (\<open>Inr\<close> with the target page). \<open>Date.now()\<close> is the argument \<open>now\<close>.
\<close>

datatype auth_err = MissingFields | InvalidEmail | ShortPassword | PasswordMismatch
  | EmailTaken | BadCredentials

type_synonym 'a auth_outcome = "(auth_err + 'a) \<times> sys"

definition auth_fail :: "auth_err \<Rightarrow> string \<Rightarrow> sys \<Rightarrow> 'a auth_outcome" where
  "auth_fail e msg s = (Inl e, alert msg s)"

definition new_user :: "time \<Rightarrow> string \<Rightarrow> string \<Rightarrow> string \<Rightarrow> user" where
  "new_user now nm em pw =
     \<lparr>user_id = js_int_string now, name = nm, email = em, password = hashPassword pw,
      user_createdAt = now, bio = [],
      profilePic = ''https://api.dicebear.com/7.x/avataaars/svg?seed='' @ nm,
      followers = [], following = []\<rparr>"

definition signup :: "time \<Rightarrow> string \<Rightarrow> string \<Rightarrow> string \<Rightarrow> string \<Rightarrow> sys \<Rightarrow> string auth_outcome" where
  "signup now name_in email_in pw confirmPw s =
     (let nm = js_trim name_in; em = js_trim email_in in
      if nm = [] \<or> em = [] \<or> pw = [] \<or> confirmPw = [] then auth_fail MissingFields ''All fields are required'' s
      else if \<not> isValidEmail em then auth_fail InvalidEmail ''Please enter a valid email address'' s
      else if length pw < 6 then auth_fail ShortPassword ''Password must be at least 6 characters'' s
      else if pw \<noteq> confirmPw then auth_fail PasswordMismatch ''Passwords do not match'' s
      else let users = getUsers s in
        if find (\<lambda>u. email u = em) users \<noteq> None
        then auth_fail EmailTaken ''User already exists with this email'' s
        else (Inr ''./login.html'',
              alert ''Signup successful! Please log in.'' (setUsers (users @ [new_user now nm em pw]) s)))"

definition login :: "string \<Rightarrow> string \<Rightarrow> sys \<Rightarrow> string auth_outcome" where
  "login email_in pw s =
     (let em = js_trim email_in in
      if em = [] \<or> pw = [] then auth_fail MissingFields ''Email and password are required'' s
      else case find (\<lambda>u. email u = em \<and> password u = hashPassword pw) (getUsers s) of
        None \<Rightarrow> auth_fail BadCredentials ''Invalid email or password'' s
      | Some u \<Rightarrow> (Inr ''./index.html'', setCurrentUser (Some u) s))"

definition logout :: "sys \<Rightarrow> string \<times> sys" where
  "logout s = (''./index.html'', setCurrentUser None s)"

text \<open>\<open>updateWelcomeMessage\<close>: the text of \<open>#welcomeUser\<close> when a user is logged in;
  \<open>protectPage\<close> has an empty body.\<close>

definition welcome_message :: "sys \<Rightarrow> string option" where
  "welcome_message s = map_option (\<lambda>u. ''Welcome, '' @ name u) (currentUser s)"

definition protectPage :: "sys \<Rightarrow> sys" where
  "protectPage s = s"

definition emails_distinct :: "sys \<Rightarrow> bool" where
  "emails_distinct s \<longleftrightarrow> distinct (map email (getUsers s))"

definition ids_distinct :: "sys \<Rightarrow> bool" where
  "ids_distinct s \<longleftrightarrow> distinct (map user_id (getUsers s))"

subsection \<open>Signup and login properties\<close>

lemma signup_success:
  assumes "fst (signup now nm em pw cpw s) = Inr r"
  shows "js_trim nm \<noteq> [] \<and> isValidEmail (js_trim em) \<and> 6 \<le> length pw \<and> cpw = pw \<and>
         (\<forall>u\<in>set (getUsers s). email u \<noteq> js_trim em) \<and>
         snd (signup now nm em pw cpw s) =
           alert ''Signup successful! Please log in.''
             (setUsers (getUsers s @ [new_user now (js_trim nm) (js_trim em) pw]) s)"
  using assms by (auto simp: signup_def auth_fail_def Let_def find_None_iff split: if_splits)

lemma signup_fail_frame:
  "fst (signup now nm em pw cpw s) = Inl e \<Longrightarrow> getUsers (snd (signup now nm em pw cpw s)) = getUsers s \<and>
     currentUser (snd (signup now nm em pw cpw s)) = currentUser s"
  by (auto simp: signup_def auth_fail_def Let_def split: if_splits)

lemma welcome_after_logout: "welcome_message (snd (logout s)) = None"
  by (simp add: welcome_message_def logout_def)

lemma find_append_unique:
  "\<forall>x\<in>set xs. \<not> P x \<Longrightarrow> P y \<Longrightarrow> find P (xs @ [y]) = Some y"
  by (induction xs) auto

text \<open>C32: Signing up and then logging in with the same e-mail and password succeeds,
  navigates to the feed and makes the newly created user the current user.\<close>

theorem signup_then_login:
  assumes ok: "fst (signup now nm em pw cpw s) = Inr r"
  shows "login em pw (snd (signup now nm em pw cpw s)) =
         (Inr ''./index.html'',
          setCurrentUser (Some (new_user now (js_trim nm) (js_trim em) pw)) (snd (signup now nm em pw cpw s)))"
proof -
  note su = signup_success [OF ok]
  let ?u = "new_user now (js_trim nm) (js_trim em) pw"
  have st: "snd (signup now nm em pw cpw s) =
      alert ''Signup successful! Please log in.'' (setUsers (getUsers s @ [?u]) s)"
    using su by blast
  have em: "js_trim em \<noteq> []" "pw \<noteq> []"
    using su by (auto simp: isValidEmail_scan email_scan_def email_seg_def Let_def)
  have "find (\<lambda>u. email u = js_trim em \<and> password u = hashPassword pw) (getUsers s @ [?u]) = Some ?u"
    using su by (intro find_append_unique) (auto simp: new_user_def)
  then show ?thesis
    unfolding st using em by (simp add: login_def Let_def)
qed

text \<open>C33: Login depends on the password only through its hash: a different password
  with the same hash logs in exactly as the right one does.\<close>

theorem login_same_hash:
  assumes "hashPassword pw' = hashPassword pw" "pw' \<noteq> []" "pw \<noteq> []"
  shows "login em pw' s = login em pw s"
  unfolding login_def assms(1) using assms(2,3) by simp

text \<open>C34: A successful signup keeps e-mail addresses unique, and keeps user ids unique
  exactly when no stored user already has the id \<open>Date.now().toString()\<close>: two signups
  in the same millisecond produce two users with one id.\<close>

theorem signup_unique:
  assumes ok: "fst (signup now nm em pw cpw s) = Inr r"
  shows "(emails_distinct s \<longrightarrow> emails_distinct (snd (signup now nm em pw cpw s))) \<and>
         (ids_distinct (snd (signup now nm em pw cpw s)) \<longleftrightarrow>
            ids_distinct s \<and> js_int_string now \<notin> user_id ` set (getUsers s))"
proof -
  note su = signup_success [OF ok]
  have st: "snd (signup now nm em pw cpw s) =
      alert ''Signup successful! Please log in.''
        (setUsers (getUsers s @ [new_user now (js_trim nm) (js_trim em) pw]) s)"
    using su by blast
  have "js_trim em \<notin> email ` set (getUsers s)"
    using su by auto
  then show ?thesis
    unfolding st by (auto simp: emails_distinct_def ids_distinct_def new_user_def)
qed

subsection \<open>Witnesses\<close>

definition blank_sys :: sys where
  "blank_sys = \<lparr>storage = empty_store, events = [], alerts = []\<rparr>"

definition demo_aa_user :: user where
  "demo_aa_user = new_user 1 ''Ann'' ''ann@example.com'' ''AaAaAa''"

lemma blank_sys_simps [simp]: "getUsers blank_sys = []" "currentUser blank_sys = None"
  by (simp_all add: blank_sys_def getUsers_def currentUser_def empty_store_def)

lemma signup_demo:
  "fst (signup 1 ''Ann'' ''ann@example.com'' ''AaAaAa'' ''AaAaAa'' blank_sys) = Inr ''./login.html''"
  by (simp add: signup_def Let_def js_trim_def is_js_space_def isValidEmail_def email_seg_def)

theorem signup_then_login_witness:
  "fst (login ''ann@example.com'' ''AaAaAa'' (snd (signup 1 ''Ann'' ''ann@example.com'' ''AaAaAa'' ''AaAaAa'' blank_sys)))
   = Inr ''./index.html''"
  using signup_then_login [OF signup_demo] by simp

theorem login_same_hash_witness:
  "fst (login ''ann@example.com'' ''BBBBBB'' (setUsers [demo_aa_user] blank_sys)) = Inr ''./index.html''"
proof -
  have "hashPassword ''BBBBBB'' = hashPassword ''AaAaAa''"
    by (simp add: hash_eval)
  then have "login ''ann@example.com'' ''BBBBBB'' (setUsers [demo_aa_user] blank_sys) =
      login ''ann@example.com'' ''AaAaAa'' (setUsers [demo_aa_user] blank_sys)"
    by (rule login_same_hash) simp_all
  then show ?thesis
    by (simp add: login_def Let_def js_trim_def is_js_space_def demo_aa_user_def new_user_def)
qed

theorem signup_unique_witness:
  "emails_distinct (snd (signup 1 ''Ann'' ''ann@example.com'' ''AaAaAa'' ''AaAaAa'' blank_sys)) \<and>
   ids_distinct (snd (signup 1 ''Ann'' ''ann@example.com'' ''AaAaAa'' ''AaAaAa'' blank_sys))"
  using signup_unique [OF signup_demo]
  by (simp add: emails_distinct_def ids_distinct_def)

end
