(* ===== verification/Auth_Page.thy ===== *)
theory Auth_Page
  imports Auth
begin

text \<open>
  The page side of auth.js: \<open>initSignup\<close>, \<open>initLogin\<close> and \<open>initLogout\<close> look up
  their element and, when it is on the page, attach one more listener to it;
  \<open>updateWelcomeMessage\<close> writes \<open>#welcomeUser\<close> when both the element and a session
  user exist. An event runs every attached listener in order, each reading storage
  afresh; every assignment to \<open>window.location.href\<close> replaces the pending navigation,
  so the last one wins.
\<close>

record auth_dom =
  signupForm :: bool                \<comment> \<open>\<open>document.getElementById("signupForm")\<close> exists\<close>
  loginForm :: bool
  logoutBtn :: bool
  welcomeUser :: "string option"    \<comment> \<open>\<open>textContent\<close> of \<open>#welcomeUser\<close>, if present\<close>
  signup_listeners :: nat           \<comment> \<open>submit listeners on \<open>#signupForm\<close>\<close>
  login_listeners :: nat
  logout_listeners :: nat           \<comment> \<open>click listeners on \<open>#logoutBtn\<close>\<close>

definition initSignup :: "auth_dom \<Rightarrow> auth_dom" where
  "initSignup d = (if signupForm d then d\<lparr>signup_listeners := Suc (signup_listeners d)\<rparr> else d)"

definition initLogin :: "auth_dom \<Rightarrow> auth_dom" where
  "initLogin d = (if loginForm d then d\<lparr>login_listeners := Suc (login_listeners d)\<rparr> else d)"

definition initLogout :: "auth_dom \<Rightarrow> auth_dom" where
  "initLogout d = (if logoutBtn d then d\<lparr>logout_listeners := Suc (logout_listeners d)\<rparr> else d)"

definition updateWelcomeMessage :: "auth_dom \<Rightarrow> sys \<Rightarrow> auth_dom" where
  "updateWelcomeMessage d s =
     (case (welcomeUser d, welcome_message s) of
        (Some _, Some msg) \<Rightarrow> d\<lparr>welcomeUser := Some msg\<rparr>
      | _ \<Rightarrow> d)"

text \<open>Dispatching one event to \<open>n\<close> copies of a handler: the result is the pending
  navigation (if any handler assigned \<open>location.href\<close>) and the final state.\<close>

fun fire :: "nat \<Rightarrow> (sys \<Rightarrow> ('e + string) \<times> sys) \<Rightarrow> sys \<Rightarrow> string option \<times> sys" where
  "fire 0 h s = (None, s)"
| "fire (Suc n) h s =
     (let (r, s1) = h s; (nav, s2) = fire n h s1
      in (case nav of Some x \<Rightarrow> Some x | None \<Rightarrow> (case r of Inr x \<Rightarrow> Some x | Inl _ \<Rightarrow> None), s2))"

definition submit_signup ::
  "auth_dom \<Rightarrow> time \<Rightarrow> string \<Rightarrow> string \<Rightarrow> string \<Rightarrow> string \<Rightarrow> sys \<Rightarrow> string option \<times> sys" where
  "submit_signup d now nm em pw cpw = fire (signup_listeners d) (signup now nm em pw cpw)"

definition submit_login :: "auth_dom \<Rightarrow> string \<Rightarrow> string \<Rightarrow> sys \<Rightarrow> string option \<times> sys" where
  "submit_login d em pw = fire (login_listeners d) (login em pw)"

definition click_logout :: "auth_dom \<Rightarrow> sys \<Rightarrow> string option \<times> sys" where
  "click_logout d = fire (logout_listeners d) (\<lambda>s. (Inr (fst (logout s)) :: (unit + string), snd (logout s)))"

text \<open>A page with a signup form and no listener yet.\<close>

definition signup_page :: auth_dom where
  "signup_page = \<lparr>signupForm = True, loginForm = False, logoutBtn = False, welcomeUser = None,
     signup_listeners = 0, login_listeners = 0, logout_listeners = 0\<rparr>"

subsection \<open>Listener dispatch\<close>

lemma fire_two:
  "fire (Suc (Suc 0)) h s =
     (case fst (h (snd (h s))) of
        Inr x \<Rightarrow> Some x
      | Inl _ \<Rightarrow> (case fst (h s) of Inr x \<Rightarrow> Some x | Inl _ \<Rightarrow> None),
      snd (h (snd (h s))))"
  by (simp add: split_beta split: sum.split)

text \<open>A handler whose effect is idempotent and that always navigates to the same page
  gives, for any positive number of listeners, the effect of one.\<close>

lemma fire_idem:
  assumes x: "\<And>s. fst (h s) = Inr x" and idem: "\<And>s. snd (h (snd (h s))) = snd (h s)"
  shows "fire (Suc n) h s = (Some x, snd (h s))"
proof (induction n arbitrary: s)
  case 0
  obtain s1 where "h s = (Inr x, s1)" by (metis x prod.collapse)
  then show ?case by simp
next
  case (Suc n)
  obtain s1 where hs: "h s = (Inr x, s1)" by (metis x prod.collapse)
  have "snd (h s1) = s1" using idem [of s] hs by simp
  with Suc.IH [of s1] have "fire (Suc n) h s1 = (Some x, s1)" by simp
  with hs show ?case by (simp del: fire.simps(2) add: fire.simps(2) [of "Suc n"])
qed

subsection \<open>Behaviour of the pages\<close>

lemma initSignup_absent: "\<not> signupForm d \<Longrightarrow> submit_signup (initSignup d) now nm em pw cpw s =
    submit_signup d now nm em pw cpw s"
  by (simp add: initSignup_def)

lemma logout_repeated:
  assumes n: "logout_listeners d = Suc n"
  shows "click_logout d s = (Some ''./index.html'', setCurrentUser None s)"
proof -
  let ?h = "\<lambda>s. (Inr (fst (logout s)) :: (unit + string), snd (logout s))"
  have "fire (Suc n) ?h s = (Some ''./index.html'', snd (?h s))"
    by (rule fire_idem) (simp_all add: logout_def setCurrentUser_def)
  then show ?thesis by (simp add: click_logout_def n logout_def)
qed

text \<open>C38: When \<open>initSignup\<close> has run twice on a page with a signup form, one submit of a
  valid new account runs two listeners: the first creates the account and alerts success,
  the second reads the updated user list and alerts "User already exists with this email";
  the page still navigates to the login page and the account exists once.\<close>

theorem signup_double_listener:
  assumes f: "signupForm d" and z: "signup_listeners d = 0"
    and ok: "fst (signup now nm em pw cpw s) = Inr r"
  shows "submit_signup (initSignup (initSignup d)) now nm em pw cpw s =
     (Some ''./login.html'',
      alert ''User already exists with this email'' (snd (signup now nm em pw cpw s)))"
proof -
  let ?nu = "new_user now (js_trim nm) (js_trim em) pw"
  let ?s1 = "snd (signup now nm em pw cpw s)"
  from signup_success [OF ok] have pre: "js_trim nm \<noteq> [] \<and> isValidEmail (js_trim em) \<and>
      6 \<le> length pw \<and> cpw = pw"
    and s1: "?s1 = alert ''Signup successful! Please log in.'' (setUsers (getUsers s @ [?nu]) s)"
    by blast+
  have r: "r = ''./login.html''" and ne: "js_trim em \<noteq> [] \<and> pw \<noteq> []"
    using ok by (auto simp: signup_def Let_def auth_fail_def split: if_splits)
  have "email ?nu = js_trim em" by (simp add: new_user_def)
  moreover have "?nu \<in> set (getUsers ?s1)" by (simp add: s1)
  ultimately have "find (\<lambda>u. email u = js_trim em) (getUsers ?s1) \<noteq> None"
    by (auto simp: find_None_iff)
  then have "signup now nm em pw cpw ?s1 =
      auth_fail EmailTaken ''User already exists with this email'' ?s1"
    using pre ne by (simp add: signup_def Let_def)
  then show ?thesis
    using f z ok r by (simp del: fire.simps add: submit_signup_def initSignup_def fire_two auth_fail_def)
qed

text \<open>\<open>updateWelcomeMessage\<close> only ever writes the greeting: with no session user it
  leaves the element as it is, so after logout a page that is not reloaded keeps greeting
  the previous user.\<close>

lemma welcome_kept_after_logout: "updateWelcomeMessage d (snd (logout s)) = d"
  by (simp add: updateWelcomeMessage_def welcome_after_logout split: option.split)

theorem signup_double_listener_witness:
  "submit_signup (initSignup (initSignup signup_page)) 1 ''Ann'' ''ann@example.com'' ''AaAaAa'' ''AaAaAa''
     blank_sys =
   (Some ''./login.html'', alert ''User already exists with this email''
      (snd (signup 1 ''Ann'' ''ann@example.com'' ''AaAaAa'' ''AaAaAa'' blank_sys)))"
  by (rule signup_double_listener [OF _ _ signup_demo]) (simp_all add: signup_page_def)

end
