(* ===== verification/Trending.thy ===== *)
theory Trending
  imports Posts
begin

text \<open>
  \<open>getTrendingHashtags\<close> of utils.js. The counter \<open>hashtagMap\<close> is a plain object: an
  association list in insertion order. \<open>Object.entries\<close> lists the keys that are array
  indices (canonical decimal strings below \<open>2^32 - 1\<close>) first, in ascending numeric order,
  and the other keys in insertion order. The object inherits from \<open>Object.prototype\<close>:
  for the tag \<open>__proto__\<close> the read gives the prototype and the write of a string is
  ignored, so that tag is never counted; for a tag naming another inherited member
  (\<open>toString\<close>, \<open>constructor\<close>, ...) the count becomes a string and the comparator
  returns NaN, which leaves the order to the engine: the model returns \<open>None\<close> there.
\<close>

definition is_digit :: "char \<Rightarrow> bool" where
  "is_digit c \<longleftrightarrow> (let n = of_char c :: nat in 48 \<le> n \<and> n \<le> 57)"

definition dec_val :: "string \<Rightarrow> nat" where
  "dec_val k = foldl (\<lambda>a c. a * 10 + (of_char c - 48)) 0 k"

definition is_index_key :: "string \<Rightarrow> bool" where
  "is_index_key k \<longleftrightarrow>
     k \<noteq> [] \<and> list_all is_digit k \<and> (k = ''0'' \<or> hd k \<noteq> CHR ''0'') \<and> dec_val k < 4294967295"

definition proto_members :: "string list" where
  "proto_members = [''constructor'', ''hasOwnProperty'', ''isPrototypeOf'', ''propertyIsEnumerable'',
     ''toLocaleString'', ''toString'', ''valueOf'', ''__defineGetter__'', ''__defineSetter__'',
     ''__lookupGetter__'', ''__lookupSetter__'']"

type_synonym counter = "(string \<times> nat) list"

definition bump :: "string \<Rightarrow> counter \<Rightarrow> counter" where
  "bump tag m =
     (if tag = ''__proto__'' then m
      else case find_idx (\<lambda>e. fst e = tag) m of
        None \<Rightarrow> m @ [(tag, 1)]
      | Some i \<Rightarrow> m[i := (tag, snd (m ! i) + 1)])"

definition count_tags :: "post list \<Rightarrow> counter" where
  "count_tags posts = foldl (\<lambda>m p. foldl (\<lambda>m' tag. bump tag m') m (extractHashtags (post_text p))) [] posts"

definition object_entries :: "counter \<Rightarrow> counter" where
  "object_entries m = sort_key (\<lambda>e. dec_val (fst e)) (filter (\<lambda>e. is_index_key (fst e)) m) @
                      filter (\<lambda>e. \<not> is_index_key (fst e)) m"

definition trending_cmp :: "string \<times> nat \<Rightarrow> string \<times> nat \<Rightarrow> int" where
  "trending_cmp a b = int (snd b) - int (snd a)"

definition all_tags :: "post list \<Rightarrow> string list" where
  "all_tags posts = concat (map (\<lambda>p. extractHashtags (post_text p)) posts)"

definition getTrendingHashtags :: "sys \<Rightarrow> (string \<times> nat) list option" where
  "getTrendingHashtags s =
     (let posts = getPosts s in
      if list_ex (\<lambda>t. t \<in> set proto_members) (all_tags posts) then None
      else Some (take 5 (js_sort trending_cmp (object_entries (count_tags posts)))))"

definition tag_count :: "counter \<Rightarrow> string \<Rightarrow> nat" where
  "tag_count m t = (case find (\<lambda>e. fst e = t) m of None \<Rightarrow> 0 | Some e \<Rightarrow> snd e)"

subsection \<open>Counting\<close>

lemma foldl_nested:
  "foldl (\<lambda>m p. foldl g m (h p)) m0 xs = foldl g m0 (concat (map h xs))"
  by (induction xs arbitrary: m0) simp_all

lemma count_tags_flat: "count_tags posts = foldl (\<lambda>m tag. bump tag m) [] (all_tags posts)"
  by (simp add: count_tags_def all_tags_def foldl_nested)

lemma map_fst_bump:
  "map fst (bump t m) =
   (if t = ''__proto__'' then map fst m
    else if t \<in> fst ` set m then map fst m else map fst m @ [t])"
proof (cases "find_idx (\<lambda>e. fst e = t) m")
  case None
  moreover from None have "t \<notin> fst ` set m" by (force simp: find_idx_None_iff)
  ultimately show ?thesis by (simp add: bump_def)
next
  case (Some i)
  then have "fst (m ! i) = t" "i < length m" using find_idx_SomeD [OF Some] by simp_all
  moreover from this have "t \<in> fst ` set m" by (metis image_eqI nth_mem)
  ultimately show ?thesis
    using Some by (simp add: bump_def map_update_same)
qed

lemma distinct_bump: "distinct (map fst m) \<Longrightarrow> distinct (map fst (bump t m))"
  by (simp add: map_fst_bump)

lemma tag_count_bump:
  assumes "u \<noteq> ''__proto__''"
  shows "tag_count (bump t m) u = tag_count m u + (if u = t then 1 else 0)"
proof (cases "t = ''__proto__''")
  case True
  with assms show ?thesis by (simp add: bump_def)
next
  case False
  show ?thesis
  proof (cases "find_idx (\<lambda>e. fst e = t) m")
    case None
    then have "find (\<lambda>e. fst e = t) m = None" by (simp add: find_conv_find_idx)
    with None False show ?thesis
      by (simp add: bump_def tag_count_def find_snoc split: option.split)
  next
    case (Some i)
    have fi: "fst (m ! i) = t" "i < length m" using find_idx_SomeD [OF Some] by simp_all
    have eq: "find (\<lambda>e. fst e = u) (m[i := (t, snd (m ! i) + 1)]) =
        map_option (\<lambda>j. if j = i then (t, snd (m ! i) + 1) else m ! j) (find_idx (\<lambda>e. fst e = u) m)"
      using fi by (intro find_update_eq) simp_all
    show ?thesis
    proof (cases "u = t")
      case True
      have "find (\<lambda>e. fst e = u) (m[i := (t, snd (m ! i) + 1)]) = Some (t, snd (m ! i) + 1)"
        using eq Some True by simp
      moreover have "find (\<lambda>e. fst e = u) m = Some (m ! i)"
        using Some True by (simp add: find_conv_find_idx)
      ultimately show ?thesis
        using Some False True by (simp add: bump_def tag_count_def)
    next
      case ne: False
      have "find_idx (\<lambda>e. fst e = u) m \<noteq> Some i"
        using ne fi find_idx_nth [of "\<lambda>e. fst e = u" m i] by auto
      then have "find (\<lambda>e. fst e = u) (m[i := (t, snd (m ! i) + 1)]) = find (\<lambda>e. fst e = u) m"
        unfolding eq by (cases "find_idx (\<lambda>e. fst e = u) m") (simp_all add: find_conv_find_idx)
      with ne Some False show ?thesis
        by (simp add: bump_def tag_count_def)
    qed
  qed
qed

lemma tag_count_fold:
  "u \<noteq> ''__proto__'' \<Longrightarrow>
   tag_count (foldl (\<lambda>m tag. bump tag m) m ts) u = tag_count m u + count_list ts u"
  by (induction ts arbitrary: m) (simp_all add: tag_count_bump)

lemma keys_bump: "fst ` set (bump t m) = fst ` set m \<union> (if t = ''__proto__'' then {} else {t})"
  using arg_cong [OF map_fst_bump [of t m], of set] by (auto split: if_splits)

lemma count_fold_facts:
  "distinct (map fst m) \<Longrightarrow>
   distinct (map fst (foldl (\<lambda>m tag. bump tag m) m ts)) \<and>
   fst ` set (foldl (\<lambda>m tag. bump tag m) m ts) = fst ` set m \<union> (set ts - {''__proto__''})"
  by (induction ts arbitrary: m) (auto simp: distinct_bump keys_bump split: if_splits)

lemma tag_count_member: "distinct (map fst m) \<Longrightarrow> (t, c) \<in> set m \<Longrightarrow> tag_count m t = c"
  by (induction m) (auto simp: tag_count_def image_iff)

lemma count_tags_facts:
  "distinct (map fst (count_tags posts)) \<and>
   fst ` set (count_tags posts) = set (all_tags posts) - {''__proto__''} \<and>
   (\<forall>(t, c)\<in>set (count_tags posts). c = count_list (all_tags posts) t)"
proof -
  have d: "distinct (map fst (count_tags posts))" and k: "fst ` set (count_tags posts) = set (all_tags posts) - {''__proto__''}"
    using count_fold_facts [of "[]" "all_tags posts"] by (simp_all add: count_tags_flat)
  have "c = count_list (all_tags posts) t" if "(t, c) \<in> set (count_tags posts)" for t c
  proof -
    have "t \<noteq> ''__proto__''" using k that by (metis Diff_iff fst_conv image_eqI insertI1)
    then have "tag_count (count_tags posts) t = count_list (all_tags posts) t"
      using tag_count_fold [of t "[]" "all_tags posts"] by (simp add: count_tags_flat tag_count_def)
    then show ?thesis using tag_count_member [OF d that] by simp
  qed
  with d k show ?thesis by blast
qed

lemma mset_object_entries: "mset (object_entries m) = mset m"
  by (simp add: object_entries_def)

lemma trending_cmp_key: "trending_cmp = key_cmp (\<lambda>e. - int (snd e))"
  by (simp add: trending_cmp_def fun_eq_iff)

lemma trending_sort: "js_sort trending_cmp xs = sort_key (\<lambda>e. - int (snd e)) xs"
  unfolding trending_cmp_key by (rule js_sort_eq_sort_key)

lemma getTrendingHashtags_Some:
  "getTrendingHashtags s = Some r \<Longrightarrow>
   r = take 5 (sort_key (\<lambda>e. - int (snd e)) (object_entries (count_tags (getPosts s))))"
  by (auto simp: getTrendingHashtags_def Let_def trending_sort split: if_splits)

lemma sorted_take_drop:
  assumes "sorted (map f xs)" "x \<in> set (take n xs)" "y \<in> set (drop n xs)"
  shows "f x \<le> f y"
proof -
  have "sorted (map f (take n xs) @ map f (drop n xs))"
    using assms(1) by (simp flip: map_append)
  with assms(2,3) show ?thesis by (auto simp: sorted_append)
qed

text \<open>C35: Every trending entry is a tag with its exact number of occurrences over all
  posts (duplicates inside one post counted each time), at most five entries are returned
  and no tag is listed twice.\<close>

theorem trending_counts:
  assumes "getTrendingHashtags s = Some r"
  shows "length r \<le> 5 \<and> distinct (map fst r) \<and>
         (\<forall>(t, c)\<in>set r. c = count_list (all_tags (getPosts s)) t \<and> 0 < c)"
proof -
  let ?m = "count_tags (getPosts s)"
  let ?L = "sort_key (\<lambda>e. - int (snd e)) (object_entries ?m)"
  have r: "r = take 5 ?L" using getTrendingHashtags_Some [OF assms] .
  have ms: "mset ?L = mset ?m" by (simp add: mset_object_entries)
  have set: "set ?L = set ?m" using arg_cong [OF ms, of set_mset] by simp
  have facts: "distinct (map fst ?m)" "fst ` set ?m = set (all_tags (getPosts s)) - {''__proto__''}"
    "\<forall>(t, c)\<in>set ?m. c = count_list (all_tags (getPosts s)) t"
    using count_tags_facts [of "getPosts s"] by blast+
  have "mset (map fst ?L) = mset (map fst ?m)" by (simp only: mset_map ms)
  then have "distinct (map fst ?L)" using facts(1) mset_eq_imp_distinct_iff by blast
  then have dr: "distinct (map fst r)" unfolding r by (simp add: take_map [symmetric])
  have "c = count_list (all_tags (getPosts s)) t \<and> 0 < c" if tc0: "(t, c) \<in> set r" for t c
  proof -
    have tc: "(t, c) \<in> set ?m" using tc0 set unfolding r by (blast dest: in_set_takeD)
    then have "c = count_list (all_tags (getPosts s)) t" using facts(3) by blast
    moreover have "t \<in> fst ` set ?m" using tc by force
    then have "t \<in> set (all_tags (getPosts s))" using facts(2) by blast
    ultimately show ?thesis using count_list_0_iff [of _ t] by (metis gr0I)
  qed
  with dr show ?thesis unfolding r by auto
qed

lemma sorted_neg_count:
  "sorted (map (\<lambda>e. - int (snd e)) xs) \<Longrightarrow> sorted_wrt (\<ge>) (map snd xs)"
  by (simp add: sorted_wrt_map)

lemma object_entries_keys: "(t, c) \<in> set (object_entries m) \<longleftrightarrow> (t, c) \<in> set m"
  using arg_cong [OF mset_object_entries [of m], of set_mset] by simp

text \<open>C36: The trending list is ranked by count, highest first, and it is a true top
  five: a tag that occurs in the posts but is not listed (other than \<open>__proto__\<close>)
  implies that five tags are listed, each occurring at least as often.\<close>

theorem trending_top:
  assumes res: "getTrendingHashtags s = Some r"
  shows "sorted_wrt (\<ge>) (map snd r) \<and>
         (\<forall>t\<in>set (all_tags (getPosts s)). t \<noteq> ''__proto__'' \<longrightarrow> t \<notin> fst ` set r \<longrightarrow>
            length r = 5 \<and> (\<forall>e\<in>set r. count_list (all_tags (getPosts s)) t \<le> snd e))"
proof -
  let ?m = "count_tags (getPosts s)"
  let ?k = "\<lambda>e. - int (snd e)"
  let ?L = "sort_key ?k (object_entries ?m)"
  have r: "r = take 5 ?L" using getTrendingHashtags_Some [OF res] .
  have sorted: "sorted (map ?k ?L)" by (rule sorted_sort_key)
  have "sorted_wrt (\<ge>) (map snd r)"
    using sorted_neg_count [OF sorted] unfolding r by (simp add: take_map [symmetric] sorted_wrt_take)
  moreover have "length r = 5 \<and> (\<forall>e\<in>set r. count_list (all_tags (getPosts s)) t \<le> snd e)"
    if t: "t \<in> set (all_tags (getPosts s))" "t \<noteq> ''__proto__''" "t \<notin> fst ` set r" for t
  proof -
    have "t \<in> fst ` set ?m" using t count_tags_facts [of "getPosts s"] by blast
    then obtain c where tc: "(t, c) \<in> set ?m" by force
    then have c: "c = count_list (all_tags (getPosts s)) t" using count_tags_facts by fast
    have inL: "(t, c) \<in> set ?L" using tc by (simp add: object_entries_keys)
    have notr: "(t, c) \<notin> set r" using t(3) by force
    have drop: "(t, c) \<in> set (drop 5 ?L)"
      using inL notr unfolding r by (metis Un_iff append_take_drop_id set_append)
    then have "5 < length ?L" by (metis drop_eq_Nil empty_iff empty_set not_le_imp_less)
    then have "length r = 5" unfolding r by simp
    moreover have "c \<le> snd e" if "e \<in> set r" for e
      using sorted_take_drop [OF sorted, of e 5 "(t, c)"] that drop unfolding r by simp
    ultimately show ?thesis using c by blast
  qed
  ultimately show ?thesis by blast
qed

text \<open>C37: Among tags with equal counts, the order is that of \<open>Object.entries\<close>:
  first the tags that are array indices (all-digit tags such as 2024), in ascending numeric
  order, then the other tags in the order they first appear. The stable sort keeps it.\<close>

theorem trending_ties:
  "filter (\<lambda>e. snd e = v) (js_sort trending_cmp (object_entries m)) =
   sort_key (\<lambda>e. dec_val (fst e)) (filter (\<lambda>e. is_index_key (fst e) \<and> snd e = v) m) @
   filter (\<lambda>e. \<not> is_index_key (fst e) \<and> snd e = v) m"
proof -
  have "filter (\<lambda>e. snd e = v) (js_sort trending_cmp (object_entries m)) =
        filter (\<lambda>e. - int (snd e) = - int v) (sort_key (\<lambda>e. - int (snd e)) (object_entries m))"
    by (simp add: trending_sort)
  also have "\<dots> = filter (\<lambda>e. - int (snd e) = - int v) (object_entries m)"
    by (rule sort_key_stable)
  finally show ?thesis
    by (simp add: object_entries_def filter_sort)
qed

subsection \<open>Witnesses\<close>

definition trend_sys :: "string \<Rightarrow> sys" where
  "trend_sys txt = \<lparr>storage = empty_store\<lparr>st_posts := Some [demo_post1\<lparr>post_text := txt\<rparr>]\<rparr>,
     events = [], alerts = []\<rparr>"

lemmas trending_eval = getTrendingHashtags_def trend_sys_def getPosts_def all_tags_def extractHashtags_def
  is_word_char_def proto_members_def count_tags_def bump_def object_entries_def is_index_key_def
  is_digit_def dec_val_def trending_sort

lemma trending_example:
  "getTrendingHashtags (trend_sys ''#zeta #2024 #7 #zeta'') = Some [(''zeta'', 2), (''7'', 1), (''2024'', 1)]"
  by (simp add: trending_eval)

lemma trending_example6:
  "getTrendingHashtags (trend_sys ''#a #a #b #c #d #e #f'') =
   Some [(''a'', 2), (''b'', 1), (''c'', 1), (''d'', 1), (''e'', 1)]"
  by (simp add: trending_eval)

theorem trending_counts_witness:
  "count_list (all_tags (getPosts (trend_sys ''#zeta #2024 #7 #zeta''))) ''zeta'' = 2"
  using trending_counts [OF trending_example] by simp

theorem trending_top_witness:
  "count_list (all_tags (getPosts (trend_sys ''#a #a #b #c #d #e #f''))) ''f'' \<le> 1"
proof -
  have "''f'' \<in> set (all_tags (getPosts (trend_sys ''#a #a #b #c #d #e #f'')))"
    by (simp add: trend_sys_def getPosts_def all_tags_def extractHashtags_def is_word_char_def)
  then show ?thesis
    using trending_top [OF trending_example6] by fastforce
qed

end
