(* ===== verification/Hashtag_Regex.thy ===== *)
theory Hashtag_Regex
  imports Utils "HOL-Library.Monad_Syntax"
begin

text \<open>
  The engine's reading of \<open>text.match(/#\w+/g)\<close> (utils.js \<open>extractHashtags\<close>), after
  RegExp.prototype[@@match] and RegExpBuiltinExec: \<open>lastIndex\<close> starts at 0; each exec
  tries the pattern at \<open>lastIndex\<close>, \<open>lastIndex + 1\<close>, ... until it matches or passes
  the end of the string; a match is appended and \<open>lastIndex\<close> moves to its end (one
  further when the match is empty). The outer loop has no structural measure, so it is a
  \<open>partial_function (option)\<close>: \<open>None\<close> would mean the loop never stops. The theorems show
  it always stops and that it computes the scanner \<open>scan_tags\<close> of the Utils theory.
\<close>

definition match_at :: "string \<Rightarrow> nat \<Rightarrow> nat option" where
  "match_at s p =
     (let w = takeWhile is_word_char (drop (Suc p) s)
      in if p < length s \<and> s ! p = CHR ''#'' \<and> w \<noteq> [] then Some (Suc p + length w) else None)"

function search :: "string \<Rightarrow> nat \<Rightarrow> (nat \<times> nat) option" where
  "search s p =
     (if length s < p then None
      else case match_at s p of Some e \<Rightarrow> Some (p, e) | None \<Rightarrow> search s (Suc p))"
  by pat_completeness auto
termination
  by (relation "measure (\<lambda>(s, p). Suc (length s) - p)") auto

declare search.simps [simp del]

partial_function (option) match_global :: "string \<Rightarrow> nat \<Rightarrow> string list option" where
  "match_global s lastIndex =
     (case search s lastIndex of
        None \<Rightarrow> Some []
      | Some (p, e) \<Rightarrow>
          do { rest \<leftarrow> match_global s (if e = p then Suc e else e);
               Some (take (e - p) (drop p s) # rest) })"

subsection \<open>The loop against the scanner\<close>

lemma match_at_None_scan:
  assumes none: "match_at s p = None" and p: "p < length s"
  shows "scan_tags (drop p s) = scan_tags (drop (Suc p) s)"
proof -
  have d: "drop p s = s ! p # drop (Suc p) s" using p by (rule Cons_nth_drop_Suc [symmetric])
  have c: "\<not> (s ! p = CHR ''#'' \<and> drop (Suc p) s \<noteq> [] \<and> is_word_char (hd (drop (Suc p) s)))"
    using none p by (cases "drop (Suc p) s") (auto simp: match_at_def Let_def)
  show ?thesis unfolding d by (simp only: scan_tags.simps(2) c if_False)
qed

lemma match_at_SomeD:
  assumes "match_at s p = Some e"
  shows "p < e \<and> e \<le> length s \<and>
         scan_tags (drop p s) = drop 1 (take (e - p) (drop p s)) # scan_tags (drop e s)"
proof -
  let ?r = "drop (Suc p) s"
  let ?w = "takeWhile is_word_char ?r"
  have p: "p < length s" "s ! p = CHR ''#''" "?w \<noteq> []" and e: "e = Suc p + length ?w"
    using assms by (auto simp: match_at_def Let_def split: if_splits)
  have d: "drop p s = CHR ''#'' # ?r" using p by (simp add: Cons_nth_drop_Suc [symmetric])
  have hd: "?r \<noteq> [] \<and> is_word_char (hd ?r)" using p(3) by (cases ?r) (auto split: if_splits)
  have "length ?w \<le> length ?r" by (rule length_takeWhile_le)
  then have le: "e \<le> length s" using e p by simp
  have "dropWhile is_word_char ?r = drop (length ?w) ?r"
    by (metis append_eq_conv_conj takeWhile_dropWhile_id)
  then have dw: "dropWhile is_word_char ?r = drop e s" using e by (simp add: add.commute)
  have tw: "take (length ?w) ?r = ?w" by (rule takeWhile_eq_take [symmetric])
  have "take (e - p) (drop p s) = CHR ''#'' # ?w"
    using e d tw by simp
  then show ?thesis using d hd dw e le by simp
qed

lemma search_skip: "match_at s p = None \<Longrightarrow> p \<le> length s \<Longrightarrow> search s p = search s (Suc p)"
  by (simp add: search.simps [of s p])

lemma match_global_skip:
  "match_at s p = None \<Longrightarrow> p \<le> length s \<Longrightarrow> match_global s p = match_global s (Suc p)"
  by (simp add: match_global.simps [of s p] match_global.simps [of s "Suc p"] search_skip)

lemma match_global_scan:
  "map_option (map (drop 1)) (match_global s li) = Some (scan_tags (drop li s))"
proof (induction "Suc (length s) - li" arbitrary: li rule: less_induct)
  case less
  show ?case
  proof (cases "length s < li")
    case True
    then show ?thesis by (simp add: match_global.simps [of s li] search.simps [of s li])
  next
    case False
    show ?thesis
    proof (cases "match_at s li")
      case None
      have IH: "map_option (map (drop 1)) (match_global s (Suc li)) = Some (scan_tags (drop (Suc li) s))"
        using False by (intro less) auto
      have "scan_tags (drop li s) = scan_tags (drop (Suc li) s)"
        using None False by (cases "li = length s") (simp_all add: match_at_None_scan)
      then show ?thesis using IH None False by (simp add: match_global_skip)
    next
      case (Some e)
      note m = match_at_SomeD [OF Some]
      have IH: "map_option (map (drop 1)) (match_global s e) = Some (scan_tags (drop e s))"
        using m by (intro less) auto
      have "search s li = Some (li, e)" using Some False by (simp add: search.simps [of s li])
      then show ?thesis
        using IH m by (auto simp: match_global.simps [of s li])
    qed
  qed
qed

text \<open>C39: The engine's reading of \<open>text.match(/#\w+/g)\<close> followed by
  \<open>slice(1)\<close> on each match is exactly \<open>extractHashtags\<close>: the loop returns and its
  matches without the hash sign are the scanner's tags.\<close>

theorem extractHashtags_engine:
  "map_option (map (drop 1)) (match_global msg 0) = Some (extractHashtags msg)"
  using match_global_scan [of msg 0] by (cases "msg = []") (simp_all add: extractHashtags_def)

lemma match_global_example: "match_global ''a #b1 # #c'' 0 = Some [''#b1'', ''#c'']"
  by (simp add: match_global.simps search.simps match_at_def is_word_char_def)

end
