(* ===== verification/Format.thy ===== *)
theory Format
  imports Utils
begin

text \<open>
  \<open>formatDate\<close> of utils.js as the feed calls it, with a millisecond timestamp. \<open>now\<close>
  is \<open>new Date()\<close> and \<open>locale_date\<close> is \<open>toLocaleDateString()\<close>, which depends on
  the browser's locale and is a parameter. \<open>Math.floor(diff / k)\<close> on integral
  \<open>diff\<close> is floor division, HOL's \<open>div\<close> on \<open>int\<close>.
\<close>

definition formatDate :: "(time \<Rightarrow> string) \<Rightarrow> time \<Rightarrow> time \<Rightarrow> string" where
  "formatDate locale_date now date =
     (let diff = now - date; minutes = diff div 60000; hours = diff div 3600000;
          days = diff div 86400000
      in if minutes < 1 then ''just now''
         else if minutes < 60 then js_int_string minutes @ ''m ago''
         else if hours < 24 then js_int_string hours @ ''h ago''
         else if days < 7 then js_int_string days @ ''d ago''
         else locale_date date)"

subsection \<open>The buckets\<close>

lemma formatDate_just_now: "now - date < 60000 \<Longrightarrow> formatDate ld now date = ''just now''"
  by (simp add: formatDate_def Let_def)

lemma formatDate_minutes:
  assumes "60000 \<le> now - date" "now - date < 3600000"
  shows "formatDate ld now date = js_int_string ((now - date) div 60000) @ ''m ago'' \<and>
         1 \<le> (now - date) div 60000 \<and> (now - date) div 60000 \<le> 59"
proof -
  have "1 \<le> (now - date) div 60000" using assms(1) by (simp add: pos_imp_zdiv_pos_iff)
  moreover have "(now - date) div 60000 \<le> 3599999 div 60000"
    using assms(2) by (intro zdiv_mono1) simp_all
  ultimately show ?thesis by (simp add: formatDate_def Let_def)
qed

lemma formatDate_hours:
  assumes "3600000 \<le> now - date" "now - date < 86400000"
  shows "formatDate ld now date = js_int_string ((now - date) div 3600000) @ ''h ago''"
proof -
  have "3600000 div 60000 \<le> (now - date) div 60000" using assms(1) by (intro zdiv_mono1) simp_all
  moreover have "(now - date) div 3600000 \<le> 86399999 div 3600000"
    using assms(2) by (intro zdiv_mono1) simp_all
  ultimately show ?thesis by (simp add: formatDate_def Let_def)
qed

lemma formatDate_old:
  assumes "7 * 86400000 \<le> now - date"
  shows "formatDate ld now date = ld date"
proof -
  have "(7 * 86400000) div 60000 \<le> (now - date) div 60000"
       "(7 * 86400000) div 3600000 \<le> (now - date) div 3600000"
       "(7 * 86400000) div 86400000 \<le> (now - date) div 86400000"
    using assms by (intro zdiv_mono1; simp)+
  then show ?thesis by (simp add: formatDate_def Let_def)
qed

lemma formatDate_example: "formatDate ld 1000000 (1000000 - 5 * 60000 - 1) = ''5m ago''"
  by (simp add: formatDate_def Let_def js_int_string_def to_dec.simps char_of_def bit_0)

end
