(* ===== verification/Sanitize.thy ===== *)
theory Sanitize
  imports Utils
begin

text \<open>
  \<open>sanitize\<close> of utils.js sets a \<open>div\<close>'s \<open>textContent\<close> and reads back its
  \<open>innerHTML\<close>. Serialising a text node (HTML standard, "escaping a string" outside
  attribute mode) replaces \<open>&\<close>, the no-break space U+00A0, \<open><\<close> and \<open>>\<close> by
  \<open>&amp;\<close>, \<open>&nbsp;\<close>, \<open>&lt;\<close> and \<open>&gt;\<close>. \<open>html_unescape\<close> reads those four
  entities back; it is the model's decoder, not program code.
\<close>

definition html_escape_char :: "char \<Rightarrow> string" where
  "html_escape_char c =
     (if c = CHR ''&'' then ''&amp;''
      else if c = CHR 0xA0 then ''&nbsp;''
      else if c = CHR ''<'' then ''&lt;''
      else if c = CHR ''>'' then ''&gt;''
      else [c])"

definition sanitize :: "string \<Rightarrow> string" where
  "sanitize v = (if v = [] then [] else concat (map html_escape_char v))"

fun html_unescape :: "string \<Rightarrow> string" where
  "html_unescape [] = []"
| "html_unescape (c # cs) =
     (if c = CHR ''&'' then
        (if take 4 cs = ''amp;'' then CHR ''&'' # html_unescape (drop 4 cs)
         else if take 5 cs = ''nbsp;'' then CHR 0xA0 # html_unescape (drop 5 cs)
         else if take 3 cs = ''lt;'' then CHR ''<'' # html_unescape (drop 3 cs)
         else if take 3 cs = ''gt;'' then CHR ''>'' # html_unescape (drop 3 cs)
         else c # html_unescape cs)
      else c # html_unescape cs)"

lemma html_unescape_escape_char: "html_unescape (html_escape_char c @ rest) = c # html_unescape rest"
  by (simp add: html_escape_char_def)

lemma sanitize_roundtrip: "html_unescape (sanitize v) = v"
  by (induction v) (simp_all add: sanitize_def html_unescape_escape_char split: if_splits)

lemma markup_free_escape_char: "CHR ''<'' \<notin> set (html_escape_char c) \<and> CHR ''>'' \<notin> set (html_escape_char c)"
  by (simp add: html_escape_char_def)

lemma sanitize_markup_free: "CHR ''<'' \<notin> set (sanitize v) \<and> CHR ''>'' \<notin> set (sanitize v)"
  using markup_free_escape_char by (auto simp: sanitize_def)

lemma sanitize_plain: "list_all (\<lambda>c. c \<notin> {CHR ''&'', CHR 0xA0, CHR ''<'', CHR ''>''}) v \<Longrightarrow> sanitize v = v"
  by (induction v) (auto simp: sanitize_def html_escape_char_def split: if_splits)

end
