(* ===== verification/Render.thy ===== *)
theory Render
  imports Feed Format Sanitize
begin

text \<open>
  What \<open>renderPostCard\<close> and \<open>renderComments\<close> of feed.js put on a post card, as a
  view record: the card's element id, the post text with its hashtags turned into links
  (the exact HTML string), the image, whether the Edit/Delete buttons are offered, the
  like button's state and count, the comment count label and one view per comment.
  CSS classes and the surrounding markup are left out. \<open>formatDate\<close> reads the clock
  and the locale, both arguments here.
\<close>

record comment_view =
  cv_author :: string
  cv_profile :: uid
  cv_text :: string
  cv_date :: string
  cv_delete :: bool

record card_view =
  card_id :: string
  card_author :: string
  card_date :: string
  card_text :: string
  card_image :: "string option"
  card_owner_buttons :: bool
  card_liked :: bool
  card_likes :: nat
  card_comment_count :: string
  card_comments :: "comment_view list"

text \<open>\<open>str.replace(/lit/g, rep)\<close> for a literal pattern: every non-overlapping occurrence,
  left to right, is replaced.\<close>

function js_replace_all :: "string \<Rightarrow> string \<Rightarrow> string \<Rightarrow> string" where
  "js_replace_all pat rep [] = []"
| "js_replace_all pat rep (c # cs) =
     (if pat \<noteq> [] \<and> take (length pat) (c # cs) = pat
      then rep @ js_replace_all pat rep (drop (length pat) (c # cs))
      else c # js_replace_all pat rep cs)"
  by pat_completeness auto
termination
  by (relation "measure (\<lambda>(_, _, s). length s)") auto

definition link_open :: "string \<Rightarrow> string" where
  "link_open tag = ''<a href='' @ [CHR 0x22] @ ''?hashtag='' @ tag @ [CHR 0x22] @
     '' class='' @ [CHR 0x22] @ ''text-blue-500 hover:underline'' @ [CHR 0x22] @ ''>''"

definition tag_link :: "string \<Rightarrow> string" where
  "tag_link tag = link_open tag @ ''#'' @ tag @ ''</a>''"

definition link_tags :: "string \<Rightarrow> string" where
  "link_tags txt =
     foldl (\<lambda>html tag. js_replace_all (CHR ''#'' # tag) (tag_link tag) html) txt (extractHashtags txt)"

definition renderComments :: "(time \<Rightarrow> string) \<Rightarrow> time \<Rightarrow> sys \<Rightarrow> post \<Rightarrow> comment_view list" where
  "renderComments ld now s p =
     map (\<lambda>c. \<lparr>cv_author = comment_author c, cv_profile = comment_authorId c, cv_text = comment_text c,
               cv_date = formatDate ld now (comment_createdAt c),
               cv_delete = (case currentUser s of None \<Rightarrow> False | Some u \<Rightarrow> user_id u = comment_authorId c)\<rparr>)
       (comments p)"

definition renderPostCard :: "(time \<Rightarrow> string) \<Rightarrow> time \<Rightarrow> sys \<Rightarrow> post \<Rightarrow> card_view" where
  "renderPostCard ld now s p =
     (let cu = currentUser s;
          isLiked = (case cu of None \<Rightarrow> False | Some u \<Rightarrow> user_id u \<in> set (likedBy p));
          isAuthor = (case cu of None \<Rightarrow> False | Some u \<Rightarrow> authorId p = user_id u)
      in \<lparr>card_id = ''post-'' @ post_id p, card_author = author p, card_date = formatDate ld now (createdAt p),
          card_text = link_tags (post_text p), card_image = imageUrl p,
          card_owner_buttons = isAuthor, card_liked = isLiked, card_likes = likes p,
          card_comment_count = (if comments p \<noteq> [] then ''('' @ js_int_string (int (length (comments p))) @ '')'' else []),
          card_comments = renderComments ld now s p\<rparr>)"

subsection \<open>Linking hashtags\<close>

lemma js_replace_all_absent:
  "pat \<noteq> [] \<Longrightarrow> \<not> js_includes s pat \<Longrightarrow> js_replace_all pat rep s = s"
  by (induction pat rep s rule: js_replace_all.induct) auto

text \<open>A tag that is a prefix of another tag of the same post is linked inside the longer
  one: in "#a #ab" the second tag is rendered as the link for "a" followed by a plain
  "b", and the pass for "ab" finds nothing left to link.\<close>

lemma link_tags_prefix:
  "link_tags ''#a #ab'' = tag_link ''a'' @ '' '' @ tag_link ''a'' @ ''b''"
  by (simp add: link_tags_def extractHashtags_def is_word_char_def tag_link_def link_open_def)

text \<open>A tag written twice is extracted twice, so its pass runs twice and the second pass
  wraps the link text of the first in another link.\<close>

lemma link_tags_repeated:
  "link_tags ''#a #a'' =
   link_open ''a'' @ tag_link ''a'' @ ''</a> '' @ link_open ''a'' @ tag_link ''a'' @ ''</a>''"
  by (simp add: link_tags_def extractHashtags_def is_word_char_def tag_link_def link_open_def)

lemma link_tags_plain: "extractHashtags txt = [] \<Longrightarrow> link_tags txt = txt"
  by (simp add: link_tags_def)

subsection \<open>Card contents\<close>

text \<open>C19: renderPostCard puts the post text into the card's HTML without escaping it:
  for a text without hashtags the card's HTML text is the post text itself, so a post
  containing markup (a \<open><\<close>) is inserted as markup, whereas the unused
  \<open>sanitize\<close> of utils.js would have escaped it.\<close>

theorem renderPostCard_unescaped:
  assumes "extractHashtags (post_text p) = []" and "CHR ''<'' \<in> set (post_text p)"
  shows "card_text (renderPostCard ld now s p) = post_text p \<and>
         card_text (renderPostCard ld now s p) \<noteq> sanitize (post_text p)"
  using assms sanitize_markup_free [of "post_text p"]
  by (auto simp: renderPostCard_def Let_def link_tags_plain)

lemma renderPostCard_buttons:
  "card_owner_buttons (renderPostCard ld now s p) \<longleftrightarrow>
   (\<exists>u. currentUser s = Some u \<and> authorId p = user_id u)"
  by (simp add: renderPostCard_def Let_def split: option.split)

lemma renderComments_length: "length (renderComments ld now s p) = length (comments p)"
  by (simp add: renderComments_def)

theorem renderPostCard_unescaped_witness:
  "card_text (renderPostCard (\<lambda>_. []) 0 demo_sys (demo_post1\<lparr>post_text := ''<img src=x onerror=alert(1)>''\<rparr>)) =
   ''<img src=x onerror=alert(1)>''"
  using renderPostCard_unescaped [of "demo_post1\<lparr>post_text := ''<img src=x onerror=alert(1)>''\<rparr>" "\<lambda>_. []" 0 demo_sys]
  by (simp add: extractHashtags_def)

end
