(* ===== verification/Repo_Steps.thy ===== *)
theory Repo_Steps
  imports Posts
begin

text \<open>
  The post repository as a transition system: one step is a repository operation of
  posts.js (with a fresh generated id where it creates one) or a change of the session
  user (login as someone else, logout). \<open>repo_step\<close> has the same moves as the
  \<open>reachable\<close> relation of the Posts theory; runs are its reflexive-transitive closure.
  The liveness property: from every reachable state, the author of a stored post can make
  it disappear, by logging in and deleting it, without touching the other posts.
\<close>

inductive repo_step :: "url_parser \<Rightarrow> sys \<Rightarrow> sys \<Rightarrow> bool" for P where
  act: "fresh_for a s \<Longrightarrow> repo_step P s (snd (run P a s))"
| session: "repo_step P s (setCurrentUser u s)"

inductive_cases repo_stepE: "repo_step P s s'"

lemma reachable_repo_step: "reachable P s \<Longrightarrow> repo_step P s s' \<Longrightarrow> reachable P s'"
  by (erule repo_stepE) (auto intro: reachable.step reachable.session simp: setCurrentUser_def)

lemma reachable_steps: "(repo_step P)\<^sup>*\<^sup>* s s' \<Longrightarrow> reachable P s \<Longrightarrow> reachable P s'"
  by (induction rule: rtranclp_induct) (auto intro: reachable_repo_step)

lemma reachable_ids_ok: "reachable P s \<Longrightarrow> ids_ok s"
proof (induction rule: reachable.induct)
  case (init s)
  then show ?case by (simp add: ids_ok_def)
next
  case (step s a)
  then show ?case using run_ids_ok by blast
next
  case (session s u)
  then show ?case by (simp add: ids_ok_def getPosts_def)
qed

lemma delete_own_post:
  assumes ok: "ids_ok s" and cu: "currentUser s = Some au" and p: "p \<in> set (getPosts s)"
    and au: "user_id au = authorId p"
  shows "set (getPosts (snd (deletePost (post_id p) s))) = set (getPosts s) - {p}"
proof -
  have d: "distinct (map post_id (getPosts s))" using ok by (simp add: ids_ok_def)
  obtain i where i: "find_idx (\<lambda>q. post_id q = post_id p) (getPosts s) = Some i"
    using p by (cases "find_idx (\<lambda>q. post_id q = post_id p) (getPosts s)") (auto simp: find_idx_None_iff)
  have il: "i < length (getPosts s)" and pi: "post_id (getPosts s ! i) = post_id p"
    using find_idx_SomeD [OF i] by simp_all
  have "getPosts s ! i = p"
    using d il pi p by (metis distinct_map in_set_conv_nth inj_on_eq_iff nth_mem)
  moreover have "distinct (getPosts s)" using d by (simp add: distinct_map)
  ultimately show ?thesis
    using cu i au il by (simp add: deletePost_def commit_def set_remove_at_distinct)
qed

text \<open>C30: In every state reachable from an empty collection, for every stored post, a run
  of repository steps exists (the author logs in, then deletes the post) that ends with
  the author logged in and exactly that post removed.\<close>

theorem author_can_delete:
  assumes r: "reachable P s" and p: "p \<in> set (getPosts s)" and au: "user_id au = authorId p"
  shows "\<exists>s'. (repo_step P)\<^sup>*\<^sup>* s s' \<and> currentUser s' = Some au \<and>
              set (getPosts s') = set (getPosts s) - {p}"
proof -
  define s1 where "s1 = setCurrentUser (Some au) s"
  define s2 where "s2 = snd (run P (DeletePost (post_id p)) s1)"
  have 1: "repo_step P s s1" unfolding s1_def by (rule repo_step.session)
  have 2: "repo_step P s1 s2" unfolding s2_def by (rule repo_step.act) simp
  have "(repo_step P)\<^sup>*\<^sup>* s s2" using 1 2 by (meson converse_rtranclp_into_rtranclp r_into_rtranclp)
  moreover have ok1: "ids_ok s1"
    using reachable_ids_ok [OF r] by (simp add: s1_def ids_ok_def)
  have "set (getPosts s2) = set (getPosts s) - {p}"
    using delete_own_post [OF ok1, of au p] p au by (simp add: s1_def s2_def)
  moreover have "currentUser s2 = Some au"
    using delete_own_post p au by (simp add: s1_def s2_def deletePost_def commit_def fail_alert_def
        Let_def split: option.split)
  ultimately show ?thesis by blast
qed

theorem author_can_delete_witness:
  "\<exists>s'. (repo_step (\<lambda>_. True))\<^sup>*\<^sup>* (snd (run (\<lambda>_. True) (CreatePost ''p9'' 3 ''hi'' []) demo_empty)) s' \<and>
        currentUser s' = Some demo_user \<and> set (getPosts s') = {}"
proof -
  let ?S = "snd (run (\<lambda>_. True) (CreatePost ''p9'' 3 ''hi'' []) demo_empty)"
  have e: "getPosts demo_empty = []" by (simp add: demo_empty_def getPosts_def)
  have r: "reachable (\<lambda>_. True) ?S"
    by (rule reachable.step [OF reachable.init [OF e]]) (simp add: e)
  obtain q where q: "getPosts ?S = [q]" "authorId q = ''u1''"
    by (simp add: createPost_def forget_def commit_def Let_def demo_empty_def getPosts_def
        currentUser_def blank_def js_trim_def is_js_space_def setPosts_def demo_user_def)
  have "user_id demo_user = authorId q" using q by (simp add: demo_user_def)
  then show ?thesis using author_can_delete [OF r, of q demo_user] q by simp
qed

end
