(* ===== verification/Repo_Abstract.thy ===== *)
theory Repo_Abstract
  imports Posts
begin

text \<open>
  An abstract specification of the post repository of posts.js and its refinement by
  the list-based operations of \<^theory_text>\<open>Posts\<close>. Abstractly the stored
  \<open>"posts"\<close> array is a finite map from post id to a post whose likers form a set
  (\<open>likes\<close> is their number, so it is not kept); each operation is a map update
  \<open>m(k \<mapsto> v)\<close> or removal \<open>m(k := None)\<close> with the same guards and error values
  as the source. The refinement theorem says that on well-formed storage with unique ids
  the array code (\<open>findIndex\<close>, index write, \<open>splice\<close>, \<open>indexOf\<close>/\<open>push\<close>) computes
  exactly the abstract operation.
\<close>

record apost =
  a_author :: uid
  a_name :: string
  a_text :: string
  a_image :: "string option"
  a_likers :: "uid set"
  a_comments :: "comment list"
  a_created :: time

type_synonym amap = "string \<rightharpoonup> apost"

definition abs_post :: "post \<Rightarrow> apost" where
  "abs_post p = \<lparr>a_author = authorId p, a_name = author p, a_text = post_text p,
     a_image = imageUrl p, a_likers = set (likedBy p), a_comments = comments p,
     a_created = createdAt p\<rparr>"

definition posts_map :: "post list \<Rightarrow> amap" where
  "posts_map ps = map_of (map (\<lambda>p. (post_id p, abs_post p)) ps)"

definition abs_sys :: "sys \<Rightarrow> amap" where
  "abs_sys s = posts_map (getPosts s)"

subsection \<open>Abstract operations\<close>

definition a_createPost ::
  "url_parser \<Rightarrow> string \<Rightarrow> time \<Rightarrow> string \<Rightarrow> string \<Rightarrow> user option \<Rightarrow> amap \<Rightarrow> (err + unit) \<times> amap" where
  "a_createPost parses fresh now msg url cu m =
     (case cu of
        None \<Rightarrow> (Inl Unauthenticated, m)
      | Some u \<Rightarrow>
          if blank msg then (Inl EmptyContent, m)
          else if url \<noteq> [] \<and> \<not> isValidUrl parses url then (Inl InvalidImageUrl, m)
          else (Inr (), m(fresh \<mapsto> \<lparr>a_author = user_id u, a_name = name u,
                  a_text = js_trim msg, a_image = stored_image url, a_likers = {},
                  a_comments = [], a_created = now\<rparr>)))"

definition a_deletePost :: "string \<Rightarrow> user option \<Rightarrow> amap \<Rightarrow> (err + unit) \<times> amap" where
  "a_deletePost k cu m =
     (case cu of
        None \<Rightarrow> (Inl Unauthenticated, m)
      | Some u \<Rightarrow>
          (case m k of
             None \<Rightarrow> (Inl PostNotFound, m)
           | Some ap \<Rightarrow>
               if a_author ap \<noteq> user_id u then (Inl NotAuthor, m) else (Inr (), m(k := None))))"

definition a_editPost ::
  "url_parser \<Rightarrow> string \<Rightarrow> string \<Rightarrow> string \<Rightarrow> user option \<Rightarrow> amap \<Rightarrow> (err + unit) \<times> amap" where
  "a_editPost parses k msg url cu m =
     (case cu of
        None \<Rightarrow> (Inl Unauthenticated, m)
      | Some u \<Rightarrow>
          if blank msg then (Inl EmptyContent, m)
          else if url \<noteq> [] \<and> \<not> isValidUrl parses url then (Inl InvalidImageUrl, m)
          else
            (case m k of
               None \<Rightarrow> (Inl PostNotFound, m)
             | Some ap \<Rightarrow>
                 if a_author ap \<noteq> user_id u then (Inl NotAuthor, m)
                 else (Inr (), m(k \<mapsto> ap\<lparr>a_text := js_trim msg, a_image := stored_image url\<rparr>))))"

definition a_toggleLike :: "string \<Rightarrow> user option \<Rightarrow> amap \<Rightarrow> (err + unit) \<times> amap" where
  "a_toggleLike k cu m =
     (case cu of
        None \<Rightarrow> (Inl Unauthenticated, m)
      | Some u \<Rightarrow>
          (case m k of
             None \<Rightarrow> (Inl PostNotFound, m)
           | Some ap \<Rightarrow>
               (let L = a_likers ap
                in (Inr (), m(k \<mapsto> ap\<lparr>a_likers :=
                      (if user_id u \<in> L then L - {user_id u} else insert (user_id u) L)\<rparr>)))))"

definition a_addComment ::
  "string \<Rightarrow> time \<Rightarrow> string \<Rightarrow> string \<Rightarrow> user option \<Rightarrow> amap \<Rightarrow> (err + unit) \<times> amap" where
  "a_addComment fresh now k msg cu m =
     (case cu of
        None \<Rightarrow> (Inl Unauthenticated, m)
      | Some u \<Rightarrow>
          if blank msg then (Inl EmptyComment, m)
          else
            (case m k of
               None \<Rightarrow> (Inl PostNotFound, m)
             | Some ap \<Rightarrow>
                 (Inr (), m(k \<mapsto> ap\<lparr>a_comments := a_comments ap @
                    [\<lparr>comment_id = fresh, comment_authorId = user_id u, comment_author = name u,
                      comment_text = js_trim msg, comment_createdAt = now\<rparr>]\<rparr>))))"

definition a_deleteComment :: "string \<Rightarrow> string \<Rightarrow> user option \<Rightarrow> amap \<Rightarrow> (err + unit) \<times> amap" where
  "a_deleteComment k cid cu m =
     (case cu of
        None \<Rightarrow> (Inl Unauthenticated, m)
      | Some u \<Rightarrow>
          (case m k of
             None \<Rightarrow> (Inl PostNotFound, m)
           | Some ap \<Rightarrow>
               (case find (\<lambda>c. comment_id c = cid) (a_comments ap) of
                  None \<Rightarrow> (Inl CommentNotFound, m)
                | Some c \<Rightarrow>
                    if comment_authorId c \<noteq> user_id u then (Inl NotAuthor, m)
                    else (Inr (), m(k \<mapsto> ap\<lparr>a_comments :=
                            filter (\<lambda>c. comment_id c \<noteq> cid) (a_comments ap)\<rparr>)))))"

fun a_run :: "url_parser \<Rightarrow> action \<Rightarrow> user option \<Rightarrow> amap \<Rightarrow> (err + unit) \<times> amap" where
  "a_run P (CreatePost f n t u) = a_createPost P f n t u"
| "a_run P (DeletePost k) = a_deletePost k"
| "a_run P (EditPost k t u) = a_editPost P k t u"
| "a_run P (ToggleLike k) = a_toggleLike k"
| "a_run P (AddComment f n k t) = a_addComment f n k t"
| "a_run P (DeleteComment k c) = a_deleteComment k c"

subsection \<open>The list view refines the map\<close>

lemma posts_map_simps [simp]:
  "posts_map [] = Map.empty"
  "posts_map (p # ps) = (posts_map ps)(post_id p \<mapsto> abs_post p)"
  by (simp_all add: posts_map_def)

lemma posts_map_lookup:
  "posts_map ps k = map_option (\<lambda>i. abs_post (ps ! i)) (find_idx (\<lambda>p. post_id p = k) ps)"
  by (induction ps) (auto simp: option.map_comp comp_def)

lemma posts_map_update:
  "find_idx (\<lambda>p. post_id p = k) ps = Some i \<Longrightarrow> post_id x = post_id (ps ! i) \<Longrightarrow>
   posts_map (ps[i := x]) = (posts_map ps)(k \<mapsto> abs_post x)"
proof (induction ps arbitrary: i)
  case (Cons p ps)
  then show ?case by (cases i) (auto split: if_splits simp: fun_upd_twist)
qed simp

lemma posts_map_remove_at:
  "distinct (map post_id ps) \<Longrightarrow> find_idx (\<lambda>p. post_id p = k) ps = Some i \<Longrightarrow>
   posts_map (remove_at i ps) = (posts_map ps)(k := None)"
proof (induction ps arbitrary: i)
  case (Cons p ps)
  show ?case
  proof (cases "post_id p = k")
    case True
    with Cons.prems have "posts_map ps k = None"
      by (auto simp: posts_map_def map_of_eq_None_iff)
    with True Cons.prems show ?thesis
      by (auto simp: remove_at_def)
  next
    case False
    with Cons.prems obtain j where j: "find_idx (\<lambda>p. post_id p = k) ps = Some j" and i: "i = Suc j"
      by auto
    from Cons.IH [OF _ j] Cons.prems False show ?thesis
      by (auto simp: i remove_at_def fun_eq_iff)
  qed
qed simp

lemma abs_sys_frame [simp]:
  "abs_sys (alert m s) = abs_sys s"
  "abs_sys (dispatch_postsUpdated (setPosts ps s)) = posts_map ps"
  by (simp_all add: abs_sys_def)

lemma abs_post_like_toggled:
  "distinct (likedBy p) \<Longrightarrow>
   abs_post (like_toggled u p) = (abs_post p)\<lparr>a_likers :=
     (if u \<in> set (likedBy p) then set (likedBy p) - {u} else insert u (set (likedBy p)))\<rparr>"
  by (simp add: abs_post_def like_toggled_def Let_def set_toggle_uid)

lemmas abs_lookup = abs_sys_def posts_map_lookup find_conv_find_idx

text \<open>C20: On storage whose posts are well formed and whose post ids and per-post comment
  ids are unique, every repository operation of posts.js refines its abstract
  specification on the map from post id to abstract post: the result (success or the
  error) is the abstract one, and the stored array after the operation abstracts to the
  abstract map after it.\<close>

theorem run_refines:
  assumes wf: "posts_wf s" and ok: "ids_ok s"
  shows "map_prod id abs_sys (run P a s) = a_run P a (currentUser s) (abs_sys s)"
proof (cases a)
  case (CreatePost f n t u)
  then show ?thesis
    by (auto simp: createPost_def a_createPost_def Let_def forget_def commit_def fail_alert_def
        abs_sys_def abs_post_def split: option.split)
next
  case (DeletePost k)
  with ok show ?thesis
    by (auto simp: deletePost_def a_deletePost_def Let_def commit_def fail_alert_def abs_lookup
        ids_ok_def posts_map_remove_at abs_post_def split: option.split)
next
  case (EditPost k t u)
  then show ?thesis
    by (auto simp: editPost_def a_editPost_def Let_def forget_def commit_def fail_alert_def
        abs_lookup posts_map_update abs_post_def split: option.split)
next
  case (ToggleLike k)
  show ?thesis
  proof (cases "find_idx (\<lambda>p. post_id p = k) (getPosts s)")
    case (Some i)
    have "distinct (likedBy (getPosts s ! i))"
      using list_all_nth_idx [OF wf [unfolded posts_wf_def] Some] by (simp add: post_wf_def)
    with ToggleLike Some show ?thesis
      by (auto simp: toggleLike_def a_toggleLike_def Let_def commit_def fail_alert_def abs_lookup
          posts_map_update abs_post_like_toggled split: option.split) (simp_all add: abs_post_def)
  qed (auto simp: ToggleLike toggleLike_def a_toggleLike_def fail_alert_def abs_lookup
         split: option.split)
next
  case (AddComment f n k t)
  then show ?thesis
    by (auto simp: addComment_def a_addComment_def Let_def forget_def commit_def fail_silent_def
        fail_alert_def abs_lookup posts_map_update abs_post_def split: option.split)
next
  case (DeleteComment k c)
  with ok show ?thesis
    by (auto simp: deleteComment_def a_deleteComment_def Let_def commit_def fail_silent_def
        fail_alert_def abs_lookup posts_map_update abs_post_def ids_ok_def remove_at_eq_filter
        dest: list_all_nth_idx split: option.split)
qed

lemma demo_ids_ok: "ids_ok demo_sys"
  by (simp add: ids_ok_def demo_defs)

theorem run_refines_witness:
  "map_prod id abs_sys (run (\<lambda>_. True) (ToggleLike ''p2'') demo_sys) =
   (Inr (), (abs_sys demo_sys)(''p2'' \<mapsto> (abs_post demo_post2)\<lparr>a_likers := {''u2''}\<rparr>))"
  using run_refines [OF demo_posts_wf demo_ids_ok, of "\<lambda>_. True" "ToggleLike ''p2''"]
  by (simp add: a_toggleLike_def abs_sys_def abs_post_def demo_defs insert_Diff_if)

end
