(* ===== verification/Tailwind.thy ===== *)
theory Tailwind
  imports Profile
begin

text \<open>
  src/tailwind.config.js as data: the content globs Tailwind scans for class names, the
  colours added to the theme, the plugins, and the dark-mode strategy, which the file
  does not set (\<open>None\<close>). Which \<open>dark:\<close> styles apply is Tailwind's rule, not code
  of this repository: with \<open>darkMode: "class"\<close> (or \<open>"selector"\<close>) they follow the
  \<open>dark\<close> class on the root element; otherwise (the default, \<open>"media"\<close>) they follow the
  system's \<open>prefers-color-scheme\<close>. \<open>dark_styles\<close> states that rule.
\<close>

record tailwind_config =
  tw_content :: "string list"
  tw_darkMode :: "string option"
  tw_colors :: "(string \<times> string) list"
  tw_plugins :: "string list"

definition tailwind_cfg :: tailwind_config where
  "tailwind_cfg =
     \<lparr>tw_content = [''./src/pages/**/*.html'', ''./src/javascript/**/*.js''],
      tw_darkMode = None,
      tw_colors = [(''primary'', ''#3B82F6''), (''secondary'', ''#10B981''), (''danger'', ''#EF4444''),
                   (''dark'', ''#1F2937''), (''light'', ''#F3F4F6'')],
      tw_plugins = []\<rparr>"

definition dark_styles :: "tailwind_config \<Rightarrow> doc \<Rightarrow> bool \<Rightarrow> bool" where
  "dark_styles cfg d prefers_dark =
     (if tw_darkMode cfg \<in> {Some ''class'', Some ''selector''} then root_dark d else prefers_dark)"

text \<open>With this configuration the theme toggle has no visible effect on the \<open>dark:\<close>
  styles: after any number of clicks on the toggle button they follow the system setting,
  although the stored theme and the root class change.\<close>

lemma dark_styles_ignore_toggle:
  "dark_styles tailwind_cfg (snd ((theme_click ^^ n) st)) prefers_dark = prefers_dark"
  by (simp add: dark_styles_def tailwind_cfg_def)

text \<open>Had the file set \<open>darkMode: "class"\<close>, the styles would follow the stored theme in
  every reachable page state (by the theme invariant).\<close>

lemma dark_styles_class_mode:
  "theme_ok (s, d) \<Longrightarrow>
   dark_styles (tailwind_cfg\<lparr>tw_darkMode := Some ''class''\<rparr>) d pref = (getTheme s = ''dark'')"
  by (simp add: dark_styles_def theme_ok_def Let_def)

end
