(* ===== verification/Spec2Isabelle.thy ===== *)
theory Spec2Isabelle
  imports Feed_Edit Auth_Page Trending Hashtag_Regex Render Repo_Steps Repo_Abstract Tailwind
begin

text \<open>
  \<^bold>\<open>A verification model of the SocialMedia browser app (Muneeb-WebDev/SocialMedia).\<close>

  \<^emph>\<open>The program.\<close> Everything runs in one browser tab. The scripts keep their state in
  \<open>localStorage\<close> (keys \<open>"posts"\<close>, \<open>"currentUser"\<close>, \<open>"users"\<close>, \<open>"theme"\<close>),
  read and written whole through \<open>load\<close>/\<open>save\<close> of src/dist/javascript/utils.js. The
  post repository (src/src/javascript/posts.js) mutates the \<open>"posts"\<close> array and
  dispatches a \<open>postsUpdated\<close> event on \<open>window\<close>; the feed (src/src/javascript/feed.js)
  listens for that event, recomputes the visible list (follow filter, search, hashtag
  filter, sort) and re-renders it, attaching click handlers that call back into the
  repository. auth.js signs users up and logs them in and out.

  \<^emph>\<open>Theories.\<close>
  \<^item> \<open>Prelude\<close>: JavaScript list primitives (\<open>findIndex\<close>/\<open>indexOf\<close> as
    \<open>find_idx\<close>, \<open>splice(i,1)\<close> as \<open>remove_at\<close>) and string primitives
    (\<open>js_trim\<close>, \<open>js_lower\<close>, \<open>js_includes\<close>) with their shared lemmas, among them
    how \<open>find\<close>/\<open>find_idx\<close> behave under a list update.
  \<^item> \<open>Store\<close>: the records \<open>user\<close>, \<open>post\<close>, \<open>comment\<close> as auth.js and posts.js
    build them, \<open>store\<close> (one field per storage key), and \<open>sys\<close> (storage, the
    dispatched events, the alert messages); the \<open>load\<close>/\<open>save\<close> accessors.
  \<^item> \<open>Utils\<close> (utils.js): \<open>isValidUrl\<close> over the browser's URL parser (a parameter);
    \<open>extractHashtags\<close> as a scanner, whose tags are exactly the maximal word runs
    after a hash sign (C18); \<open>isValidEmail\<close> as the set of strings its regex
    matches, proved equal to a one-pass check (C27); \<open>hashPassword\<close> on integers with
    ToInt32 written out, proved equal to the polynomial hash on \<open>32 word\<close> (C23); two
    passwords share a stored hash exactly when the absolute values of their 32-bit hashes
    agree (C24), a hash has 1 to 8 hex digits (C25), and "Aa" and "BB" are
    interchangeable anywhere in a password (C26).
  \<^item> \<open>Hashtag_Regex\<close>: the engine's global-match loop for \<open>match(/#\w+/g)\<close> as a
    \<open>partial_function (option)\<close>; it returns on every input and its matches without
    the hash sign are \<open>extractHashtags\<close> (C39).
  \<^item> \<open>Format\<close>: \<open>formatDate\<close>, with the locale formatting a parameter, and its buckets.
  \<^item> \<open>Posts\<close> (posts.js): one definition per exported function, returning
    \<open>(err + 'a) \<times> sys\<close>: every early return is an \<open>Inl\<close>, alerts are appended to
    \<open>alerts\<close>, success writes the posts and appends one \<open>PostsUpdated\<close>.
    \<open>sortPosts\<close> uses \<open>js_sort\<close>, a stable merge sort for \<open>Array.prototype.sort\<close>,
    proved equal to \<open>sort_key\<close>. The state invariant over \<open>reachable\<close> (C1), the
    per-branch behaviour and the error frames (C2-C11, C21).
  \<^item> \<open>Feed\<close>, \<open>Feed_Edit\<close> (feed.js): the views (follow filter, search, hashtag view,
    sort) and the page: the list shown, the listeners accumulated on
    \<open>#feedContainer\<close> and \<open>window\<close> (one more per non-empty render), the open edit
    forms and comment sections. A click runs every attached listener in turn; C12-C17,
    C22 and C40 are the consequences (a like after load is undone, a save after load
    alerts "Post content cannot be empty").
  \<^item> \<open>Render\<close> (feed.js \<open>renderPostCard\<close>, \<open>renderComments\<close>): what a card shows,
    as a view record, with the hashtag links as the exact HTML string; the lemmas
    \<open>link_tags_prefix\<close> and \<open>link_tags_repeated\<close> show a prefix tag linked inside a
    longer one and a repeated tag wrapped twice.
  \<^item> \<open>Profile\<close> (utils.js): the theme (stored value, root class, button state, C28-C29)
    and \<open>getUserById\<close>/\<open>updateUserProfile\<close>.
  \<^item> \<open>Tailwind\<close>: tailwind.config.js as data, and Tailwind's dark-mode rule; the
    file sets no \<open>darkMode\<close>, so the \<open>dark:\<close> styles follow the system setting and
    the theme toggle does not change them (\<open>dark_styles_ignore_toggle\<close>).
  \<^item> \<open>Sanitize\<close>: \<open>sanitize\<close> as HTML text escaping, with its decoder and the
    absence of markup characters; \<open>Render\<close> shows the card HTML does not use it (C19).
  \<^item> \<open>Repo_Steps\<close>: the repository as a step relation (an operation or a change of
    session user) and the liveness property that the author of any stored post can
    always remove it (C30).
  \<^item> \<open>Repo_Abstract\<close>: the abstract specification of the repository, a finite map
    from post id to a post whose likers are a set, with one map-update operation per
    posts.js function; the array code refines it on storage with unique ids (C20).
  \<^item> \<open>Auth\<close> (auth.js): the signup and login submit handlers and logout, with their
    validation chains (C32-C34).
  \<^item> \<open>Auth_Page\<close> (auth.js \<open>initSignup\<close>, \<open>initLogin\<close>, \<open>initLogout\<close>,
    \<open>updateWelcomeMessage\<close>): the element lookups and their guards, one more listener
    per init call, and an event running every attached listener in order (the last
    navigation wins). Logout is idempotent under repeated registration; two signup
    listeners create the account and then alert that the e-mail is taken (C38); the
    greeting is never cleared on logout.
  \<^item> \<open>Trending\<close> (utils.js \<open>getTrendingHashtags\<close>): the counter object as an
    insertion-ordered association list, \<open>Object.entries\<close> order, the stable sort by count,
    \<open>slice(0, 5)\<close> (C35-C37).
  \<^item> This theory: the session invariant across auth.js, utils.js and posts.js (C31), and
    the like click after load (C17).

  \<^emph>\<open>Inputs and bounds.\<close> \<open>Date.now()\<close>, generated ids, \<open>confirm\<close> answers, typed
  text and the URL parser are arguments. No fuel is used: every loop is a structural
  recursion, a \<open>function\<close> with a measure, or the \<open>partial_function\<close> of
  \<open>Hashtag_Regex\<close>, whose termination is a theorem.

  \<^emph>\<open>Not modelled.\<close> CSS classes and the markup around the card contents
  (the card is its view record), how the HTML pages call the init functions (the pages
  are not in the repository; the count of listeners is the model's input), the
  navigation itself (the target page is returned), the random digits of
  \<open>generateId\<close> (an argument), and the browser's layout of the Tailwind classes.
  signup reads \<open>Date.now()\<close> twice (the id and \<open>createdAt\<close>); the model passes one
  \<open>now\<close> to both, the common case of both calls in the same millisecond.
  Hashtags that name \<open>Object.prototype\<close> members other than \<open>__proto__\<close> make the
  trending order engine-dependent; the model returns \<open>None\<close> for them.
\<close>

section \<open>The session across auth.js, utils.js and posts.js\<close>

text \<open>\<open>session_reach\<close> is the set of storage states the pages can produce from an empty
  user list: sign-up (with an id not in use, i.e. a later millisecond), login, logout,
  \<open>updateUserProfile\<close> with updates that keep ids, every post operation of
  posts.js, and the theme toggle.\<close>

inductive session_reach :: "url_parser \<Rightarrow> sys \<Rightarrow> bool" for P where
  init: "getUsers s = [] \<Longrightarrow> currentUser s = None \<Longrightarrow> session_reach P s"
| signup: "session_reach P s \<Longrightarrow> js_int_string now \<notin> user_id ` set (getUsers s) \<Longrightarrow>
    session_reach P (snd (signup now nm em pw cpw s))"
| login: "session_reach P s \<Longrightarrow> session_reach P (snd (login em pw s))"
| logout: "session_reach P s \<Longrightarrow> session_reach P (snd (logout s))"
| profile: "session_reach P s \<Longrightarrow> keeps_ids updates \<Longrightarrow> session_reach P (updateUserProfile uid updates s)"
| post: "session_reach P s \<Longrightarrow> session_reach P (snd (run P a s))"
| theme: "session_reach P s \<Longrightarrow> session_reach P (fst (snd (toggleTheme (s, d))))"

section \<open>Properties spanning the repository and the feed\<close>

text \<open>C17: Right after the index page loads without a hashtag filter, with a non-empty
  feed, one click on the like button of a post the user has not liked leaves the stored
  posts unchanged: \<open>initFeed\<close> runs twice, each run renders once and attaches one
  click listener, so the click calls \<open>toggleLike\<close> twice and the second call undoes
  the first.\<close>

theorem like_click_after_load_noop:
  assumes wf: "posts_wf s" and cu: "currentUser s = Some cu"
    and i: "find_idx (\<lambda>p. post_id p = pid) (getPosts s) = Some i"
    and unliked: "user_id cu \<notin> set (likedBy (getPosts s ! i))"
    and nonempty: "feedPosts s \<noteq> []"
  shows "getPosts (pg_sys (click (like_click pid) (initFeedPage None (fresh_page s)))) = getPosts s"
proof -
  let ?pg = "initFeedPage None (fresh_page s)"
  have pg: "clickHandlers ?pg = 2" "pg_sys ?pg = s"
    using initFeedPage_None [OF nonempty] by simp_all
  have "getPosts (pg_sys (run_clicks 0 2 (like_click pid) ?pg)) = getPosts s"
    using like_clicks_posts [of ?pg cu pid i 0 2] wf cu i unliked pg by simp
  with pg show ?thesis by (simp add: click_def)
qed

theorem like_click_after_load_noop_witness:
  "getPosts (pg_sys (click (like_click ''p1'') (initFeedPage None (fresh_page demo_sys)))) =
   [demo_post1, demo_post2]"
  using like_click_after_load_noop [OF demo_posts_wf demo_currentUser, of "''p1''" 0]
  by (simp add: demo_defs feedPosts_def follow_filter_def)

section \<open>Properties of the session\<close>

lemma run_session_frame:
  "getUsers (snd (run P a s)) = getUsers s \<and> currentUser (snd (run P a s)) = currentUser s"
  using contract_run [of s P a]
  by (auto simp: contract_def getUsers_def currentUser_def setPosts_def split: sum.splits)

lemma session_cong:
  "getUsers s' = getUsers s \<Longrightarrow> currentUser s' = currentUser s \<Longrightarrow>
   (session_synced s' \<and> ids_distinct s') = (session_synced s \<and> ids_distinct s)"
  by (simp add: session_synced_def getUserById_def ids_distinct_def split: option.split)

lemma find_append_first:
  "find P xs = Some x \<Longrightarrow> find P (xs @ ys) = Some x"
  by (induction xs) (auto split: if_splits)

lemma find_id_distinct:
  "distinct (map user_id us) \<Longrightarrow> u \<in> set us \<Longrightarrow> find (\<lambda>x. user_id x = user_id u) us = Some u"
  by (induction us) (auto simp: image_iff)

lemma session_ok_signup:
  assumes ok: "session_synced s \<and> ids_distinct s" and fresh: "js_int_string now \<notin> user_id ` set (getUsers s)"
  shows "session_synced (snd (signup now nm em pw cpw s)) \<and> ids_distinct (snd (signup now nm em pw cpw s))"
proof (cases "fst (signup now nm em pw cpw s)")
  case (Inl e)
  then show ?thesis
    using session_cong signup_fail_frame [OF Inl] ok by blast
next
  case (Inr r)
  note su = signup_success [OF Inr]
  have st: "snd (signup now nm em pw cpw s) =
      alert ''Signup successful! Please log in.''
        (setUsers (getUsers s @ [new_user now (js_trim nm) (js_trim em) pw]) s)"
    using su by blast
  have "ids_distinct (snd (signup now nm em pw cpw s))"
    using signup_unique [OF Inr] ok fresh by blast
  moreover have "session_synced (snd (signup now nm em pw cpw s))"
    using ok unfolding st
    by (auto simp: session_synced_def getUserById_def find_append_first split: option.splits)
  ultimately show ?thesis by blast
qed

lemma login_effect:
  "(\<exists>m. snd (login em pw s) = alert m s) \<or>
   (\<exists>u\<in>set (getUsers s). snd (login em pw s) = setCurrentUser (Some u) s)"
  by (auto simp: login_def auth_fail_def Let_def find_Some_iff split: option.split)

lemma session_ok_login:
  assumes ok: "session_synced s \<and> ids_distinct s"
  shows "session_synced (snd (login em pw s)) \<and> ids_distinct (snd (login em pw s))"
  using login_effect [of em pw s]
proof
  assume "\<exists>m. snd (login em pw s) = alert m s"
  then show ?thesis using session_cong ok by force
next
  assume "\<exists>u\<in>set (getUsers s). snd (login em pw s) = setCurrentUser (Some u) s"
  then obtain u where u: "u \<in> set (getUsers s)" and st: "snd (login em pw s) = setCurrentUser (Some u) s"
    by blast
  have "getUserById (user_id u) s = Some u"
    using find_id_distinct [OF _ u] ok by (simp add: getUserById_def ids_distinct_def)
  then show ?thesis
    using ok unfolding st by (simp add: session_synced_def getUserById_def ids_distinct_def)
qed

lemma getUsers_updateUserProfile_ids:
  "keeps_ids updates \<Longrightarrow> map user_id (getUsers (updateUserProfile userId updates s)) = map user_id (getUsers s)"
  by (auto simp: updateUserProfile_def Let_def keeps_ids_def map_update_same find_idx_less
      split: option.split)

lemma session_ok_profile:
  assumes ok: "session_synced s \<and> ids_distinct s" and ids: "keeps_ids updates"
  shows "session_synced (updateUserProfile userId updates s) \<and> ids_distinct (updateUserProfile userId updates s)"
  using ok updateUserProfile_synced [OF ids] getUsers_updateUserProfile_ids [OF ids]
  by (simp add: ids_distinct_def)

text \<open>C31: Across sign-ups with fresh ids, logins, logouts, profile updates that keep ids,
  every post operation and theme toggles, the stored session user is always the first
  entry with its id in the user list, and user ids stay distinct.\<close>

theorem session_reach_invariant: "session_reach P s \<Longrightarrow> session_synced s \<and> ids_distinct s"
proof (induction rule: session_reach.induct)
  case (init s)
  then show ?case by (simp add: session_synced_def ids_distinct_def)
next
  case (signup s now nm em pw cpw)
  then show ?case by (intro session_ok_signup)
next
  case (login s em pw)
  then show ?case by (intro session_ok_login)
next
  case (logout s)
  then show ?case by (simp add: logout_def session_synced_def ids_distinct_def getUserById_def)
next
  case (profile s updates uid)
  then show ?case by (simp add: session_ok_profile)
next
  case (post s a)
  then show ?case using session_cong run_session_frame by blast
next
  case (theme s d)
  have "getUsers (fst (snd (toggleTheme (s, d)))) = getUsers s"
       "currentUser (fst (snd (toggleTheme (s, d)))) = currentUser s"
    by (simp_all add: toggleTheme_def Let_def saveTheme_def getUsers_def currentUser_def)
  then show ?case using session_cong theme.IH by blast
qed

theorem session_reach_invariant_witness:
  "session_synced (snd (login ''ann@example.com'' ''AaAaAa''
      (snd (signup 1 ''Ann'' ''ann@example.com'' ''AaAaAa'' ''AaAaAa'' blank_sys)))) \<and>
   currentUser (snd (login ''ann@example.com'' ''AaAaAa''
      (snd (signup 1 ''Ann'' ''ann@example.com'' ''AaAaAa'' ''AaAaAa'' blank_sys)))) \<noteq> None"
proof -
  have r: "session_reach (\<lambda>_. True) (snd (login ''ann@example.com'' ''AaAaAa''
      (snd (signup 1 ''Ann'' ''ann@example.com'' ''AaAaAa'' ''AaAaAa'' blank_sys))))"
    by (intro session_reach.login session_reach.signup session_reach.init) simp_all
  have "currentUser (snd (login ''ann@example.com'' ''AaAaAa''
      (snd (signup 1 ''Ann'' ''ann@example.com'' ''AaAaAa'' ''AaAaAa'' blank_sys)))) \<noteq> None"
    by (simp add: login_def signup_def Let_def js_trim_def is_js_space_def isValidEmail_def
        email_seg_def auth_fail_def new_user_def)
  then show ?thesis using session_reach_invariant [OF r] by simp
qed

end
